(* ===== verification/Prelude.thy ===== *)
theory Prelude
  imports Main "HOL-Library.Char_ord" "HOL-Library.List_Lexorder" "HOL-Library.State_Monad"
    "HOL-Library.Multiset" "HOL-Library.Sublist"
begin

text \<open>
  What every component shares: the collections of rewrite rules the component proofs use, the
  state monad the effectful operations are written in, Go maps as strictly sorted association
  lists, and the parts of Go's standard library the operator calls on strings and slices
  (\<^verbatim>\<open>strings.CutPrefix\<close>, \<^verbatim>\<open>strings.TrimSpace\<close>, \<^verbatim>\<open>slices.Sort\<close>,
  \<^verbatim>\<open>slices.DeleteFunc\<close>, \<^verbatim>\<open>url.PathEscape\<close>, \<^verbatim>\<open>hex.EncodeToString\<close>, \<^verbatim>\<open>strconv.Itoa\<close>,
  \<^verbatim>\<open>filepath.Base\<close>). A Go string is a sequence of bytes, and so is an Isabelle \<open>string\<close>.
\<close>

named_theorems run_simps \<open>how each operation runs: rewrite rules for \<open>run_state\<close>\<close>

subsection \<open>The state monad\<close>

lemma run_return [run_simps]: "run_state (State_Monad.return a) s = (a, s)"
  by (simp add: State_Monad.return_def)

lemma run_bind [run_simps]:
  "run_state (State_Monad.bind m f) s = (case run_state m s of (a, t) \<Rightarrow> run_state (f a) t)"
  by (simp add: State_Monad.bind_def)

lemma run_State [run_simps]: "run_state (State f) s = f s"
  by simp

text \<open>Running a list of operations in order, discarding their results: a \<^verbatim>\<open>for\<close> loop.\<close>

fun for_each :: "'a list \<Rightarrow> ('a \<Rightarrow> ('s, unit) state) \<Rightarrow> ('s, unit) state" where
  "for_each [] f = State_Monad.return ()"
| "for_each (x # xs) f = State_Monad.bind (f x) (\<lambda>_. for_each xs f)"

lemma run_for_each_Nil [run_simps]: "run_state (for_each [] f) s = ((), s)"
  by (simp add: run_simps)

lemma run_for_each_Cons [run_simps]:
  "run_state (for_each (x # xs) f) s = run_state (for_each xs f) (snd (run_state (f x) s))"
  by (simp add: run_simps split: prod.splits)

declare for_each.simps [simp del]

lemma run_for_each_append:
  "run_state (for_each (xs @ ys) f) s = run_state (for_each ys f) (snd (run_state (for_each xs f) s))"
  by (induction xs arbitrary: s) (simp_all add: run_simps)

text \<open>Repeating an operation \<open>n\<close> times: what a wait loop does before its context is cancelled.\<close>

fun repeat_n :: "nat \<Rightarrow> ('s, unit) state \<Rightarrow> ('s, unit) state" where
  "repeat_n 0 m = State_Monad.return ()"
| "repeat_n (Suc n) m = State_Monad.bind m (\<lambda>_. repeat_n n m)"

lemma run_repeat_n_0 [run_simps]: "run_state (repeat_n 0 m) s = ((), s)"
  by (simp add: run_simps)

lemma run_repeat_n_Suc [run_simps]:
  "run_state (repeat_n (Suc n) m) s = run_state (repeat_n n m) (snd (run_state m s))"
  by (simp add: run_simps split: prod.splits)

declare repeat_n.simps [simp del]

text \<open>An invariant of the body is an invariant of the loop.\<close>

lemma for_each_invariant:
  assumes "P s" and "\<And>x t. x \<in> set xs \<Longrightarrow> P t \<Longrightarrow> P (snd (run_state (f x) t))"
  shows "P (snd (run_state (for_each xs f) s))"
  using assms by (induction xs arbitrary: s) (simp_all add: run_simps)

lemma repeat_n_invariant:
  assumes "P s" and "\<And>t. P t \<Longrightarrow> P (snd (run_state m t))"
  shows "P (snd (run_state (repeat_n n m) s))"
  using assms by (induction n arbitrary: s) (simp_all add: run_simps)

subsection \<open>Go maps\<close>

text \<open>
  A Go map is represented by the list of its entries in strictly increasing order of the keys.
  The representation is canonical, so two maps are equal exactly when their lists are. A nil map
  and an empty one are both \<open>[]\<close>: nothing in the operator tells them apart.
\<close>

type_synonym ('k, 'v) gomap = "('k \<times> 'v) list"

fun map_put :: "'k::linorder \<Rightarrow> 'v \<Rightarrow> ('k, 'v) gomap \<Rightarrow> ('k, 'v) gomap" where
  "map_put k v [] = [(k, v)]"
| "map_put k v ((k', v') # m) =
     (if k < k' then (k, v) # (k', v') # m
      else if k = k' then (k, v) # m
      else (k', v') # map_put k v m)"

definition gomap_wf :: "('k::linorder, 'v) gomap \<Rightarrow> bool" where
  "gomap_wf m \<longleftrightarrow> sorted_wrt (<) (map fst m)"

lemma gomap_wf_Nil [simp]: "gomap_wf []"
  by (simp add: gomap_wf_def)

lemma keys_map_put: "fst ` set (map_put k v m) = insert k (fst ` set m)"
  by (induction k v m rule: map_put.induct) (auto simp: insert_commute)

lemma map_put_wf: "gomap_wf m \<Longrightarrow> gomap_wf (map_put k v m)"
proof (induction m)
  case (Cons e m)
  obtain k' v' where e: "e = (k', v')" by (cases e)
  from Cons.prems e have wf: "gomap_wf m" and lt: "\<forall>x\<in>fst ` set m. k' < x"
    by (auto simp: gomap_wf_def)
  consider "k < k'" | "k = k'" | "k' < k" by fastforce
  then show ?case
  proof cases
    case 3
    then have "\<forall>x\<in>fst ` set (map_put k v m). k' < x"
      using lt by (simp add: keys_map_put)
    with 3 e Cons.IH [OF wf] show ?thesis by (auto simp: gomap_wf_def)
  qed (use Cons.prems e lt in \<open>auto simp: gomap_wf_def\<close>)
qed (simp add: gomap_wf_def)

lemma map_of_map_put: "gomap_wf m \<Longrightarrow> map_of (map_put k v m) = (map_of m)(k \<mapsto> v)"
proof (induction m)
  case (Cons e m)
  then have "gomap_wf m" by (simp add: gomap_wf_def)
  with Cons.IH show ?case by (cases e) (auto simp: fun_eq_iff)
qed simp

lemma gomap_wf_distinct: "gomap_wf m \<Longrightarrow> distinct (map fst m)"
  by (simp add: gomap_wf_def strict_sorted_iff)

text \<open>The representation is canonical: the lookups determine the map.\<close>

lemma gomap_eqI:
  assumes "gomap_wf m" and "gomap_wf n" and "map_of m = map_of n"
  shows "m = n"
proof -
  have set_eq: "set m = set n"
    using assms by (metis gomap_wf_distinct map_of_eq_Some_iff subrelI subset_antisym)
  have "inj_on fst (set m \<union> set n)"
    using set_eq gomap_wf_distinct [OF assms(1)] by (simp add: distinct_map)
  then show ?thesis
    using assms(1,2) set_eq
    by (intro map_sorted_distinct_set_unique) (auto simp: gomap_wf_def strict_sorted_iff)
qed

lemma foldl_map_put_wf: "gomap_wf m \<Longrightarrow> gomap_wf (foldl (\<lambda>m (k, v). map_put k v m) m xs)"
  by (induction xs arbitrary: m) (auto simp: map_put_wf)

lemma map_of_foldl_map_put:
  "gomap_wf m \<Longrightarrow> map_of (foldl (\<lambda>m (k, v). map_put k v m) m xs) = map_of m ++ map_of (rev xs)"
  by (induction xs arbitrary: m) (auto simp: map_put_wf map_of_map_put map_add_def fun_eq_iff split: option.splits)

lemma map_of_rev_distinct: "distinct (map fst xs) \<Longrightarrow> map_of (rev xs) = map_of xs"
  by (metis distinct_rev map_of_inject_set rev_map set_rev)


subsection \<open>Slices and strings of the standard library\<close>

lemma image_filter_fst: "fst ` {e \<in> set xs. P (fst e)} = {k \<in> fst ` set xs. P k}"
  by auto

lemma sort_mset_cong: "mset xs = mset ys \<Longrightarrow> sort xs = sort ys"
  by (rule properties_for_sort) simp_all

definition cut_prefix :: "string \<Rightarrow> string \<Rightarrow> string \<times> bool" where
  "cut_prefix s p = (if prefix p s then (drop (length p) s, True) else (s, False))"

lemma cut_prefix_append [simp]: "cut_prefix (p @ s) p = (s, True)"
  by (simp add: cut_prefix_def)

definition delete_func :: "('a \<Rightarrow> bool) \<Rightarrow> 'a list \<Rightarrow> 'a list" where
  "delete_func P xs = filter (\<lambda>x. \<not> P x) xs"

text \<open>
  \<^verbatim>\<open>strings.TrimSpace\<close> removes the runes \<^verbatim>\<open>unicode.IsSpace\<close> holds of at both ends; these are
  their UTF-8 encodings.
\<close>

definition space_encodings :: "string list" where
  "space_encodings =
     map (\<lambda>b. [char_of b]) [0x09::nat, 0x0A, 0x0B, 0x0C, 0x0D, 0x20]
     @ map (\<lambda>b. [char_of (0xC2::nat), char_of b]) [0x85::nat, 0xA0]
     @ [[char_of (0xE1::nat), char_of (0x9A::nat), char_of (0x80::nat)]]
     @ map (\<lambda>b. [char_of (0xE2::nat), char_of (0x80::nat), char_of b])
         ([0x80::nat ..< 0x8B] @ [0xA8, 0xA9, 0xAF])
     @ [[char_of (0xE2::nat), char_of (0x81::nat), char_of (0x9F::nat)],
        [char_of (0xE3::nat), char_of (0x80::nat), char_of (0x80::nat)]]"

function trim_left_of :: "string list \<Rightarrow> string \<Rightarrow> string" where
  "trim_left_of encs s =
     (case find (\<lambda>p. p \<noteq> [] \<and> prefix p s) encs of
        None \<Rightarrow> s
      | Some p \<Rightarrow> trim_left_of encs (drop (length p) s))"
  by pat_completeness auto
termination
proof (relation "measure (\<lambda>(encs, s). length s)", goal_cases)
  case (2 encs s p)
  then have "p \<noteq> []" and "prefix p s" by (auto simp: find_Some_iff)
  then show ?case by (cases p) (auto dest: prefix_length_le)
qed simp

declare trim_left_of.simps [simp del]

definition trim_space :: "string \<Rightarrow> string" where
  "trim_space s = rev (trim_left_of (map rev space_encodings) (rev (trim_left_of space_encodings s)))"

subsubsection \<open>\<^verbatim>\<open>url.PathEscape\<close>\<close>

definition hex_digit_upper :: "nat \<Rightarrow> char" where
  "hex_digit_upper n = ''0123456789ABCDEF'' ! (n mod 16)"

definition path_unescaped :: "char \<Rightarrow> bool" where
  "path_unescaped c \<longleftrightarrow>
     (CHR ''a'' \<le> c \<and> c \<le> CHR ''z'') \<or> (CHR ''A'' \<le> c \<and> c \<le> CHR ''Z'')
     \<or> (CHR ''0'' \<le> c \<and> c \<le> CHR ''9'') \<or> c \<in> set ''-_.~$&+=:@''"

definition escape_char :: "char \<Rightarrow> string" where
  "escape_char c =
     (if path_unescaped c then [c]
      else [CHR ''%'', hex_digit_upper (of_char c div 16), hex_digit_upper (of_char c)])"

definition path_escape :: "string \<Rightarrow> string" where
  "path_escape s = concat (map escape_char s)"

lemma hex_digit_upper_inj: "m < 16 \<Longrightarrow> n < 16 \<Longrightarrow> hex_digit_upper m = hex_digit_upper n \<longleftrightarrow> m = n"
proof -
  have "distinct ''0123456789ABCDEF''" by simp
  moreover assume "m < 16" "n < 16"
  ultimately show ?thesis
    unfolding hex_digit_upper_def by (subst nth_eq_iff_index_eq) auto
qed

lemma hex_digit_upper_mod: "hex_digit_upper (n mod 16) = hex_digit_upper n"
  by (simp add: hex_digit_upper_def)

lemma escape_char_prefix_free:
  assumes "escape_char c @ r = escape_char d @ t"
  shows "c = d \<and> r = t"
proof (cases "path_unescaped c")
  case True
  moreover have "\<not> path_unescaped (CHR ''%'')" by (simp add: path_unescaped_def less_eq_char_def)
  ultimately show ?thesis using assms by (auto simp: escape_char_def split: if_splits)
next
  case False
  moreover have un: "\<not> path_unescaped (CHR ''%'')" by (simp add: path_unescaped_def less_eq_char_def)
  ultimately have d: "\<not> path_unescaped d" using assms by (auto simp: escape_char_def split: if_splits)
  let ?c = "of_char c :: nat" and ?d = "of_char d :: nat"
  have "hex_digit_upper (?c div 16) = hex_digit_upper (?d div 16)"
    and "hex_digit_upper (?c mod 16) = hex_digit_upper (?d mod 16)" and rt: "r = t"
    using assms False d by (simp_all add: escape_char_def hex_digit_upper_mod)
  moreover have "?c < 256" "?d < 256" by (simp_all add: nat_of_char_less_256)
  ultimately have "?c div 16 = ?d div 16" "?c mod 16 = ?d mod 16"
    by (simp_all add: hex_digit_upper_inj less_mult_imp_div_less)
  then have "?c = ?d" by (metis div_mult_mod_eq)
  then show ?thesis using rt by simp
qed

lemma path_escape_inj: "path_escape s = path_escape t \<longleftrightarrow> s = t"
proof
  show "path_escape s = path_escape t \<Longrightarrow> s = t"
  proof (induction s arbitrary: t)
    case Nil
    then show ?case by (cases t) (auto simp: path_escape_def escape_char_def split: if_splits)
  next
    case (Cons c s)
    then obtain d t' where t: "t = d # t'"
      by (cases t) (auto simp: path_escape_def escape_char_def split: if_splits)
    with Cons.prems have "escape_char c @ path_escape s = escape_char d @ path_escape t'"
      by (simp add: path_escape_def)
    with Cons.IH t show ?case by (auto dest: escape_char_prefix_free)
  qed
qed simp

lemma path_escape_chars: "c \<in> set (path_escape s) \<Longrightarrow> path_unescaped c \<or> c = CHR ''%''"
proof -
  have "path_unescaped (hex_digit_upper n)" for n
  proof -
    have "n mod 16 < 16" by simp
    then have "hex_digit_upper n \<in> set ''0123456789ABCDEF''"
      unfolding hex_digit_upper_def by (intro nth_mem) simp
    then show ?thesis by (auto simp: path_unescaped_def less_eq_char_def)
  qed
  then show "c \<in> set (path_escape s) \<Longrightarrow> path_unescaped c \<or> c = CHR ''%''"
    by (auto simp: path_escape_def escape_char_def split: if_splits)
qed

lemma path_escape_no_slash: "CHR ''/'' \<notin> set (path_escape s)"
  using path_escape_chars [of "CHR ''/''" s] by (auto simp: path_unescaped_def less_eq_char_def)

subsubsection \<open>Numbers, digests and paths as text\<close>

definition hex_digit :: "nat \<Rightarrow> char" where
  "hex_digit n = ''0123456789abcdef'' ! (n mod 16)"

definition hex_encode :: "string \<Rightarrow> string" where
  "hex_encode bs = concat (map (\<lambda>b. [hex_digit (of_char b div 16), hex_digit (of_char b)]) bs)"

fun nat_text :: "nat \<Rightarrow> string" where
  "nat_text n = (if n < 10 then [char_of (48 + n)] else nat_text (n div 10) @ [char_of (48 + n mod 10)])"

declare nat_text.simps [simp del]

definition itoa :: "int \<Rightarrow> string" where
  "itoa i = (if i < 0 then CHR ''-'' # nat_text (nat (- i)) else nat_text (nat i))"

lemma itoa_65532: "itoa 65532 = ''65532''"
  by (simp add: itoa_def nat_text.simps char_of_def bit_Suc_0_iff)

definition filepath_base :: "string \<Rightarrow> string" where
  "filepath_base p =
     (if p = [] then ''.''
      else let q = rev (dropWhile (\<lambda>c. c = CHR ''/'') (rev p));
               b = rev (takeWhile (\<lambda>c. c \<noteq> CHR ''/'') (rev q))
           in if b = [] then ''/'' else b)"

lemma hex_digit_inj: "m < 16 \<Longrightarrow> n < 16 \<Longrightarrow> hex_digit m = hex_digit n \<longleftrightarrow> m = n"
proof -
  have "distinct ''0123456789abcdef''" by simp
  moreover assume "m < 16" "n < 16"
  ultimately show ?thesis
    unfolding hex_digit_def by (subst nth_eq_iff_index_eq) auto
qed

lemma hex_digit_mem: "hex_digit n \<in> set ''0123456789abcdef''"
  unfolding hex_digit_def by (rule nth_mem) simp

lemma hex_byte_inj:
  assumes "hex_digit (of_char b div 16) = hex_digit (of_char c div 16)"
    and "hex_digit (of_char b) = hex_digit (of_char c)"
  shows "b = c"
proof -
  let ?b = "of_char b :: nat" and ?c = "of_char c :: nat"
  have "?b < 256" "?c < 256" by (simp_all add: nat_of_char_less_256)
  moreover have "hex_digit (?b mod 16) = hex_digit (?c mod 16)" using assms(2) by (simp add: hex_digit_def)
  ultimately have "?b div 16 = ?c div 16" "?b mod 16 = ?c mod 16"
    using assms(1) by (simp_all add: hex_digit_inj less_mult_imp_div_less)
  then have "?b = ?c" by (metis div_mult_mod_eq)
  then show ?thesis by simp
qed

lemma hex_encode_inj: "hex_encode s = hex_encode t \<longleftrightarrow> s = t"
proof
  show "hex_encode s = hex_encode t \<Longrightarrow> s = t"
    by (induction s t rule: list_induct2') (auto simp: hex_encode_def dest: hex_byte_inj)
qed simp

lemma hex_encode_length [simp]: "length (hex_encode s) = 2 * length s"
  by (induction s) (simp_all add: hex_encode_def)

lemma hex_encode_chars: "set (hex_encode s) \<subseteq> set ''0123456789abcdef''"
  using hex_digit_mem by (auto simp: hex_encode_def)

end
