(* ===== verification/Sha256.thy ===== *)
theory Sha256
  imports Prelude "HOL-Library.Word"
begin

text \<open>
  SHA-256 (FIPS 180-4), which \<^verbatim>\<open>crypto/sha256.Sum256\<close> computes and the operator names its agents,
  recognises its tokens and compares server roots by. Words are 32 bits wide and additions wrap; bytes
  are characters. The message length the padding carries is 64 bits, as in the standard.
\<close>

unbundle bit_operations_syntax

type_synonym u32 = "32 word"

text \<open>The first 32 bits of the fractional parts of the cube roots of the first 64 primes.\<close>

definition round_constants :: "u32 list" where
  "round_constants =
     [1116352408, 1899447441, 3049323471, 3921009573, 961987163, 1508970993,
      2453635748, 2870763221, 3624381080, 310598401, 607225278, 1426881987,
      1925078388, 2162078206, 2614888103, 3248222580, 3835390401, 4022224774,
      264347078, 604807628, 770255983, 1249150122, 1555081692, 1996064986,
      2554220882, 2821834349, 2952996808, 3210313671, 3336571891, 3584528711,
      113926993, 338241895, 666307205, 773529912, 1294757372, 1396182291,
      1695183700, 1986661051, 2177026350, 2456956037, 2730485921, 2820302411,
      3259730800, 3345764771, 3516065817, 3600352804, 4094571909, 275423344,
      430227734, 506948616, 659060556, 883997877, 958139571, 1322822218,
      1537002063, 1747873779, 1955562222, 2024104815, 2227730452, 2361852424,
      2428436474, 2756734187, 3204031479, 3329325298]"

record digest_state =
  sh_a :: u32
  sh_b :: u32
  sh_c :: u32
  sh_d :: u32
  sh_e :: u32
  sh_f :: u32
  sh_g :: u32
  sh_h :: u32

text \<open>And of the square roots of the first eight.\<close>

definition initial_state :: digest_state where
  "initial_state =
     \<lparr>sh_a = 1779033703, sh_b = 3144134277, sh_c = 1013904242, sh_d = 2773480762,
      sh_e = 1359893119, sh_f = 2600822924, sh_g = 528734635, sh_h = 1541459225\<rparr>"

definition rotr :: "nat \<Rightarrow> u32 \<Rightarrow> u32" where
  "rotr n w = drop_bit n w OR push_bit (32 - n) w"

definition small_sigma0 :: "u32 \<Rightarrow> u32" where
  "small_sigma0 w = rotr 7 w XOR rotr 18 w XOR drop_bit 3 w"

definition small_sigma1 :: "u32 \<Rightarrow> u32" where
  "small_sigma1 w = rotr 17 w XOR rotr 19 w XOR drop_bit 10 w"

definition big_sigma0 :: "u32 \<Rightarrow> u32" where
  "big_sigma0 w = rotr 2 w XOR rotr 13 w XOR rotr 22 w"

definition big_sigma1 :: "u32 \<Rightarrow> u32" where
  "big_sigma1 w = rotr 6 w XOR rotr 11 w XOR rotr 25 w"

definition select_bits :: "u32 \<Rightarrow> u32 \<Rightarrow> u32 \<Rightarrow> u32" where
  "select_bits x y z = (x AND y) XOR (NOT x AND z)"

definition majority :: "u32 \<Rightarrow> u32 \<Rightarrow> u32 \<Rightarrow> u32" where
  "majority x y z = (x AND y) XOR (x AND z) XOR (y AND z)"

text \<open>The message schedule: the window of the last sixteen words, and the words it still yields.\<close>

fun schedule_words :: "nat \<Rightarrow> u32 list \<Rightarrow> u32 list" where
  "schedule_words 0 ws = []"
| "schedule_words (Suc n) ws =
     (let w = small_sigma1 (ws ! 14) + ws ! 9 + small_sigma0 (ws ! 1) + ws ! 0
      in w # schedule_words n (tl ws @ [w]))"

definition one_round :: "digest_state \<Rightarrow> u32 \<times> u32 \<Rightarrow> digest_state" where
  "one_round s kw =
     (let t1 = sh_h s + big_sigma1 (sh_e s) + select_bits (sh_e s) (sh_f s) (sh_g s) + fst kw + snd kw;
          t2 = big_sigma0 (sh_a s) + majority (sh_a s) (sh_b s) (sh_c s)
      in \<lparr>sh_a = t1 + t2, sh_b = sh_a s, sh_c = sh_b s, sh_d = sh_c s,
          sh_e = sh_d s + t1, sh_f = sh_e s, sh_g = sh_f s, sh_h = sh_g s\<rparr>)"

definition compress :: "digest_state \<Rightarrow> u32 list \<Rightarrow> digest_state" where
  "compress s block =
     (let t = foldl one_round s (zip round_constants (block @ schedule_words 48 block))
      in \<lparr>sh_a = sh_a s + sh_a t, sh_b = sh_b s + sh_b t, sh_c = sh_c s + sh_c t, sh_d = sh_d s + sh_d t,
          sh_e = sh_e s + sh_e t, sh_f = sh_f s + sh_f t, sh_g = sh_g s + sh_g t, sh_h = sh_h s + sh_h t\<rparr>)"

subsection \<open>Padding and blocks\<close>

definition be_bytes :: "nat \<Rightarrow> int \<Rightarrow> string" where
  "be_bytes n v = map (\<lambda>i. char_of (v div 256 ^ i)) (rev [0..<n])"

definition pad_zeros :: "nat \<Rightarrow> nat" where
  "pad_zeros n = (55 + 63 * n) mod 64"

definition padded :: "string \<Rightarrow> string" where
  "padded s = s @ [CHR 0x80] @ replicate (pad_zeros (length s)) (CHR 0x00) @ be_bytes 8 (8 * int (length s) mod 2 ^ 64)"

fun words_of :: "string \<Rightarrow> u32 list" where
  "words_of (a # b # c # d # s) =
     word_of_int (of_char a * 2 ^ 24 + of_char b * 2 ^ 16 + of_char c * 2 ^ 8 + of_char d) # words_of s"
| "words_of s = []"

fun blocks_of :: "nat \<Rightarrow> u32 list \<Rightarrow> u32 list list" where
  "blocks_of 0 ws = []"
| "blocks_of (Suc n) ws = take 16 ws # blocks_of n (drop 16 ws)"

definition state_bytes :: "digest_state \<Rightarrow> string" where
  "state_bytes s =
     concat (map (\<lambda>w. be_bytes 4 (uint w)) [sh_a s, sh_b s, sh_c s, sh_d s, sh_e s, sh_f s, sh_g s, sh_h s])"

definition sha256 :: "string \<Rightarrow> string" where
  "sha256 s =
     (let ws = words_of (padded s) in state_bytes (foldl compress initial_state (blocks_of (length ws div 16) ws)))"

lemma length_be_bytes [simp]: "length (be_bytes n v) = n"
  by (simp add: be_bytes_def)

lemma length_sha256 [simp]: "length (sha256 s) = 32"
  by (simp add: sha256_def Let_def state_bytes_def)

lemma padded_blocks: "64 dvd length (padded s)"
proof -
  have "(n + 9 + (55 + 63 * n) mod 64) mod 64 = 0" for n :: nat
  proof -
    have "(n + 9 + (55 + 63 * n) mod 64) mod 64 = (n + 9 + (55 + 63 * n)) mod 64" by (rule mod_add_right_eq)
    also have "n + 9 + (55 + 63 * n) = 64 * (n + 1)" by simp
    finally show ?thesis by simp
  qed
  from this [of "length s"] show ?thesis
    by (simp add: padded_def pad_zeros_def dvd_eq_mod_eq_0 add.assoc)
qed

end
