(* ===== verification/Garam_Types.thy ===== *)
theory Garam_Types
  imports Prelude
begin

text \<open>
  The data of package \<^verbatim>\<open>garam\<close> (\<^verbatim>\<open>src/internal/garam/garam.go\<close>): what garam answers, what this
  operator holds, and the errors the two are told apart by. A Go error is a value of the datatype
  \<open>error\<close>: the six sentinels of the package, a refusal garam answered, an error of Kubernetes'
  API, an error of the operating system, and the wrapping \<^verbatim>\<open>fmt.Errorf\<close> does with the verb
  \<^verbatim>\<open>%w\<close>. \<open>errors_Is\<close> and \<open>errors_As_refusal\<close> walk the chain the way \<^verbatim>\<open>errors.Is\<close> and
  \<^verbatim>\<open>errors.As\<close> do. An \<^verbatim>\<open>int64\<close> is an \<open>int\<close>: no operation of the program computes with one,
  and the decoder refuses a number outside the width. A \<^verbatim>\<open>time.Time\<close> is the number of
  nanoseconds since the zero time.
\<close>

type_synonym GRN = string
type_synonym time = int

definition IsZero :: "time \<Rightarrow> bool" where
  "IsZero t \<longleftrightarrow> t = 0"

record ToolSet =
  Pins :: "(string, string) gomap"

record Claim =
  claim_Epoch :: int

record Definition =
  def_Agent :: GRN
  def_Tools :: ToolSet
  def_Ignored :: "string list"
  def_Claim :: "Claim option"

record Assignment =
  asg_Agent :: GRN
  asg_Operator :: GRN
  asg_Epoch :: int

record AgentCredential =
  ac_CertificatePEM :: string
  ac_KeyPEM :: string
  ac_IssuerPEM :: string
  ac_ServerRootPEM :: string
  ac_NotAfter :: time

record Credential =
  cr_CertificatePEM :: string
  cr_KeyPEM :: string

record CertificateRequest =
  req_RequestPEM :: string
  req_KeyPEM :: string

record EnrolledCertificate =
  enr_Operator :: GRN
  enr_CertificatePEM :: string
  enr_ServerRootPEM :: string
  enr_NotAfter :: time

subsection \<open>What a report carries\<close>

type_synonym ProvisioningState = string

definition StateProvisioned :: ProvisioningState where
  "StateProvisioned = ''provisioned''"

definition StateReady :: ProvisioningState where
  "StateReady = ''ready''"

type_synonym Readiness = int

definition ReadinessUnobserved :: Readiness where
  "ReadinessUnobserved = 0"

definition ReadinessNoReplica :: Readiness where
  "ReadinessNoReplica = 1"

definition ReadinessReplicaReady :: Readiness where
  "ReadinessReplicaReady = 2"

lemmas readiness_defs = ReadinessUnobserved_def ReadinessNoReplica_def ReadinessReplicaReady_def

record Observation =
  obs_Agent :: GRN
  obs_Epoch :: int
  obs_Readiness :: Readiness

subsection \<open>Errors\<close>

text \<open>A status garam answered instead of the resource asked for (\<^verbatim>\<open>client.go\<close>).\<close>

record refusal =
  ref_status :: int
  ref_kind :: string
  ref_message :: string

datatype StatusReason = NotFound | AlreadyExists | OtherReason string

datatype error =
    ErrAgentNotHeld
  | ErrClaimConflict
  | ErrReportStale
  | ErrRenewalTooEarly
  | ErrCredentialSuperseded
  | ErrTokenNotUsable
  | Refused refusal
  | ApiStatus StatusReason string
  | ErrNotExist string
  | Foreign string
  | New string
  | Wrapped string error

fun errors_Is :: "error \<Rightarrow> error \<Rightarrow> bool" where
  "errors_Is (Wrapped m e) target \<longleftrightarrow> Wrapped m e = target \<or> errors_Is e target"
| "errors_Is e target \<longleftrightarrow> e = target"

fun errors_As_refusal :: "error \<Rightarrow> refusal option" where
  "errors_As_refusal (Wrapped m e) = errors_As_refusal e"
| "errors_As_refusal (Refused r) = Some r"
| "errors_As_refusal e = None"

text \<open>\<^verbatim>\<open>apierrors.IsNotFound\<close> and \<^verbatim>\<open>IsAlreadyExists\<close> read the reason of a wrapped status error.\<close>

fun reason_for_error :: "error \<Rightarrow> StatusReason option" where
  "reason_for_error (Wrapped m e) = reason_for_error e"
| "reason_for_error (ApiStatus r m) = Some r"
| "reason_for_error e = None"

definition IsNotFound :: "error \<Rightarrow> bool" where
  "IsNotFound e \<longleftrightarrow> reason_for_error e = Some NotFound"

definition IsAlreadyExists :: "error \<Rightarrow> bool" where
  "IsAlreadyExists e \<longleftrightarrow> reason_for_error e = Some AlreadyExists"

fun is_not_exist :: "error \<Rightarrow> bool" where
  "is_not_exist (Wrapped m e) = is_not_exist e"
| "is_not_exist (ErrNotExist m) = True"
| "is_not_exist e = False"

text \<open>The text an error prints.\<close>

definition refusal_Error :: "refusal \<Rightarrow> string" where
  "refusal_Error r =
     (if ref_kind r = [] then ''garam answered '' @ itoa (ref_status r)
      else ''garam answered '' @ itoa (ref_status r) @ '' '' @ ref_kind r @ '': '' @ ref_message r)"

definition ErrAgentNotHeld_text :: string where
  "ErrAgentNotHeld_text = ''garam holds this agent for another operator, or holds no such agent''"

definition ErrClaimConflict_text :: string where
  "ErrClaimConflict_text = ''garam holds a claim on this agent already''"

definition ErrReportStale_text :: string where
  "ErrReportStale_text = ''garam holds this agent at an epoch later than the one reported''"

definition ErrRenewalTooEarly_text :: string where
  "ErrRenewalTooEarly_text = ''garam admits no renewal of this certificate yet''"

definition ErrCredentialSuperseded_text :: string where
  "ErrCredentialSuperseded_text = ''garam has issued a newer certificate for this operator already''"

definition ErrTokenNotUsable_text :: string where
  "ErrTokenNotUsable_text = ''garam admits no enrollment with this token: register again''"

fun error_text :: "error \<Rightarrow> string" where
  "error_text ErrAgentNotHeld = ErrAgentNotHeld_text"
| "error_text ErrClaimConflict = ErrClaimConflict_text"
| "error_text ErrReportStale = ErrReportStale_text"
| "error_text ErrRenewalTooEarly = ErrRenewalTooEarly_text"
| "error_text ErrCredentialSuperseded = ErrCredentialSuperseded_text"
| "error_text ErrTokenNotUsable = ErrTokenNotUsable_text"
| "error_text (Refused r) = refusal_Error r"
| "error_text (ApiStatus r m) = m"
| "error_text (ErrNotExist m) = m"
| "error_text (Foreign m) = m"
| "error_text (New m) = m"
| "error_text (Wrapped m e) = m @ '': '' @ error_text e"

text \<open>
  The errors the world outside the package can answer: none is one of its sentinels or a refusal,
  because both are values only the package makes.
\<close>

fun outside_error :: "error \<Rightarrow> bool" where
  "outside_error (ApiStatus r m) = True"
| "outside_error (ErrNotExist m) = True"
| "outside_error (Foreign m) = True"
| "outside_error (Wrapped m e) = outside_error e"
| "outside_error e = False"

lemma outside_error_no_refusal: "outside_error e \<Longrightarrow> errors_As_refusal e = None"
  by (induction e) auto

lemma outside_error_no_sentinel:
  "outside_error e \<Longrightarrow> errors_Is e s \<Longrightarrow> outside_error s"
  by (induction e) auto

text \<open>The sentinels, and that finding one is finding it at the root of the chain.\<close>

definition sentinels :: "error list" where
  "sentinels = [ErrAgentNotHeld, ErrClaimConflict, ErrReportStale, ErrRenewalTooEarly,
     ErrCredentialSuperseded, ErrTokenNotUsable]"

fun root_cause :: "error \<Rightarrow> error" where
  "root_cause (Wrapped m e) = root_cause e"
| "root_cause e = e"

lemma errors_Is_sentinel:
  "s \<in> set sentinels \<Longrightarrow> errors_Is e s \<longleftrightarrow> root_cause e = s"
  by (induction e) (auto simp: sentinels_def)

end
