(* ===== verification/Json.thy ===== *)
theory Json
  imports Garam_Types
begin

text \<open>
  JSON as \<^verbatim>\<open>encoding/json\<close> reads and writes it. A document is its value tree; a body that is no
  JSON document is \<open>NotJson\<close>. What is modelled of \<^verbatim>\<open>json.Unmarshal\<close> is what the struct tags of
  \<^verbatim>\<open>client.go\<close> make it do: members are matched to fields by name with case folded, later members
  win, \<^verbatim>\<open>null\<close> leaves a scalar as it was, an unknown member is ignored, and a member of another
  type is an error. A \<^verbatim>\<open>[]byte\<close> is written in base64.
\<close>

datatype json =
    JNull
  | JBool bool
  | JInt int
  | JNumber string
  | JStr string
  | JArr "json list"
  | JObj "(string \<times> json) list"

datatype body = NotJson string | Document json

subsection \<open>Field names\<close>

definition to_lower :: "char \<Rightarrow> char" where
  "to_lower c = (if CHR ''A'' \<le> c \<and> c \<le> CHR ''Z'' then char_of (of_char c + 32 :: nat) else c)"

text \<open>
  Case folding as the decoder does it: the Kelvin sign and the long s are the only characters
  outside ASCII that fold onto ASCII letters.
\<close>

fun fold_name :: "string \<Rightarrow> string" where
  "fold_name [] = []"
| "fold_name [a] = [to_lower a]"
| "fold_name [a, b] =
     (if a = CHR 0xC5 \<and> b = CHR 0xBF then ''s'' else to_lower a # fold_name [b])"
| "fold_name (a # b # c # s) =
     (if a = CHR 0xE2 \<and> b = CHR 0x84 \<and> c = CHR 0xAA then CHR ''k'' # fold_name s
      else if a = CHR 0xC5 \<and> b = CHR 0xBF then CHR ''s'' # fold_name (c # s)
      else to_lower a # fold_name (b # c # s))"

definition names_field :: "string \<Rightarrow> string \<Rightarrow> bool" where
  "names_field k f \<longleftrightarrow> fold_name k = fold_name f"

text \<open>The members of an object that set a field, in the order they are read.\<close>

definition members :: "string \<Rightarrow> (string \<times> json) list \<Rightarrow> json list" where
  "members f kvs = map snd (filter (\<lambda>(k, v). names_field k f) kvs)"

subsection \<open>Decoding into a field\<close>

definition unmarshal_type_error :: error where
  "unmarshal_type_error = Foreign ''json: cannot unmarshal into Go value''"

text \<open>One value into a field holding \<open>old\<close>, for each type a payload has a field of.\<close>

fun dec_string :: "string \<Rightarrow> json \<Rightarrow> error + string" where
  "dec_string old JNull = Inr old"
| "dec_string old (JStr s) = Inr s"
| "dec_string old v = Inl unmarshal_type_error"

fun dec_int64 :: "int \<Rightarrow> json \<Rightarrow> error + int" where
  "dec_int64 old JNull = Inr old"
| "dec_int64 old (JInt i) =
     (if - (2 ^ 63) \<le> i \<and> i < 2 ^ 63 then Inr i else Inl unmarshal_type_error)"
| "dec_int64 old v = Inl unmarshal_type_error"

fun dec_time :: "(string \<Rightarrow> error + time) \<Rightarrow> time \<Rightarrow> json \<Rightarrow> error + time" where
  "dec_time parse old JNull = Inr old"
| "dec_time parse old (JStr s) = parse s"
| "dec_time parse old v = Inl unmarshal_type_error"

fun dec_entries ::
  "(string, string) gomap \<Rightarrow> (string \<times> json) list \<Rightarrow> error + (string, string) gomap" where
  "dec_entries m [] = Inr m"
| "dec_entries m ((k, v) # kvs) =
     (case dec_string [] v of Inl e \<Rightarrow> Inl e | Inr s \<Rightarrow> dec_entries (map_put k s m) kvs)"

fun dec_string_map :: "(string, string) gomap \<Rightarrow> json \<Rightarrow> error + (string, string) gomap" where
  "dec_string_map old JNull = Inr []"
| "dec_string_map old (JObj kvs) = dec_entries old kvs"
| "dec_string_map old v = Inl unmarshal_type_error"

text \<open>All the members that set a field, in order, from the field's zero value.\<close>

fun dec_field :: "('a \<Rightarrow> json \<Rightarrow> error + 'a) \<Rightarrow> 'a \<Rightarrow> json list \<Rightarrow> error + 'a" where
  "dec_field dec old [] = Inr old"
| "dec_field dec old (v # vs) = (case dec old v of Inl e \<Rightarrow> Inl e | Inr x \<Rightarrow> dec_field dec x vs)"

text \<open>A slice: each element from its zero value; \<^verbatim>\<open>null\<close> is the nil slice.\<close>

fun dec_elements :: "(json \<Rightarrow> error + 'a) \<Rightarrow> json list \<Rightarrow> error + 'a list" where
  "dec_elements dec [] = Inr []"
| "dec_elements dec (v # vs) =
     (case dec v of Inl e \<Rightarrow> Inl e
      | Inr x \<Rightarrow> (case dec_elements dec vs of Inl e \<Rightarrow> Inl e | Inr xs \<Rightarrow> Inr (x # xs)))"

fun dec_slice :: "(json \<Rightarrow> error + 'a) \<Rightarrow> json \<Rightarrow> error + 'a list" where
  "dec_slice dec JNull = Inr []"
| "dec_slice dec (JArr vs) = dec_elements dec vs"
| "dec_slice dec v = Inl unmarshal_type_error"

lemma dec_entries_wf: "gomap_wf m \<Longrightarrow> dec_entries m kvs = Inr m' \<Longrightarrow> gomap_wf m'"
  by (induction m kvs rule: dec_entries.induct) (auto simp: map_put_wf split: sum.splits)

lemma dec_string_map_wf: "gomap_wf m \<Longrightarrow> dec_string_map m v = Inr m' \<Longrightarrow> gomap_wf m'"
  by (cases v) (auto dest: dec_entries_wf)

lemma dec_field_invariant:
  assumes "P x" and "\<And>x v y. P x \<Longrightarrow> dec x v = Inr y \<Longrightarrow> P y" and "dec_field dec x vs = Inr y"
  shows "P y"
  using assms(1,3) by (induction vs arbitrary: x) (auto split: sum.splits dest: assms(2))

lemma dec_int64_range:
  "dec_int64 old v = Inr i \<Longrightarrow> - (2 ^ 63) \<le> old \<and> old < 2 ^ 63 \<Longrightarrow> - (2 ^ 63) \<le> i \<and> i < 2 ^ 63"
  by (cases v) (auto split: if_splits)

subsection \<open>Base64\<close>

definition b64_alphabet :: string where
  "b64_alphabet = ''ABCDEFGHIJKLMNOPQRSTUVWXYZabcdefghijklmnopqrstuvwxyz0123456789+/''"

definition b64_digit :: "nat \<Rightarrow> char" where
  "b64_digit n = b64_alphabet ! (n mod 64)"

fun base64_encode :: "string \<Rightarrow> string" where
  "base64_encode [] = []"
| "base64_encode [a] =
     (let n = of_char a * 65536 in
      [b64_digit (n div 262144), b64_digit (n div 4096), CHR ''='', CHR ''=''])"
| "base64_encode [a, b] =
     (let n = of_char a * 65536 + of_char b * 256 in
      [b64_digit (n div 262144), b64_digit (n div 4096), b64_digit (n div 64), CHR ''=''])"
| "base64_encode (a # b # c # s) =
     (let n = of_char a * 65536 + of_char b * 256 + of_char c in
      [b64_digit (n div 262144), b64_digit (n div 4096), b64_digit (n div 64), b64_digit n]
      @ base64_encode s)"

text \<open>A \<^verbatim>\<open>map[string][]byte\<close> as JSON: its entries in key order, each value in base64.\<close>

definition json_of_data :: "(string, string) gomap \<Rightarrow> json" where
  "json_of_data m = JObj (map (\<lambda>(k, v). (k, JStr (base64_encode v))) m)"

text \<open>The reading of base64 the API server does on the other end, as a specification.\<close>

fun index_of :: "'a \<Rightarrow> 'a list \<Rightarrow> nat" where
  "index_of x [] = 0"
| "index_of x (y # ys) = (if x = y then 0 else Suc (index_of x ys))"

definition b64_value :: "char \<Rightarrow> nat" where
  "b64_value c = index_of c b64_alphabet"

fun base64_decode :: "string \<Rightarrow> string option" where
  "base64_decode [] = Some []"
| "base64_decode (p # q # r # s # t) =
     (let w = b64_value p * 262144 + b64_value q * 4096 in
      if r = CHR ''='' then Some [char_of (w div 65536)]
      else if s = CHR ''='' then
        (let n = w + b64_value r * 64 in Some [char_of (n div 65536), char_of (n div 256)])
      else
        (let n = w + b64_value r * 64 + b64_value s in
         map_option (\<lambda>u. char_of (n div 65536) # char_of (n div 256) # char_of n # u) (base64_decode t)))"
| "base64_decode s = None"

lemma index_of_nth: "distinct xs \<Longrightarrow> i < length xs \<Longrightarrow> index_of (xs ! i) xs = i"
proof (induction xs arbitrary: i)
  case (Cons x xs)
  then show ?case by (cases i) auto
qed simp

lemma b64_alphabet_distinct: "distinct b64_alphabet" "length b64_alphabet = 64"
  unfolding b64_alphabet_def by code_simp+

lemma b64_value_digit: "b64_value (b64_digit n) = n mod 64"
  by (simp add: b64_value_def b64_digit_def index_of_nth b64_alphabet_distinct)

lemma b64_digit_not_pad: "b64_digit n \<noteq> CHR ''=''"
proof
  assume "b64_digit n = CHR ''=''"
  moreover have "b64_digit n \<in> set b64_alphabet"
    unfolding b64_digit_def by (rule nth_mem) (simp add: b64_alphabet_distinct)
  ultimately show False by (simp add: b64_alphabet_def)
qed

lemma char_of_byte: "(m::nat) mod 256 = of_char c \<Longrightarrow> char_of m = c"
  by (metis char_of_mod_256 char_of_char)

lemma four_digits:
  fixes n :: nat
  assumes "n < 16777216"
  shows "n div 262144 mod 64 * 262144 + n div 4096 mod 64 * 4096 + n div 64 mod 64 * 64 + n mod 64 = n"
proof -
  have "n div 262144 mod 64 = n div 262144" using assms by (simp add: less_mult_imp_div_less)
  moreover have "n div 4096 = n div 262144 * 64 + n div 4096 mod 64"
    using div_mult_mod_eq [of "n div 4096" 64] by (simp add: div_mult2_eq [symmetric])
  moreover have "n div 64 = n div 4096 * 64 + n div 64 mod 64"
    using div_mult_mod_eq [of "n div 64" 64] by (simp add: div_mult2_eq [symmetric])
  moreover have "n = n div 64 * 64 + n mod 64" by simp
  ultimately show ?thesis by linarith
qed

lemma three_bytes:
  fixes a b c :: nat
  assumes "a < 256" "b < 256" "c < 256"
  shows "(a * 65536 + b * 256 + c) div 65536 mod 256 = a" "(a * 65536 + b * 256 + c) div 256 mod 256 = b"
    "(a * 65536 + b * 256 + c) mod 256 = c"
proof -
  let ?n = "a * 65536 + b * 256 + c"
  have n: "?n = c + (a * 256 + b) * 256" by simp
  show "?n mod 256 = c" unfolding n using assms(3) by (simp only: mod_mult_self1 mod_less)
  have q: "?n div 256 = b + a * 256" unfolding n using assms(3) by (subst div_mult_self1) simp_all
  show "?n div 256 mod 256 = b" unfolding q using assms(2) by (simp only: mod_mult_self1 mod_less)
  have "?n div 65536 = ?n div 256 div 256" by (simp only: div_mult2_eq [symmetric]) simp
  also have "\<dots> = a" unfolding q using assms(2) by (subst div_mult_self1) simp_all
  finally show "?n div 65536 mod 256 = a" using assms(1) by simp
qed

lemma base64_roundtrip: "base64_decode (base64_encode s) = Some s"
proof (induction s rule: base64_encode.induct)
  case (2 a)
  let ?n = "of_char a * 65536 :: nat"
  have a: "of_char a < (256::nat)" by (simp add: nat_of_char_less_256)
  have "?n div 64 mod 64 = 0" "?n mod 64 = 0" by simp_all
  moreover have "?n < 16777216" using a by simp
  ultimately have "?n div 262144 mod 64 * 262144 + ?n div 4096 mod 64 * 4096 = ?n"
    using four_digits by (metis add_0_right mult_0)
  moreover have "?n div 65536 mod 256 = of_char a" using a by simp
  ultimately show ?case
    using char_of_byte [of "?n div 65536" a]
    unfolding base64_encode.simps base64_decode.simps Let_def b64_value_digit
    by (simp only: if_True simp_thms)
next
  case (3 a b)
  let ?n = "of_char a * 65536 + of_char b * 256 :: nat"
  have ab: "of_char a < (256::nat)" "of_char b < (256::nat)" by (simp_all add: nat_of_char_less_256)
  have "?n mod 64 = 0" by simp
  moreover have "?n < 16777216" using ab by linarith
  ultimately have "?n div 262144 mod 64 * 262144 + ?n div 4096 mod 64 * 4096 + ?n div 64 mod 64 * 64 = ?n"
    using four_digits by (metis add_0_right)
  moreover have "?n div 65536 mod 256 = of_char a" "?n div 256 mod 256 = of_char b"
    using three_bytes [OF ab, of 0] by simp_all
  ultimately show ?case
    using char_of_byte [of "?n div 65536" a] char_of_byte [of "?n div 256" b]
    unfolding base64_encode.simps base64_decode.simps Let_def b64_value_digit
    by (simp only: b64_digit_not_pad if_False if_True simp_thms)
next
  case (4 a b c s)
  let ?n = "of_char a * 65536 + of_char b * 256 + of_char c :: nat"
  have ab: "of_char a < (256::nat)" "of_char b < (256::nat)" "of_char c < (256::nat)"
    by (simp_all add: nat_of_char_less_256)
  then have "?n < 16777216" by linarith
  note n = four_digits [OF this]
  show ?case
    using n 4 three_bytes [OF ab] char_of_byte [of "?n div 65536" a] char_of_byte [of "?n div 256" b] char_of_byte [of ?n c]
    unfolding base64_encode.simps base64_decode.simps Let_def b64_value_digit append_Cons append_Nil
    by (simp only: b64_digit_not_pad if_False if_True simp_thms option.map)
qed simp

end
