(* ===== verification/Pem.thy ===== *)
theory Pem
  imports Json
begin

text \<open>
  The armour \<^verbatim>\<open>pem.EncodeToMemory\<close> puts around a block with no headers (RFC 7468): a line naming the
  type, the base64 text in lines of 64 characters, and a line that ends it. Reading one back is left to
  the library: which text outside a block is skipped is its own to decide, and no theorem here needs
  more of it than that a block found takes bytes off the rest.
\<close>

record pem_block =
  pb_Type :: string
  pb_Bytes :: string

definition newline :: char where
  "newline = CHR 0x0A"

fun pem_lines :: "string \<Rightarrow> string" where
  "pem_lines [] = []"
| "pem_lines (c # cs) = take 64 (c # cs) @ newline # pem_lines (drop 64 (c # cs))"

definition pemEncode :: "pem_block \<Rightarrow> string" where
  "pemEncode b =
     ''-----BEGIN '' @ pb_Type b @ ''-----'' @ newline # pem_lines (base64_encode (pb_Bytes b))
     @ ''-----END '' @ pb_Type b @ ''-----'' @ [newline]"

lemma pemEncode_nonempty [simp]: "pemEncode b \<noteq> []"
  by (simp add: pemEncode_def)

text \<open>The lines put together are the base64 text again.\<close>

lemma pem_lines_text: "newline \<notin> set s \<Longrightarrow> filter (\<lambda>c. c \<noteq> newline) (pem_lines s) = s"
proof (induction s rule: pem_lines.induct)
  case (2 c cs)
  have "newline \<notin> set (take 64 (c # cs))" "newline \<notin> set (drop 64 (c # cs))"
    using "2.prems" by (auto dest: in_set_takeD in_set_dropD)
  then have "filter (\<lambda>x. x \<noteq> newline) (take 64 (c # cs)) = take 64 (c # cs)"
    by (intro filter_True) auto
  with "2.IH" \<open>newline \<notin> set (drop 64 (c # cs))\<close> show ?case
    unfolding pem_lines.simps filter_append by (simp del: take_Cons_numeral drop_Cons_numeral)
qed simp

end
