(* ===== verification/Api_Types.thy ===== *)
theory Api_Types
  imports Garam_Types
begin

text \<open>
  The objects of the cluster: the \<^verbatim>\<open>Agent\<close> resource (\<^verbatim>\<open>src/api/v1alpha1/agent_types.go\<close>) with
  its conditions and reasons, and of the Kubernetes types the fields this operator reads or
  writes. A field named \<open>other\<close> stands for everything of a Kubernetes type that no code of this
  repository names: defaults the API server filled in, fields another controller set. It is
  carried, so that a theorem can say it was left alone.
\<close>

type_synonym other = "(string \<times> string) list"

text \<open>A quantity is its text; how two compare is the library's.\<close>

datatype quantity = Quantity string

definition zero_quantity :: quantity where
  "zero_quantity = Quantity ''0''"

type_synonym object_key = "string \<times> string" \<comment> \<open>namespace and name\<close>

record OwnerReference =
  or_Kind :: string
  or_Name :: string
  or_UID :: string
  or_Controller :: bool

record ObjectMeta =
  om_Name :: string
  om_Namespace :: string
  om_UID :: string
  om_Generation :: int
  om_CreationTimestamp :: time
  om_Labels :: "(string, string) gomap"
  om_OwnerReferences :: "OwnerReference list"
  om_other :: other

definition object_meta :: "string \<Rightarrow> string \<Rightarrow> ObjectMeta" where
  "object_meta ns name =
     \<lparr>om_Name = name, om_Namespace = ns, om_UID = [], om_Generation = 0, om_CreationTimestamp = 0,
      om_Labels = [], om_OwnerReferences = [], om_other = []\<rparr>"

definition key_of :: "ObjectMeta \<Rightarrow> object_key" where
  "key_of m = (om_Namespace m, om_Name m)"

subsection \<open>The Agent resource\<close>

record AgentToolSet =
  ats_Pins :: "(string, string) gomap"

record AgentSpec =
  as_Image :: string
  as_CredentialsSecretName :: string
  as_StorageSize :: quantity
  as_StorageClassName :: "string option"
  as_Resources :: other
  as_Tools :: AgentToolSet

datatype ConditionStatus = ConditionTrue | ConditionFalse | ConditionUnknown | ConditionOther string

record Condition =
  cond_Type :: string
  cond_Status :: ConditionStatus
  cond_ObservedGeneration :: int
  cond_LastTransitionTime :: time
  cond_Reason :: string
  cond_Message :: string

record AgentStatus =
  st_Conditions :: "Condition list"
  st_ObservedGeneration :: int
  st_Agent :: string
  st_Epoch :: int

record Agent =
  ag_Meta :: ObjectMeta
  ag_Spec :: AgentSpec
  ag_Status :: AgentStatus

definition empty_status :: AgentStatus where
  "empty_status = \<lparr>st_Conditions = [], st_ObservedGeneration = 0, st_Agent = [], st_Epoch = 0\<rparr>"

definition ConditionSynced :: string where
  "ConditionSynced = ''Synced''"

definition ReasonWorkloadReconciled :: string where
  "ReasonWorkloadReconciled = ''WorkloadReconciled''"

definition ReasonCredentialsSecretMissing :: string where
  "ReasonCredentialsSecretMissing = ''CredentialsSecretMissing''"

definition ReasonStorageSizeImmutable :: string where
  "ReasonStorageSizeImmutable = ''StorageSizeImmutable''"

definition ConditionAvailable :: string where
  "ConditionAvailable = ''Available''"

definition ReasonReplicaReady :: string where
  "ReasonReplicaReady = ''ReplicaReady''"

definition ReasonReplicaNotReady :: string where
  "ReasonReplicaNotReady = ''ReplicaNotReady''"

definition ReasonWorkloadNotObserved :: string where
  "ReasonWorkloadNotObserved = ''WorkloadNotObserved''"

lemmas condition_constants =
  ConditionSynced_def ConditionAvailable_def ReasonWorkloadReconciled_def
  ReasonCredentialsSecretMissing_def ReasonStorageSizeImmutable_def ReasonReplicaReady_def
  ReasonReplicaNotReady_def ReasonWorkloadNotObserved_def

subsection \<open>The config file of an agent\<close>

record agentConfigTools =
  act_Pins :: "(string, string) gomap"

record agentConfig =
  acf_Tools :: agentConfigTools

subsection \<open>Secrets and workloads\<close>

record Secret =
  sec_Meta :: ObjectMeta
  sec_Data :: "(string, string) gomap"

record EnvVar =
  ev_Name :: string
  ev_Value :: string

record VolumeMount =
  vm_Name :: string
  vm_MountPath :: string
  vm_ReadOnly :: bool

record SecurityContext =
  sc_AllowPrivilegeEscalation :: "bool option"
  sc_CapabilitiesDrop :: "string list option"
  sc_other :: other

record Container =
  c_Name :: string
  c_Image :: string
  c_ImagePullPolicy :: string
  c_Command :: "string list"
  c_Env :: "EnvVar list"
  c_Resources :: other
  c_SecurityContext :: "SecurityContext option"
  c_VolumeMounts :: "VolumeMount list"
  c_other :: other

definition empty_container :: "string \<Rightarrow> Container" where
  "empty_container name =
     \<lparr>c_Name = name, c_Image = [], c_ImagePullPolicy = [], c_Command = [], c_Env = [],
      c_Resources = [], c_SecurityContext = None, c_VolumeMounts = [], c_other = []\<rparr>"

datatype VolumeSource =
    SecretSource string int
  | EmptyDirSource string "quantity option"
  | ImageSource string string
  | OtherSource string

record Volume =
  vol_Name :: string
  vol_Source :: VolumeSource

record PodSecurityContext =
  psc_FSGroup :: "int option"
  psc_RunAsUser :: "int option"
  psc_RunAsNonRoot :: "bool option"
  psc_SeccompProfile :: "string option"
  psc_other :: other

definition empty_pod_security :: PodSecurityContext where
  "empty_pod_security =
     \<lparr>psc_FSGroup = None, psc_RunAsUser = None, psc_RunAsNonRoot = None,
      psc_SeccompProfile = None, psc_other = []\<rparr>"

record PersistentVolumeClaim =
  pvc_Name :: string
  pvc_AccessModes :: "string list"
  pvc_Requests :: "(string, quantity) gomap"
  pvc_StorageClassName :: "string option"
  pvc_other :: other

record StatefulSet =
  ss_Meta :: ObjectMeta
  ss_Selector :: "(string, string) gomap option"
  ss_TemplateLabels :: "(string, string) gomap"
  ss_VolumeClaimTemplates :: "PersistentVolumeClaim list"
  ss_Replicas :: "int option"
  ss_PodSecurity :: "PodSecurityContext option"
  ss_Volumes :: "Volume list"
  ss_InitContainers :: "Container list"
  ss_Containers :: "Container list"
  ss_other :: other
  ss_ReadyReplicas :: int

definition empty_statefulset :: "ObjectMeta \<Rightarrow> StatefulSet" where
  "empty_statefulset m =
     \<lparr>ss_Meta = m, ss_Selector = None, ss_TemplateLabels = [], ss_VolumeClaimTemplates = [],
      ss_Replicas = None, ss_PodSecurity = None, ss_Volumes = [], ss_InitContainers = [],
      ss_Containers = [], ss_other = [], ss_ReadyReplicas = 0\<rparr>"

datatype OperationResult = OperationResultNone | OperationResultCreated | OperationResultUpdated

end
