(* ===== verification/World.thy ===== *)
theory World
  imports Sha256 Pem Api_Types
begin

text \<open>
  Everything outside this repository, as parameters of the model. The record \<open>lib\<close> holds the
  pure functions of the libraries the sources call (X.509, reading PEM, times, quantities, YAML,
  Kubernetes' condition and ownership helpers). The record \<open>env\<close> adds what answers a call:
  garam's listener, the API server, the file system, the clock, the key generator. Each of its
  functions takes the history of every call made so far, so an answer may depend on anything that
  happened before, another writer included; nothing is assumed of it unless a theorem says so.

  The state an operation runs over is that history: each call appends the event it is, with what
  was answered, and so does each log line. A theorem about what the operator sends, writes, reads
  and logs is a theorem about the events a run appends.
\<close>

subsection \<open>Events\<close>

record tls_config =
  tls_MinVersion :: nat
  tls_RootCAs :: "string list"
  tls_ClientCertificateFiles :: "(string \<times> string) option"
    \<comment> \<open>the files the \<^verbatim>\<open>GetClientCertificate\<close> callback loads at each handshake\<close>

record http_request =
  hr_TLS :: tls_config
  hr_Method :: string
  hr_URL :: string
  hr_ContentType :: "string option"
  hr_Body :: "json option"

record http_response =
  resp_Status :: int
  resp_Body :: "error + body"

record tls_certificate =
  tc_Leaf_NotAfter :: time

type_synonym ec_key = string
type_synonym csr = string

datatype log_level = LogError | LogInfo | LogDebug

datatype log_value = LvStr string | LvInt int | LvStrs "string list" | LvErr error | LvTime time

datatype event =
    Http http_request "error + http_response"
  | GetAgent object_key "error + Agent"
  | CreateAgent Agent "error + Agent"
  | PatchAgent object_key json "error + Agent"
  | PatchAgentStatus object_key json "error + Agent"
  | MergeAgentStatus Agent Agent "error + Agent"
  | ListAgents string "error + Agent list"
  | GetSecretMeta object_key "error + unit"
  | CreateSecret Secret "error + unit"
  | PatchSecret object_key json "error + unit"
  | CreateOrUpdate object_key "error + (OperationResult \<times> StatefulSet)"
  | ReadFile string "error + string"
  | TimeNow time
  | LoadX509KeyPair string string "error + tls_certificate"
  | GenerateKey "error + ec_key"
  | CreateCertificateRequest ec_key "error + string"
  | Log log_level string "(string \<times> log_value) list"

type_synonym history = "event list"

subsection \<open>The libraries and the answering world\<close>

record lib =
  pemDecode :: "string \<Rightarrow> (pem_block \<times> string) option"
  parseCertificateRequest :: "string \<Rightarrow> error + csr"
  csrCheckSignature :: "csr \<Rightarrow> error option"
  marshalPKCS8PrivateKey :: "ec_key \<Rightarrow> error + string"
  certsFromPEM :: "string \<Rightarrow> string list"
  parseTime :: "string \<Rightarrow> error + time"
  newRequestError :: "string \<Rightarrow> string \<Rightarrow> error option"
  quantityCmp :: "quantity \<Rightarrow> quantity \<Rightarrow> int"
  quantityString :: "quantity \<Rightarrow> string"
  newQuantityBinarySI :: "int \<Rightarrow> quantity"
  yamlMarshal :: "agentConfig \<Rightarrow> error + string"
  setControllerReference :: "ObjectMeta \<Rightarrow> ObjectMeta \<Rightarrow> error + ObjectMeta"
  findStatusCondition :: "Condition list \<Rightarrow> string \<Rightarrow> Condition option"
  statusDeepEqual :: "AgentStatus \<Rightarrow> AgentStatus \<Rightarrow> bool"

record env = lib +
  httpDo :: "history \<Rightarrow> http_request \<Rightarrow> error + http_response"
  getAgent :: "history \<Rightarrow> object_key \<Rightarrow> error + Agent"
  createAgent :: "history \<Rightarrow> Agent \<Rightarrow> error + Agent"
  patchAgent :: "history \<Rightarrow> object_key \<Rightarrow> json \<Rightarrow> error + Agent"
  patchAgentStatus :: "history \<Rightarrow> object_key \<Rightarrow> json \<Rightarrow> error + Agent"
  mergeAgentStatus :: "history \<Rightarrow> Agent \<Rightarrow> Agent \<Rightarrow> error + Agent"
  listAgents :: "history \<Rightarrow> string \<Rightarrow> error + Agent list"
  getSecretMeta :: "history \<Rightarrow> object_key \<Rightarrow> error + unit"
  createSecret :: "history \<Rightarrow> Secret \<Rightarrow> error + unit"
  patchSecret :: "history \<Rightarrow> object_key \<Rightarrow> json \<Rightarrow> error + unit"
  createOrUpdate :: "history \<Rightarrow> object_key \<Rightarrow> (StatefulSet \<Rightarrow> error + StatefulSet)
                       \<Rightarrow> error + (OperationResult \<times> StatefulSet)"
  setStatusCondition :: "history \<Rightarrow> Condition list \<Rightarrow> Condition \<Rightarrow> Condition list"
  readFile :: "history \<Rightarrow> string \<Rightarrow> error + string"
  timeNow :: "history \<Rightarrow> time"
  loadX509KeyPair :: "history \<Rightarrow> string \<Rightarrow> string \<Rightarrow> error + tls_certificate"
  generateKey :: "history \<Rightarrow> error + ec_key"
  createCertificateRequest :: "history \<Rightarrow> ec_key \<Rightarrow> error + string"

subsection \<open>Calls\<close>

definition call :: "(history \<Rightarrow> 'r) \<Rightarrow> ('r \<Rightarrow> event) \<Rightarrow> (history, 'r) state" where
  "call answer ev = State (\<lambda>h. (answer h, h @ [ev (answer h)]))"

lemma run_call [run_simps]: "run_state (call f ev) h = (f h, h @ [ev (f h)])"
  by (simp add: call_def)

definition log :: "log_level \<Rightarrow> string \<Rightarrow> (string \<times> log_value) list \<Rightarrow> (history, unit) state" where
  "log l msg kvs = call (\<lambda>_. ()) (\<lambda>_. Log l msg kvs)"

lemma run_log [run_simps]: "run_state (log l msg kvs) h = ((), h @ [Log l msg kvs])"
  by (simp add: log_def run_simps)

subsection \<open>What a run appends\<close>

text \<open>
  \<open>traces F m\<close>: whatever the history, running \<open>m\<close> only appends to it, and the list of events it
  appends satisfies \<open>F\<close>. For a property that holds of no events and of two lists in a row when it
  holds of each, the locale \<open>trace_property\<close> gives rules that follow the structure of an operation.
  \<open>emits P\<close> is the instance that says every appended event satisfies \<open>P\<close>; the frame of a whole
  handler is proved by \<open>intro emits_intros\<close>.
\<close>

definition traces :: "(history \<Rightarrow> bool) \<Rightarrow> (history, 'a) state \<Rightarrow> bool" where
  "traces F m \<longleftrightarrow> (\<forall>h. \<exists>es. snd (run_state m h) = h @ es \<and> F es)"

lemma tracesE:
  assumes "traces F m" and "run_state m h = (a, t)"
  obtains es where "t = h @ es" and "F es"
  using assms unfolding traces_def by (metis snd_conv)

lemma traces_mono: "traces F m \<Longrightarrow> (\<And>es. F es \<Longrightarrow> G es) \<Longrightarrow> traces G m"
  unfolding traces_def by blast

lemma traces_if: "(b \<Longrightarrow> traces F m) \<Longrightarrow> (\<not> b \<Longrightarrow> traces F n) \<Longrightarrow> traces F (if b then m else n)"
  by simp

lemma traces_case_sum:
  "(\<And>e. x = Inl e \<Longrightarrow> traces F (f e)) \<Longrightarrow> (\<And>a. x = Inr a \<Longrightarrow> traces F (g a))
     \<Longrightarrow> traces F (case x of Inl e \<Rightarrow> f e | Inr a \<Rightarrow> g a)"
  by (cases x) simp_all

lemma traces_case_option:
  "(x = None \<Longrightarrow> traces F m) \<Longrightarrow> (\<And>a. x = Some a \<Longrightarrow> traces F (g a))
     \<Longrightarrow> traces F (case x of None \<Rightarrow> m | Some a \<Rightarrow> g a)"
  by (cases x) simp_all

lemma traces_case_prod:
  "(\<And>a b. x = (a, b) \<Longrightarrow> traces F (f a b)) \<Longrightarrow> traces F (case x of (a, b) \<Rightarrow> f a b)"
  by (cases x) simp

lemma traces_Let: "traces F (f x) \<Longrightarrow> traces F (Let x f)"
  by simp

lemmas traces_splits = traces_if traces_case_sum traces_case_option traces_case_prod traces_Let

locale trace_property =
  fixes F :: "history \<Rightarrow> bool"
  assumes empty_trace: "F []"
    and append_trace: "F xs \<Longrightarrow> F ys \<Longrightarrow> F (xs @ ys)"
begin

lemma traces_return: "traces F (State_Monad.return a)"
  by (simp add: traces_def run_simps empty_trace)

lemma traces_bind_result:
  assumes "traces F m" and "\<And>a h t. run_state m h = (a, t) \<Longrightarrow> traces F (f a)"
  shows "traces F (State_Monad.bind m f)"
  unfolding traces_def
proof
  fix h
  obtain a t where m: "run_state m h = (a, t)" by fastforce
  obtain es where "t = h @ es" and "F es" using assms(1) m by (rule tracesE)
  moreover obtain fs where "snd (run_state (f a) t) = t @ fs" and "F fs"
    using assms(2) [OF m] unfolding traces_def by blast
  ultimately have "snd (run_state (State_Monad.bind m f) h) = h @ (es @ fs)" and "F (es @ fs)"
    using m by (auto simp: run_simps append_trace)
  then show "\<exists>es. snd (run_state (State_Monad.bind m f) h) = h @ es \<and> F es" by blast
qed

lemma traces_bind: "traces F m \<Longrightarrow> (\<And>a. traces F (f a)) \<Longrightarrow> traces F (State_Monad.bind m f)"
  by (rule traces_bind_result)

lemma traces_for_each: "(\<And>x. x \<in> set xs \<Longrightarrow> traces F (f x)) \<Longrightarrow> traces F (for_each xs f)"
  by (induction xs) (auto simp: for_each.simps intro!: traces_return traces_bind)

lemma traces_repeat_n: "traces F m \<Longrightarrow> traces F (repeat_n n m)"
  by (induction n) (auto simp: repeat_n.simps intro!: traces_return traces_bind)

lemmas traces_rules = traces_return traces_bind traces_for_each traces_repeat_n traces_splits

end

definition every :: "(event \<Rightarrow> bool) \<Rightarrow> history \<Rightarrow> bool" where
  "every P es \<longleftrightarrow> (\<forall>e\<in>set es. P e)"

interpretation every_event: trace_property "every P" for P
  by unfold_locales (auto simp: every_def)

definition emits :: "(event \<Rightarrow> bool) \<Rightarrow> (history, 'a) state \<Rightarrow> bool" where
  "emits P m \<longleftrightarrow> traces (every P) m"

named_theorems emits_intros \<open>the events an operation appends, by the operation's structure\<close>

lemma emits_rules [emits_intros]:
  "emits P (State_Monad.return a)"
  "emits P m \<Longrightarrow> (\<And>a. emits P (f a)) \<Longrightarrow> emits P (State_Monad.bind m f)"
  "(\<And>x. x \<in> set xs \<Longrightarrow> emits P (g x)) \<Longrightarrow> emits P (for_each xs g)"
  "emits P n \<Longrightarrow> emits P (repeat_n k n)"
  unfolding emits_def by (intro every_event.traces_rules; blast)+

lemma emits_splits [emits_intros]:
  "(b \<Longrightarrow> emits P m) \<Longrightarrow> (\<not> b \<Longrightarrow> emits P n) \<Longrightarrow> emits P (if b then m else n)"
  "(\<And>e. x = Inl e \<Longrightarrow> emits P (f e)) \<Longrightarrow> (\<And>a. x = Inr a \<Longrightarrow> emits P (g a))
     \<Longrightarrow> emits P (case x of Inl e \<Rightarrow> f e | Inr a \<Rightarrow> g a)"
  "(y = None \<Longrightarrow> emits P m) \<Longrightarrow> (\<And>a. y = Some a \<Longrightarrow> emits P (k a))
     \<Longrightarrow> emits P (case y of None \<Rightarrow> m | Some a \<Rightarrow> k a)"
  "(\<And>a b. z = (a, b) \<Longrightarrow> emits P (l a b)) \<Longrightarrow> emits P (case z of (a, b) \<Rightarrow> l a b)"
  "emits P (q w) \<Longrightarrow> emits P (Let w q)"
  unfolding emits_def by (fact traces_splits)+

lemma emits_bind_result:
  "emits P m \<Longrightarrow> (\<And>a h t. run_state m h = (a, t) \<Longrightarrow> emits P (f a)) \<Longrightarrow> emits P (State_Monad.bind m f)"
  unfolding emits_def by (rule every_event.traces_bind_result)

lemma emits_call: "(\<And>r. P (ev r)) \<Longrightarrow> emits P (call f ev)"
  by (simp add: emits_def traces_def every_def run_simps)

lemma emits_log: "P (Log l msg kvs) \<Longrightarrow> emits P (log l msg kvs)"
  by (simp add: log_def emits_call)

lemma emits_mono: "emits P m \<Longrightarrow> (\<And>e. P e \<Longrightarrow> Q e) \<Longrightarrow> emits Q m"
  unfolding emits_def by (erule traces_mono) (auto simp: every_def)

lemma emitsE:
  assumes "emits P m" and "run_state m h = (a, t)"
  obtains es where "t = h @ es" and "\<forall>e\<in>set es. P e"
  using assms unfolding emits_def by (metis every_def tracesE)

text \<open>The events a run from \<open>h\<close> appends.\<close>

definition appended :: "(history, 'a) state \<Rightarrow> history \<Rightarrow> history" where
  "appended m h = drop (length h) (snd (run_state m h))"

lemma appended_traces: "traces F m \<Longrightarrow> F (appended m h)"
  unfolding traces_def appended_def by (metis append_eq_conv_conj)

lemma appended_emits: "emits P m \<Longrightarrow> e \<in> set (appended m h) \<Longrightarrow> P e"
  unfolding emits_def by (drule appended_traces) (auto simp: every_def)

lemma run_appended: "traces F m \<Longrightarrow> snd (run_state m h) = h @ appended m h"
  unfolding traces_def appended_def by (metis append_eq_conv_conj)

subsection \<open>Kinds of events\<close>

fun is_log :: "event \<Rightarrow> bool" where
  "is_log (Log l m kvs) = True"
| "is_log e = False"

fun is_http :: "event \<Rightarrow> bool" where
  "is_http (Http q r) = True"
| "is_http e = False"

text \<open>The events that ask the API server to change an object.\<close>

fun is_kube_write :: "event \<Rightarrow> bool" where
  "is_kube_write (CreateAgent a r) = True"
| "is_kube_write (PatchAgent k p r) = True"
| "is_kube_write (PatchAgentStatus k p r) = True"
| "is_kube_write (MergeAgentStatus a b r) = True"
| "is_kube_write (CreateSecret s r) = True"
| "is_kube_write (PatchSecret k p r) = True"
| "is_kube_write (CreateOrUpdate k r) = True"
| "is_kube_write e = False"

subsection \<open>A world that refuses\<close>

text \<open>
  Every call fails with an error of the outside world's own and every library function does the
  least it can. Concrete inputs are this one with the calls that matter answered.
\<close>

definition nothing_answers :: error where
  "nothing_answers = Foreign ''connection refused''"

definition refusing_env :: env where
  "refusing_env =
     \<lparr>pemDecode = (\<lambda>s. None),
      parseCertificateRequest = (\<lambda>s. Inr s), csrCheckSignature = (\<lambda>q. None),
      marshalPKCS8PrivateKey = (\<lambda>k. Inr k), certsFromPEM = (\<lambda>s. []),
      parseTime = (\<lambda>s. Inl nothing_answers), newRequestError = (\<lambda>m u. None),
      quantityCmp = (\<lambda>a b. if a = b then 0 else 1),
      quantityString = (\<lambda>q. case q of Quantity s \<Rightarrow> s), newQuantityBinarySI = (\<lambda>n. Quantity (itoa n)),
      yamlMarshal = (\<lambda>c. Inr (concat (map (\<lambda>(k, v). k @ v) (act_Pins (acf_Tools c))))),
      setControllerReference = (\<lambda>owner m. Inr m), findStatusCondition = (\<lambda>cs t. None),
      statusDeepEqual = (\<lambda>a b. a = b),
      httpDo = (\<lambda>h q. Inl nothing_answers), getAgent = (\<lambda>h k. Inl nothing_answers),
      createAgent = (\<lambda>h a. Inl nothing_answers), patchAgent = (\<lambda>h k p. Inl nothing_answers),
      patchAgentStatus = (\<lambda>h k p. Inl nothing_answers),
      mergeAgentStatus = (\<lambda>h a b. Inl nothing_answers), listAgents = (\<lambda>h n. Inl nothing_answers),
      getSecretMeta = (\<lambda>h k. Inl nothing_answers), createSecret = (\<lambda>h s. Inl nothing_answers),
      patchSecret = (\<lambda>h k p. Inl nothing_answers),
      createOrUpdate = (\<lambda>h k f. Inl nothing_answers),
      setStatusCondition = (\<lambda>h cs c. cs), readFile = (\<lambda>h f. Inl nothing_answers),
      timeNow = (\<lambda>h. 0), loadX509KeyPair = (\<lambda>h c k. Inl nothing_answers),
      generateKey = (\<lambda>h. Inl nothing_answers),
      createCertificateRequest = (\<lambda>h k. Inl nothing_answers)\<rparr>"

text \<open>garam's listener answering every request with one status and one body.\<close>

definition answering :: "int \<Rightarrow> body \<Rightarrow> history \<Rightarrow> http_request \<Rightarrow> error + http_response" where
  "answering st b h q = Inr \<lparr>resp_Status = st, resp_Body = Inr b\<rparr>"

lemmas concrete_world = refusing_env_def answering_def nothing_answers_def

end
