(* ===== verification/Client.thy ===== *)
theory Client
  imports World
begin

text \<open>
  The client of garam's machine listener (\<^verbatim>\<open>src/internal/garam/client.go\<close>): the request every
  route goes through, the payloads it decodes, the reading of a definition's free-form values, and
  the five routes with the errors each tells apart.
\<close>

record Client =
  cl_address :: string
  cl_Timeout :: int
  cl_TLS :: tls_config
  cl_DisableKeepAlives :: bool

definition requestTimeout :: int where
  "requestTimeout = 30 * 1000000000"

definition NewClient :: "string \<Rightarrow> tls_config \<Rightarrow> Client" where
  "NewClient address tlsConfig =
     \<lparr>cl_address = address, cl_Timeout = requestTimeout, cl_TLS = tlsConfig,
      cl_DisableKeepAlives = True\<rparr>"

subsection \<open>Payloads\<close>

record claimPayload =
  cp_Epoch :: int

record definitionPayload =
  dp_AgentGRN :: string
  dp_Values :: "(string, string) gomap"
  dp_Claim :: "claimPayload option"

record assignmentPayload =
  ap_GRN :: string
  ap_Operator :: string
  ap_Epoch :: int

record credentialPayload =
  crp_CertificatePEM :: string
  crp_PrivateKeyPEM :: string

record agentCredentialPayload =
  acp_CertificatePEM :: string
  acp_PrivateKeyPEM :: string
  acp_IssuerPEM :: string
  acp_ServerRootPEM :: string
  acp_NotAfter :: time

record enrolledCertificatePayload =
  ecp_GRN :: string
  ecp_CertificatePEM :: string
  ecp_ServerRootPEM :: string
  ecp_NotAfter :: time

text \<open>Struct decoding, field by field, as the tags name the members.\<close>

definition dec_claim_fields :: "claimPayload \<Rightarrow> (string \<times> json) list \<Rightarrow> error + claimPayload" where
  "dec_claim_fields old kvs =
     (case dec_field dec_int64 (cp_Epoch old) (members ''epoch'' kvs) of
        Inl e \<Rightarrow> Inl e
      | Inr ep \<Rightarrow> Inr \<lparr>cp_Epoch = ep\<rparr>)"

fun dec_claim_pointer :: "claimPayload option \<Rightarrow> json \<Rightarrow> error + claimPayload option" where
  "dec_claim_pointer old JNull = Inr None"
| "dec_claim_pointer old (JObj kvs) =
     (case dec_claim_fields (case old of None \<Rightarrow> \<lparr>cp_Epoch = 0\<rparr> | Some c \<Rightarrow> c) kvs of
        Inl e \<Rightarrow> Inl e | Inr c \<Rightarrow> Inr (Some c))"
| "dec_claim_pointer old v = Inl unmarshal_type_error"

definition dec_definition_fields :: "(string \<times> json) list \<Rightarrow> error + definitionPayload" where
  "dec_definition_fields kvs =
     (case dec_field dec_string [] (members ''agentGrn'' kvs) of Inl e \<Rightarrow> Inl e | Inr g \<Rightarrow>
     (case dec_field dec_string_map [] (members ''values'' kvs) of Inl e \<Rightarrow> Inl e | Inr vs \<Rightarrow>
     (case dec_field dec_claim_pointer None (members ''claim'' kvs) of Inl e \<Rightarrow> Inl e | Inr c \<Rightarrow>
        Inr \<lparr>dp_AgentGRN = g, dp_Values = vs, dp_Claim = c\<rparr>)))"

definition dec_assignment_fields :: "(string \<times> json) list \<Rightarrow> error + assignmentPayload" where
  "dec_assignment_fields kvs =
     (case dec_field dec_string [] (members ''grn'' kvs) of Inl e \<Rightarrow> Inl e | Inr g \<Rightarrow>
     (case dec_field dec_string [] (members ''operator'' kvs) of Inl e \<Rightarrow> Inl e | Inr op \<Rightarrow>
     (case dec_field dec_int64 0 (members ''epoch'' kvs) of Inl e \<Rightarrow> Inl e | Inr ep \<Rightarrow>
        Inr \<lparr>ap_GRN = g, ap_Operator = op, ap_Epoch = ep\<rparr>)))"

definition dec_credential_fields :: "(string \<times> json) list \<Rightarrow> error + credentialPayload" where
  "dec_credential_fields kvs =
     (case dec_field dec_string [] (members ''certificatePem'' kvs) of Inl e \<Rightarrow> Inl e | Inr c \<Rightarrow>
     (case dec_field dec_string [] (members ''privateKeyPem'' kvs) of Inl e \<Rightarrow> Inl e | Inr k \<Rightarrow>
        Inr \<lparr>crp_CertificatePEM = c, crp_PrivateKeyPEM = k\<rparr>))"

definition dec_agentCredential_fields ::
  "(string \<Rightarrow> error + time) \<Rightarrow> (string \<times> json) list \<Rightarrow> error + agentCredentialPayload" where
  "dec_agentCredential_fields parse kvs =
     (case dec_field dec_string [] (members ''certificatePem'' kvs) of Inl e \<Rightarrow> Inl e | Inr c \<Rightarrow>
     (case dec_field dec_string [] (members ''privateKeyPem'' kvs) of Inl e \<Rightarrow> Inl e | Inr k \<Rightarrow>
     (case dec_field dec_string [] (members ''issuerPem'' kvs) of Inl e \<Rightarrow> Inl e | Inr i \<Rightarrow>
     (case dec_field dec_string [] (members ''serverRootPem'' kvs) of Inl e \<Rightarrow> Inl e | Inr r \<Rightarrow>
     (case dec_field (dec_time parse) 0 (members ''notAfter'' kvs) of Inl e \<Rightarrow> Inl e | Inr t \<Rightarrow>
        Inr \<lparr>acp_CertificatePEM = c, acp_PrivateKeyPEM = k, acp_IssuerPEM = i,
             acp_ServerRootPEM = r, acp_NotAfter = t\<rparr>)))))"

definition dec_enrolledCertificate_fields ::
  "(string \<Rightarrow> error + time) \<Rightarrow> (string \<times> json) list \<Rightarrow> error + enrolledCertificatePayload" where
  "dec_enrolledCertificate_fields parse kvs =
     (case dec_field dec_string [] (members ''grn'' kvs) of Inl e \<Rightarrow> Inl e | Inr g \<Rightarrow>
     (case dec_field dec_string [] (members ''certificatePem'' kvs) of Inl e \<Rightarrow> Inl e | Inr c \<Rightarrow>
     (case dec_field dec_string [] (members ''serverRootPem'' kvs) of Inl e \<Rightarrow> Inl e | Inr r \<Rightarrow>
     (case dec_field (dec_time parse) 0 (members ''notAfter'' kvs) of Inl e \<Rightarrow> Inl e | Inr t \<Rightarrow>
        Inr \<lparr>ecp_GRN = g, ecp_CertificatePEM = c, ecp_ServerRootPEM = r, ecp_NotAfter = t\<rparr>))))"

text \<open>A struct: an object sets its fields, \<^verbatim>\<open>null\<close> leaves the zero value, anything else is refused.\<close>

fun dec_struct :: "((string \<times> json) list \<Rightarrow> error + 'a) \<Rightarrow> json \<Rightarrow> error + 'a" where
  "dec_struct dec (JObj kvs) = dec kvs"
| "dec_struct dec JNull = dec []"
| "dec_struct dec v = Inl unmarshal_type_error"

fun unmarshal :: "(json \<Rightarrow> error + 'a) \<Rightarrow> body \<Rightarrow> error + 'a" where
  "unmarshal dec (NotJson s) = Inl (Foreign ''json: invalid document'')"
| "unmarshal dec (Document j) = dec j"

subsection \<open>What a payload becomes\<close>

definition toolPinPrefix :: string where
  "toolPinPrefix = ''tools.pins.''"

fun read_value :: "ToolSet \<times> string list \<Rightarrow> string \<times> string \<Rightarrow> ToolSet \<times> string list" where
  "read_value (tools, ignored) (k, value) =
     (case cut_prefix k toolPinPrefix of
        (name, found) \<Rightarrow>
          if \<not> found \<or> name = [] then (tools, ignored @ [k])
          else (tools\<lparr>Pins := map_put name value (Pins tools)\<rparr>, ignored))"

definition readValues :: "(string \<times> string) list \<Rightarrow> ToolSet \<times> string list" where
  "readValues values =
     (case foldl read_value (\<lparr>Pins = []\<rparr>, []) values of
        (tools, ignored) \<Rightarrow> (tools, sort ignored))"

definition payload_definition :: "definitionPayload \<Rightarrow> error + Definition" where
  "payload_definition p =
     (if dp_AgentGRN p = [] then Inl (New ''a definition garam answered names no agent'')
      else case readValues (dp_Values p) of (tools, ignored) \<Rightarrow>
        (case dp_Claim p of
           None \<Rightarrow> Inr \<lparr>def_Agent = dp_AgentGRN p, def_Tools = tools, def_Ignored = ignored,
                        def_Claim = None\<rparr>
         | Some c \<Rightarrow>
             if cp_Epoch c < 1
             then Inl (New (''a definition garam answered claims '' @ dp_AgentGRN p @ '' at no epoch''))
             else Inr \<lparr>def_Agent = dp_AgentGRN p, def_Tools = tools, def_Ignored = ignored,
                       def_Claim = Some \<lparr>claim_Epoch = cp_Epoch c\<rparr>\<rparr>))"

definition payload_assignment :: "assignmentPayload \<Rightarrow> error + Assignment" where
  "payload_assignment p =
     (if ap_GRN p = [] \<or> ap_Operator p = []
      then Inl (New ''an assignment garam answered names no agent or no operator'')
      else Inr \<lparr>asg_Agent = ap_GRN p, asg_Operator = ap_Operator p, asg_Epoch = ap_Epoch p\<rparr>)"

definition payload_credential :: "credentialPayload \<Rightarrow> error + Credential" where
  "payload_credential p =
     (if crp_CertificatePEM p = [] \<or> crp_PrivateKeyPEM p = []
      then Inl (New ''a renewal garam answered carries no certificate or no key'')
      else Inr \<lparr>cr_CertificatePEM = crp_CertificatePEM p, cr_KeyPEM = crp_PrivateKeyPEM p\<rparr>)"

definition payload_agentCredential :: "agentCredentialPayload \<Rightarrow> error + AgentCredential" where
  "payload_agentCredential p =
     (if acp_CertificatePEM p = [] \<or> acp_PrivateKeyPEM p = [] \<or> acp_IssuerPEM p = []
         \<or> acp_ServerRootPEM p = []
      then Inl (New ''a certificate garam issued an agent is missing one of its four PEMs'')
      else if IsZero (acp_NotAfter p)
      then Inl (New ''a certificate garam issued an agent carries no expiry'')
      else Inr \<lparr>ac_CertificatePEM = acp_CertificatePEM p, ac_KeyPEM = acp_PrivateKeyPEM p,
                ac_IssuerPEM = acp_IssuerPEM p, ac_ServerRootPEM = acp_ServerRootPEM p,
                ac_NotAfter = acp_NotAfter p\<rparr>)"

definition payload_enrolledCertificate ::
  "enrolledCertificatePayload \<Rightarrow> error + EnrolledCertificate" where
  "payload_enrolledCertificate p =
     (if ecp_CertificatePEM p = []
      then Inl (New ''an enrollment garam answered carries no certificate'')
      else Inr \<lparr>enr_Operator = ecp_GRN p, enr_CertificatePEM = ecp_CertificatePEM p,
                enr_ServerRootPEM = ecp_ServerRootPEM p, enr_NotAfter = ecp_NotAfter p\<rparr>)"

subsection \<open>One request\<close>

definition dec_refusal_fields :: "(string \<times> json) list \<Rightarrow> error + (string \<times> string)" where
  "dec_refusal_fields kvs =
     (case dec_field dec_string [] (members ''kind'' kvs) of Inl e \<Rightarrow> Inl e | Inr k \<Rightarrow>
     (case dec_field dec_string [] (members ''message'' kvs) of Inl e \<Rightarrow> Inl e | Inr m \<Rightarrow> Inr (k, m)))"

definition refusalFrom :: "int \<Rightarrow> body \<Rightarrow> refusal" where
  "refusalFrom st b =
     (case unmarshal (dec_struct dec_refusal_fields) b of
        Inl e \<Rightarrow> \<lparr>ref_status = st, ref_kind = [], ref_message = []\<rparr>
      | Inr (k, m) \<Rightarrow> \<lparr>ref_status = st, ref_kind = k, ref_message = m\<rparr>)"

definition request_for :: "Client \<Rightarrow> string \<Rightarrow> string \<Rightarrow> json option \<Rightarrow> http_request" where
  "request_for c method path reqbody =
     \<lparr>hr_TLS = cl_TLS c, hr_Method = method, hr_URL = ''https://'' @ cl_address c @ path,
      hr_ContentType = (case reqbody of None \<Rightarrow> None | Some j \<Rightarrow> Some ''application/json''),
      hr_Body = reqbody\<rparr>"

text \<open>
  What an answer is read into: \<open>no_out\<close> is the nil a caller that reads nothing passes, \<open>into dec\<close>
  a pointer \<^verbatim>\<open>json.Unmarshal\<close> decodes through. The two structs that are sent hold a string and an
  integer or two strings, which \<^verbatim>\<open>json.Marshal\<close> renders without an error.
\<close>

definition no_out :: "body \<Rightarrow> error + unit" where
  "no_out b = Inr ()"

definition into :: "(json \<Rightarrow> error + 'a) \<Rightarrow> body \<Rightarrow> error + 'a" where
  "into dec b =
     (case unmarshal dec b of Inl e \<Rightarrow> Inl (Wrapped ''decode what garam answered'' e) | Inr x \<Rightarrow> Inr x)"

definition read_response :: "(body \<Rightarrow> error + 'a) \<Rightarrow> error + http_response \<Rightarrow> error + 'a" where
  "read_response out response =
     (case response of
        Inl e \<Rightarrow> Inl e
      | Inr r \<Rightarrow>
          (case resp_Body r of
             Inl e \<Rightarrow> Inl e
           | Inr answered \<Rightarrow>
               if resp_Status r \<ge> 400 then Inl (Refused (refusalFrom (resp_Status r) answered))
               else out answered))"

definition send ::
  "env \<Rightarrow> Client \<Rightarrow> string \<Rightarrow> string \<Rightarrow> json option \<Rightarrow> (body \<Rightarrow> error + 'a)
     \<Rightarrow> (history, error + 'a) state" where
  "send env c method path reqbody out =
     (let request = request_for c method path reqbody in
      case newRequestError env method (hr_URL request) of
        Some e \<Rightarrow> State_Monad.return (Inl e)
      | None \<Rightarrow> do {
          response \<leftarrow> call (\<lambda>h. httpDo env h request) (Http request);
          State_Monad.return (read_response out response)
        })"

subsection \<open>The routes\<close>

fun definitions_of :: "definitionPayload list \<Rightarrow> error + Definition list" where
  "definitions_of [] = Inr []"
| "definitions_of (p # ps) =
     (case payload_definition p of
        Inl e \<Rightarrow> Inl e
      | Inr d \<Rightarrow> (case definitions_of ps of Inl e \<Rightarrow> Inl e | Inr ds \<Rightarrow> Inr (d # ds)))"

definition ListDefinitions :: "env \<Rightarrow> Client \<Rightarrow> (history, error + Definition list) state" where
  "ListDefinitions env c = do {
     r \<leftarrow> send env c ''GET'' ''/definitions'' None (into (dec_slice (dec_struct dec_definition_fields)));
     State_Monad.return
       (case r of
          Inl e \<Rightarrow> Inl (Wrapped ''list the definitions garam holds for this operator'' e)
        | Inr answered \<Rightarrow>
            (case definitions_of answered of
               Inl e \<Rightarrow> Inl (Wrapped ''list the definitions garam holds for this operator'' e)
             | Inr ds \<Rightarrow> Inr ds))
   }"

text \<open>\<^verbatim>\<open>errors.As(err, &refused) && ...\<close>\<close>

definition refused_with :: "(refusal \<Rightarrow> bool) \<Rightarrow> error \<Rightarrow> bool" where
  "refused_with P e = (case errors_As_refusal e of None \<Rightarrow> False | Some r \<Rightarrow> P r)"

definition claim_path :: "GRN \<Rightarrow> string" where
  "claim_path agent = ''/definitions/'' @ path_escape agent @ ''/claim''"

definition ClaimDefinition :: "env \<Rightarrow> Client \<Rightarrow> GRN \<Rightarrow> (history, error + Assignment) state" where
  "ClaimDefinition env c agent = do {
     r \<leftarrow> send env c ''POST'' (claim_path agent) None (into (dec_struct dec_assignment_fields));
     State_Monad.return
       (case r of
          Inl e \<Rightarrow>
            if refused_with (\<lambda>x. ref_status x = 409) e
            then Inl (Wrapped (''claim '' @ agent) ErrClaimConflict)
            else Inl (Wrapped (''claim '' @ agent) e)
        | Inr answered \<Rightarrow> payload_assignment answered)
   }"

definition certificate_path :: "GRN \<Rightarrow> string" where
  "certificate_path agent = ''/agents/'' @ path_escape agent @ ''/certificate''"

definition IssueAgentCertificate ::
  "env \<Rightarrow> Client \<Rightarrow> GRN \<Rightarrow> (history, error + AgentCredential) state" where
  "IssueAgentCertificate env c agent = do {
     r \<leftarrow> send env c ''POST'' (certificate_path agent) None
            (into (dec_struct (dec_agentCredential_fields (parseTime env))));
     State_Monad.return
       (case r of
          Inl e \<Rightarrow>
            if refused_with (\<lambda>x. ref_status x = 403) e
            then Inl (Wrapped (''issue a certificate for '' @ agent) ErrAgentNotHeld)
            else Inl (Wrapped (''issue a certificate for '' @ agent) e)
        | Inr answered \<Rightarrow> payload_agentCredential answered)
   }"

definition kindFailedPrecondition :: string where
  "kindFailedPrecondition = ''failed_precondition''"

definition kindAlreadyExists :: string where
  "kindAlreadyExists = ''already_exists''"

definition provisioning_path :: "GRN \<Rightarrow> string" where
  "provisioning_path agent = ''/agents/'' @ path_escape agent @ ''/provisioning-state''"

definition provisioningStateReport :: "int \<Rightarrow> ProvisioningState \<Rightarrow> json" where
  "provisioningStateReport epoch st = JObj [(''epoch'', JInt epoch), (''state'', JStr st)]"

definition ReportProvisioningState ::
  "env \<Rightarrow> Client \<Rightarrow> GRN \<Rightarrow> int \<Rightarrow> ProvisioningState \<Rightarrow> (history, error + unit) state" where
  "ReportProvisioningState env c agent epoch st = do {
     r \<leftarrow> send env c ''POST'' (provisioning_path agent) (Some (provisioningStateReport epoch st)) no_out;
     State_Monad.return
       (let prefix = ''report '' @ agent @ '' at epoch '' @ itoa epoch in
        case r of
          Inl e \<Rightarrow>
            if refused_with (\<lambda>x. ref_kind x = kindFailedPrecondition) e
            then Inl (Wrapped prefix ErrReportStale)
            else if refused_with (\<lambda>x. ref_status x = 403) e
            then Inl (Wrapped prefix ErrAgentNotHeld)
            else Inl (Wrapped prefix e)
        | Inr u \<Rightarrow> Inr ())
   }"

definition RenewIdentity :: "env \<Rightarrow> Client \<Rightarrow> (history, error + Credential) state" where
  "RenewIdentity env c = do {
     r \<leftarrow> send env c ''POST'' ''/identity/certificate'' None (into (dec_struct dec_credential_fields));
     State_Monad.return
       (let prefix = ''renew the certificate this operator authenticates with'' in
        case r of
          Inl e \<Rightarrow>
            if refused_with (\<lambda>x. ref_kind x = kindFailedPrecondition) e
            then Inl (Wrapped prefix ErrRenewalTooEarly)
            else if refused_with (\<lambda>x. ref_kind x = kindAlreadyExists) e
            then Inl (Wrapped prefix ErrCredentialSuperseded)
            else Inl (Wrapped prefix e)
        | Inr answered \<Rightarrow> payload_credential answered)
   }"

text \<open>The check garam runs on a request (\<^verbatim>\<open>certificate_request.go\<close>), run before anything is sent.\<close>

definition checkSignature :: "'a lib_scheme \<Rightarrow> CertificateRequest \<Rightarrow> error option" where
  "checkSignature lib r =
     (case pemDecode lib (req_RequestPEM r) of
        None \<Rightarrow> Some (New ''the certificate signing request this operator built holds no PEM block'')
      | Some (block, rest) \<Rightarrow>
          (case parseCertificateRequest lib (pb_Bytes block) of
             Inl e \<Rightarrow> Some (Wrapped ''read back the certificate signing request this operator built'' e)
           | Inr request \<Rightarrow>
               (case csrCheckSignature lib request of
                  Some e \<Rightarrow> Some (Wrapped
                    ''verify the signature on the certificate signing request this operator built'' e)
                | None \<Rightarrow> None)))"

definition enrollment :: "string \<Rightarrow> string \<Rightarrow> json" where
  "enrollment token requestPEM =
     JObj [(''token'', JStr token), (''certificateRequestPem'', JStr requestPEM)]"

definition Enroll ::
  "env \<Rightarrow> Client \<Rightarrow> string \<Rightarrow> CertificateRequest \<Rightarrow> (history, error + EnrolledCertificate) state" where
  "Enroll env c token request =
     (case checkSignature env request of
        Some e \<Rightarrow> State_Monad.return (Inl (Wrapped ''enroll this operator'' e))
      | None \<Rightarrow> do {
          r \<leftarrow> send env c ''POST'' ''/enrollment'' (Some (enrollment token (req_RequestPEM request)))
                 (into (dec_struct (dec_enrolledCertificate_fields (parseTime env))));
          State_Monad.return
            (case r of
               Inl e \<Rightarrow>
                 if refused_with (\<lambda>x. ref_status x = 401) e
                 then Inl (Wrapped ''enroll this operator'' ErrTokenNotUsable)
                 else Inl (Wrapped ''enroll this operator'' e)
             | Inr answered \<Rightarrow> payload_enrolledCertificate answered)
        })"

subsection \<open>Reading a definition's values\<close>

definition pin_key :: "string \<Rightarrow> bool" where
  "pin_key k \<longleftrightarrow> prefix toolPinPrefix k \<and> k \<noteq> toolPinPrefix"

definition pin_name :: "string \<Rightarrow> string" where
  "pin_name k = drop (length toolPinPrefix) k"

lemma pin_key_iff: "pin_key k \<longleftrightarrow> pin_name k \<noteq> [] \<and> k = toolPinPrefix @ pin_name k"
  by (auto simp: pin_key_def pin_name_def prefix_def)

lemma read_value_eq:
  "read_value (tools, ignored) (k, v) =
     (if pin_key k then (tools\<lparr>Pins := map_put (pin_name k) v (Pins tools)\<rparr>, ignored)
      else (tools, ignored @ [k]))"
  by (auto simp: cut_prefix_def pin_key_def pin_name_def prefix_def)

text \<open>The loop as two independent passes: the pins put into a map, the other keys kept in order.\<close>

definition pin_entries :: "(string \<times> string) list \<Rightarrow> (string \<times> string) list" where
  "pin_entries vs = map (apfst pin_name) (filter (\<lambda>e. pin_key (fst e)) vs)"

definition pins_of :: "(string \<times> string) list \<Rightarrow> (string, string) gomap" where
  "pins_of vs = foldl (\<lambda>m (k, v). map_put k v m) [] (pin_entries vs)"

lemma foldl_read_value:
  "foldl read_value (tools, ignored) vs =
     (tools\<lparr>Pins := foldl (\<lambda>m (k, v). map_put k v m) (Pins tools) (pin_entries vs)\<rparr>,
      ignored @ map fst (filter (\<lambda>e. \<not> pin_key (fst e)) vs))"
  by (induction vs arbitrary: tools ignored)
    (auto simp: read_value_eq pin_entries_def simp del: read_value.simps)

lemma readValues_eq:
  "readValues vs = (\<lparr>Pins = pins_of vs\<rparr>, sort (map fst (filter (\<lambda>e. \<not> pin_key (fst e)) vs)))"
  by (simp add: readValues_def foldl_read_value pins_of_def)

lemma pins_of_wf: "gomap_wf (pins_of vs)"
  by (simp add: pins_of_def foldl_map_put_wf)

lemma distinct_pin_entries: "distinct (map fst vs) \<Longrightarrow> distinct (map fst (pin_entries vs))"
proof -
  assume "distinct (map fst vs)"
  then have "distinct (map fst (filter (\<lambda>e. pin_key (fst e)) vs))"
    by (rule distinct_map_filter)
  moreover have "inj_on pin_name {k. pin_key k}"
    by (rule inj_onI) (metis mem_Collect_eq pin_key_iff)
  then have "inj_on pin_name (set (map fst (filter (\<lambda>e. pin_key (fst e)) vs)))"
    by (rule inj_on_subset) auto
  moreover have "map fst (pin_entries vs) = map pin_name (map fst (filter (\<lambda>e. pin_key (fst e)) vs))"
    by (simp add: pin_entries_def comp_def)
  ultimately show ?thesis by (simp only: distinct_map)
qed

lemma map_of_pin_entries:
  "map_of (pin_entries vs) n = (if n = [] then None else map_of vs (toolPinPrefix @ n))"
proof (induction vs)
  case (Cons e vs)
  obtain k v where e: "e = (k, v)" by (cases e)
  show ?case
  proof (cases "pin_key k")
    case True
    then have "pin_name k \<noteq> []" and k: "k = toolPinPrefix @ pin_name k" by (simp_all add: pin_key_iff)
    then have "k = toolPinPrefix @ n \<longleftrightarrow> n = pin_name k" by (metis append_eq_append_conv)
    with Cons e True \<open>pin_name k \<noteq> []\<close> show ?thesis by (auto simp: pin_entries_def)
  next
    case False
    then have "n \<noteq> [] \<Longrightarrow> k \<noteq> toolPinPrefix @ n" by (auto simp: pin_key_def)
    with Cons e False show ?thesis by (auto simp: pin_entries_def)
  qed
qed (simp add: pin_entries_def)

lemma map_of_pins_of:
  "distinct (map fst vs) \<Longrightarrow>
     map_of (pins_of vs) n = (if n = [] then None else map_of vs (toolPinPrefix @ n))"
  unfolding pins_of_def
  by (simp add: map_of_foldl_map_put map_of_rev_distinct distinct_pin_entries map_of_pin_entries)

subsection \<open>What a route answers\<close>

lemma run_send:
  "run_state (send env c method path reqbody out) h =
     (let q = request_for c method path reqbody in
      case newRequestError env method (hr_URL q) of
        Some e \<Rightarrow> (Inl e, h)
      | None \<Rightarrow> (read_response out (httpDo env h q), h @ [Http q (httpDo env h q)]))"
  by (simp add: send_def Let_def run_simps split: option.splits)

text \<open>
  What the libraries and the transport fail with: their own errors, never one of the sentinels of
  this package and never a refusal, both of which only this package makes.
\<close>

definition foreign_errors :: "env \<Rightarrow> bool" where
  "foreign_errors env \<longleftrightarrow>
     (\<forall>m u e. newRequestError env m u = Some e \<longrightarrow> outside_error e)
     \<and> (\<forall>h q e. httpDo env h q = Inl e \<longrightarrow> outside_error e)
     \<and> (\<forall>h q r e. httpDo env h q = Inr r \<longrightarrow> resp_Body r = Inl e \<longrightarrow> outside_error e)
     \<and> (\<forall>s e. parseTime env s = Inl e \<longrightarrow> outside_error e)
     \<and> (\<forall>d e. parseCertificateRequest env d = Inl e \<longrightarrow> outside_error e)
     \<and> (\<forall>q e. csrCheckSignature env q = Some e \<longrightarrow> outside_error e)"

text \<open>garam answered the request \<open>q\<close> with a status from 400 up, read as the refusal \<open>x\<close>.\<close>

definition garam_refused :: "env \<Rightarrow> history \<Rightarrow> http_request \<Rightarrow> refusal \<Rightarrow> bool" where
  "garam_refused env h q x \<longleftrightarrow>
     newRequestError env (hr_Method q) (hr_URL q) = None
     \<and> (\<exists>r b. httpDo env h q = Inr r \<and> resp_Body r = Inr b \<and> resp_Status r \<ge> 400
          \<and> x = refusalFrom (resp_Status r) b)"

lemma garam_refused_unique: "garam_refused env h q x \<Longrightarrow> garam_refused env h q y \<Longrightarrow> x = y"
  by (auto simp: garam_refused_def)


text \<open>No decoder makes a sentinel or a refusal: what it fails with is an error of the library's.\<close>

definition foreign :: "('a \<Rightarrow> error + 'b) \<Rightarrow> bool" where
  "foreign f \<longleftrightarrow> (\<forall>x e. f x = Inl e \<longrightarrow> outside_error e)"

lemma foreignD: "foreign f \<Longrightarrow> f x = Inl e \<Longrightarrow> outside_error e"
  by (auto simp: foreign_def)

lemma outside_type_error [simp]: "outside_error unmarshal_type_error"
  by (simp add: unmarshal_type_error_def)

lemma dec_string_error: "dec_string old v = Inl e \<Longrightarrow> outside_error e"
  by (cases v) auto

lemma dec_int64_error: "dec_int64 old v = Inl e \<Longrightarrow> outside_error e"
  by (cases v) (auto split: if_splits)

lemma dec_time_error: "foreign parse \<Longrightarrow> dec_time parse old v = Inl e \<Longrightarrow> outside_error e"
  by (cases v) (auto dest: foreignD)

lemma dec_entries_error: "dec_entries m kvs = Inl e \<Longrightarrow> outside_error e"
  by (induction m kvs rule: dec_entries.induct) (auto split: sum.splits dest: dec_string_error)

lemma dec_string_map_error: "dec_string_map old v = Inl e \<Longrightarrow> outside_error e"
  by (cases v) (auto dest: dec_entries_error)

lemma dec_field_error:
  "dec_field dec old vs = Inl e \<Longrightarrow> (\<And>old. foreign (dec old)) \<Longrightarrow> outside_error e"
  by (induction vs arbitrary: old) (auto split: sum.splits dest: foreignD)

lemma dec_elements_error: "dec_elements dec vs = Inl e \<Longrightarrow> foreign dec \<Longrightarrow> outside_error e"
  by (induction vs) (auto split: sum.splits dest: foreignD)

lemma foreign_scalars:
  "foreign (dec_string old)" "foreign (dec_int64 i)" "foreign (dec_string_map m)"
  "foreign parse \<Longrightarrow> foreign (dec_time parse t)"
  by (auto simp: foreign_def dest: dec_string_error dec_int64_error dec_string_map_error)
    (metis dec_time_error foreign_def)

lemma foreign_claim_pointer: "foreign (dec_claim_pointer old)"
proof -
  have "outside_error e" if "dec_claim_pointer old v = Inl e" for v e
    using that by (cases v) (auto simp: dec_claim_fields_def foreign_scalars split: sum.splits
        dest!: dec_field_error)
  then show ?thesis by (auto simp: foreign_def)
qed

lemma foreign_fields:
  "foreign dec_definition_fields" "foreign dec_assignment_fields" "foreign dec_credential_fields"
  "foreign parse \<Longrightarrow> foreign (dec_agentCredential_fields parse)"
  "foreign parse \<Longrightarrow> foreign (dec_enrolledCertificate_fields parse)"
  unfolding foreign_def [of dec_definition_fields] foreign_def [of dec_assignment_fields]
    foreign_def [of dec_credential_fields] foreign_def [of "dec_agentCredential_fields parse"]
    foreign_def [of "dec_enrolledCertificate_fields parse"]
  by (auto simp: dec_definition_fields_def dec_assignment_fields_def dec_credential_fields_def
      dec_agentCredential_fields_def dec_enrolledCertificate_fields_def
      foreign_scalars foreign_claim_pointer split: sum.splits dest!: dec_field_error)

lemma foreign_struct: "foreign dec \<Longrightarrow> foreign (dec_struct dec)"
proof -
  assume "foreign dec"
  then have "outside_error e" if "dec_struct dec v = Inl e" for v e
    using that by (cases v) (auto dest: foreignD)
  then show ?thesis by (auto simp: foreign_def)
qed

lemma foreign_slice: "foreign dec \<Longrightarrow> foreign (dec_slice dec)"
proof -
  assume "foreign dec"
  then have "outside_error e" if "dec_slice dec v = Inl e" for v e
    using that by (cases v) (auto dest: dec_elements_error)
  then show ?thesis by (auto simp: foreign_def)
qed

lemma foreign_into: "foreign dec \<Longrightarrow> foreign (into dec)"
proof -
  assume "foreign dec"
  then have "outside_error e" if "into dec b = Inl e" for b e
    using that by (cases b) (auto simp: into_def split: sum.splits dest: foreignD)
  then show ?thesis by (auto simp: foreign_def)
qed

lemma foreign_no_out: "foreign no_out"
  by (simp add: foreign_def no_out_def)

lemmas foreign_rules = foreign_into foreign_struct foreign_slice foreign_fields foreign_no_out

lemma foreign_parseTime: "foreign_errors env \<Longrightarrow> foreign (parseTime env)"
  by (auto simp: foreign_errors_def foreign_def)

definition refusal_of :: "error + 'a \<Rightarrow> refusal option" where
  "refusal_of r = (case r of Inl e \<Rightarrow> errors_As_refusal e | Inr x \<Rightarrow> None)"

lemma send_refusal:
  assumes "foreign_errors env" and "foreign out"
    and "run_state (send env c method path reqbody out) h = (r, h')"
  shows "refusal_of r = Some x \<longleftrightarrow> garam_refused env h (request_for c method path reqbody) x"
  using assms
  by (auto simp: run_send foreign_errors_def garam_refused_def refusal_of_def read_response_def
      Let_def request_for_def outside_error_no_refusal split: option.splits sum.splits if_splits
      dest: foreignD)

lemma send_no_sentinel:
  assumes "foreign_errors env" and "foreign out" and "s \<in> set sentinels"
    and "run_state (send env c method path reqbody out) h = (Inl e, h')"
  shows "\<not> errors_Is e s"
proof -
  have "\<not> outside_error s" using assms(3) by (auto simp: sentinels_def)
  moreover have "outside_error e \<or> (\<exists>x. e = Refused x)"
    using assms(1,2,4)
    by (auto simp: run_send foreign_errors_def read_response_def Let_def
        split: option.splits sum.splits if_splits dest: foreignD)
  ultimately show ?thesis
    using assms(3) by (auto simp: sentinels_def dest: outside_error_no_sentinel)
qed

lemma refused_with_iff: "refused_with P e \<longleftrightarrow> (\<exists>x. refusal_of (Inl e) = Some x \<and> P x)"
  by (auto simp: refused_with_def refusal_of_def split: option.splits)


lemma send_cases:
  assumes "foreign_errors env" and "foreign out"
    and "run_state (send env c method path reqbody out) h = (r, h')"
  obtains
    (refused) x e where "r = Inl e" and "errors_As_refusal e = Some x"
      and "garam_refused env h (request_for c method path reqbody) x"
      and "\<forall>s\<in>set sentinels. \<not> errors_Is e s"
  | (failed) e where "r = Inl e" and "errors_As_refusal e = None"
      and "\<forall>x. \<not> garam_refused env h (request_for c method path reqbody) x"
      and "\<forall>s\<in>set sentinels. \<not> errors_Is e s"
  | (answered) a where "r = Inr a"
      and "\<forall>x. \<not> garam_refused env h (request_for c method path reqbody) x"
proof (cases r)
  case (Inl e)
  have "\<forall>s\<in>set sentinels. \<not> errors_Is e s"
    using send_no_sentinel [OF assms(1,2)] assms(3) Inl by blast
  moreover have "errors_As_refusal e = Some x \<longleftrightarrow>
      garam_refused env h (request_for c method path reqbody) x" for x
    using send_refusal [OF assms] Inl by (simp add: refusal_of_def)
  ultimately show ?thesis
    using Inl by (metis failed refused option.exhaust option.distinct(1))
next
  case (Inr a)
  then show ?thesis
    using send_refusal [OF assms] by (auto simp: refusal_of_def intro: answered)
qed

lemma payload_errors:
  "payload_assignment p = Inl e \<Longrightarrow> \<exists>m. e = New m"
  "payload_agentCredential q = Inl e \<Longrightarrow> \<exists>m. e = New m"
  "payload_credential k = Inl e \<Longrightarrow> \<exists>m. e = New m"
  "payload_enrolledCertificate n = Inl e \<Longrightarrow> \<exists>m. e = New m"
  by (auto simp: payload_assignment_def payload_agentCredential_def payload_credential_def
      payload_enrolledCertificate_def split: if_splits)

lemma errors_Is_New [simp]: "errors_Is (New m) s \<longleftrightarrow> s = New m"
  by auto

lemmas route_rules = foreign_rules foreign_parseTime
lemmas route_simps = run_simps refused_with_def sentinels_def Let_def

lemma checkSignature_no_sentinel:
  "foreign_errors env \<Longrightarrow> checkSignature env request = Some e \<Longrightarrow> s \<in> set sentinels
     \<Longrightarrow> \<not> errors_Is e s"
proof -
  assume "foreign_errors env" and "checkSignature env request = Some e" and s: "s \<in> set sentinels"
  then have "(\<exists>m. e = New m) \<or> outside_error e"
    by (auto simp: checkSignature_def foreign_errors_def split: option.splits sum.splits)
  moreover have "\<not> outside_error s" using s by (auto simp: sentinels_def)
  ultimately show ?thesis
    using s by (auto simp: sentinels_def dest: outside_error_no_sentinel)
qed

lemma emits_send: "(\<And>r. P (Http (request_for c method path reqbody) r)) \<Longrightarrow> emits P (send env c method path reqbody out)"
  by (auto simp: send_def intro!: emits_intros emits_call)

text \<open>Which request a route sends.\<close>

lemma emits_routes:
  "(\<And>r. P (Http (request_for c ''GET'' ''/definitions'' None) r)) \<Longrightarrow> emits P (ListDefinitions env c)"
  "(\<And>r. P (Http (request_for c ''POST'' (claim_path g) None) r)) \<Longrightarrow> emits P (ClaimDefinition env c g)"
  "(\<And>r. P (Http (request_for c ''POST'' (certificate_path g) None) r)) \<Longrightarrow> emits P (IssueAgentCertificate env c g)"
  "(\<And>r. P (Http (request_for c ''POST'' (provisioning_path g) (Some (provisioningStateReport ep st))) r))
     \<Longrightarrow> emits P (ReportProvisioningState env c g ep st)"
  "(\<And>r. P (Http (request_for c ''POST'' ''/identity/certificate'' None) r)) \<Longrightarrow> emits P (RenewIdentity env c)"
  "(\<And>r. P (Http (request_for c ''POST'' ''/enrollment'' (Some (enrollment tok (req_RequestPEM q)))) r))
     \<Longrightarrow> emits P (Enroll env c tok q)"
  by (auto simp: ListDefinitions_def ClaimDefinition_def IssueAgentCertificate_def
      ReportProvisioningState_def RenewIdentity_def Enroll_def intro!: emits_intros emits_send)

subsection \<open>What the definitions garam answers carry\<close>

definition int64_range :: "int \<Rightarrow> bool" where
  "int64_range i \<longleftrightarrow> - (2 ^ 63) \<le> i \<and> i < 2 ^ 63"

lemma dec_field_int64: "int64_range i \<Longrightarrow> dec_field dec_int64 i vs = Inr j \<Longrightarrow> int64_range j"
  by (rule dec_field_invariant [where P = int64_range and dec = dec_int64 and vs = vs])
    (auto simp: int64_range_def dest: dec_int64_range)

lemma dec_claim_pointer_range:
  "pred_option (\<lambda>c. int64_range (cp_Epoch c)) old \<Longrightarrow> dec_claim_pointer old v = Inr new
     \<Longrightarrow> pred_option (\<lambda>c. int64_range (cp_Epoch c)) new"
  by (cases v) (auto simp: dec_claim_fields_def int64_range_def split: sum.splits option.splits
      dest!: dec_field_int64 [unfolded int64_range_def, rotated])

definition definitionPayload_wf :: "definitionPayload \<Rightarrow> bool" where
  "definitionPayload_wf p \<longleftrightarrow> gomap_wf (dp_Values p) \<and> pred_option (\<lambda>c. int64_range (cp_Epoch c)) (dp_Claim p)"

lemma dec_definition_fields_wf:
  assumes "dec_definition_fields kvs = Inr p"
  shows "definitionPayload_wf p"
proof -
  have "gomap_wf m" if "dec_field dec_string_map [] vs = Inr m" for vs m
    using that by (rule dec_field_invariant [where P = gomap_wf, rotated 2]) (auto dest: dec_string_map_wf)
  moreover have "pred_option (\<lambda>c. int64_range (cp_Epoch c)) x"
    if "dec_field dec_claim_pointer None vs = Inr x" for vs x
    using that
    by (rule dec_field_invariant [where P = "pred_option (\<lambda>c. int64_range (cp_Epoch c))", rotated 2])
      (auto dest: dec_claim_pointer_range)
  ultimately show ?thesis
    using assms by (auto simp: definitionPayload_wf_def dec_definition_fields_def split: sum.splits)
qed

lemma dec_elements_all: "dec_elements dec vs = Inr xs \<Longrightarrow> x \<in> set xs \<Longrightarrow> \<exists>v\<in>set vs. dec v = Inr x"
  by (induction vs arbitrary: xs) (auto split: sum.splits)

lemma definitions_of_all: "definitions_of ps = Inr ds \<Longrightarrow> d \<in> set ds \<Longrightarrow> \<exists>p\<in>set ps. payload_definition p = Inr d"
  by (induction ps arbitrary: ds) (auto split: sum.splits)

lemma payload_definition_wf:
  assumes "definitionPayload_wf p" and "payload_definition p = Inr d"
  shows "def_Agent d \<noteq> [] \<and> gomap_wf (Pins (def_Tools d)) \<and> [] \<notin> fst ` set (Pins (def_Tools d))
    \<and> sorted (def_Ignored d)
    \<and> (\<forall>cl. def_Claim d = Some cl \<longrightarrow> 1 \<le> claim_Epoch cl \<and> int64_range (claim_Epoch cl))"
proof -
  obtain tools ignored where rv: "readValues (dp_Values p) = (tools, ignored)" by fastforce
  have dist: "distinct (map fst (dp_Values p))"
    using assms(1) by (simp add: definitionPayload_wf_def gomap_wf_distinct)
  have sel: "gomap_wf (Pins tools)" "sorted ignored" "tools = \<lparr>Pins = pins_of (dp_Values p)\<rparr>"
    using rv by (auto simp: readValues_eq pins_of_wf)
  have "map_of (Pins tools) [] = None"
    by (simp add: sel(3) map_of_pins_of dist)
  then have "[] \<notin> fst ` set (Pins tools)" by (simp add: map_of_eq_None_iff)
  with sel show ?thesis
    using assms rv by (auto simp: payload_definition_def definitionPayload_wf_def split: if_splits option.splits)
qed


lemma dec_definitions_wf:
  assumes "into (dec_slice (dec_struct dec_definition_fields)) b = Inr ps" and "p \<in> set ps"
  shows "definitionPayload_wf p"
proof -
  obtain v where "dec_slice (dec_struct dec_definition_fields) v = Inr ps"
    using assms(1) by (cases b) (auto simp: into_def split: sum.splits)
  then obtain w where "dec_struct dec_definition_fields w = Inr p"
    using assms(2) by (cases v) (auto dest: dec_elements_all)
  then show ?thesis by (cases w) (auto intro: dec_definition_fields_wf)
qed

subsection \<open>A concrete client and answer\<close>

definition demo_client :: Client where
  "demo_client = NewClient ''garam:8443''
     \<lparr>tls_MinVersion = 772, tls_RootCAs = [], tls_ClientCertificateFiles = None\<rparr>"

lemma foreign_errors_answering: "foreign_errors (refusing_env\<lparr>httpDo := answering st b\<rparr>)"
  by (simp add: foreign_errors_def concrete_world)

lemmas demo_answers = run_simps run_send Let_def concrete_world read_response_def refusalFrom_def
  refused_with_def

definition demo_credential :: json where
  "demo_credential = JObj [(''certificatePem'', JStr ''c''), (''privateKeyPem'', JStr ''k''),
     (''issuerPem'', JStr ''i''), (''serverRootPem'', JStr ''r''), (''notAfter'', JStr ''t'')]"

lemma demo_credential_decodes:
  "dec_struct (dec_agentCredential_fields (\<lambda>s. Inr 7)) demo_credential = Inr
     \<lparr>acp_CertificatePEM = ''c'', acp_PrivateKeyPEM = ''k'', acp_IssuerPEM = ''i'',
      acp_ServerRootPEM = ''r'', acp_NotAfter = 7\<rparr>"
  by code_simp

definition demo_definition :: json where
  "demo_definition = JObj [(''agentGrn'', JStr ''grn:a''),
     (''values'', JObj [(''tools.pins.grep'', JStr ''sha256:1''), (''note'', JStr ''x'')]),
     (''Claim'', JObj [(''epoch'', JInt 3)])]"
lemma demo_definition_decodes:
  "dec_struct dec_definition_fields demo_definition = Inr
     \<lparr>dp_AgentGRN = ''grn:a'', dp_Values = [(''note'', ''x''), (''tools.pins.grep'', ''sha256:1'')],
      dp_Claim = Some \<lparr>cp_Epoch = 3\<rparr>\<rparr>"
  by code_simp
lemma demo_definition_reads:
  "payload_definition \<lparr>dp_AgentGRN = ''grn:a'', dp_Values = [(''note'', ''x''), (''tools.pins.grep'', ''sha256:1'')],
      dp_Claim = Some \<lparr>cp_Epoch = 3\<rparr>\<rparr> = Inr \<lparr>def_Agent = ''grn:a'', def_Tools = \<lparr>Pins = [(''grep'', ''sha256:1'')]\<rparr>,
       def_Ignored = [''note''], def_Claim = Some \<lparr>claim_Epoch = 3\<rparr>\<rparr>"
  by code_simp

subsection \<open>Reading a route back\<close>

text \<open>
  The router at the other end: it cuts a path at its slashes and undoes the escaping of the segment
  that names an agent. \<open>path_unescape\<close> is \<^verbatim>\<open>url.PathUnescape\<close>, the reading RFC 3986 gives the text.
\<close>

definition unhex :: "char \<Rightarrow> nat option" where
  "unhex c =
     (let n = of_char c in
      if 48 \<le> n \<and> n \<le> 57 then Some (n - 48)
      else if 65 \<le> n \<and> n \<le> 70 then Some (n - 55)
      else if 97 \<le> n \<and> n \<le> 102 then Some (n - 87)
      else None)"

fun path_unescape :: "string \<Rightarrow> string option" where
  "path_unescape [] = Some []"
| "path_unescape (c # cs) =
     (if c = CHR ''%'' then
        (case cs of
           x # y # rest \<Rightarrow>
             (case (unhex x, unhex y) of
                (Some m, Some n) \<Rightarrow> map_option (Cons (char_of (16 * m + n))) (path_unescape rest)
              | _ \<Rightarrow> None)
         | _ \<Rightarrow> None)
      else map_option (Cons c) (path_unescape cs))"

datatype route = ClaimRoute GRN | CertificateRoute GRN | ProvisioningRoute GRN

fun segments :: "string \<Rightarrow> string list" where
  "segments [] = [[]]"
| "segments (c # cs) =
     (if c = CHR ''/'' then [] # segments cs
      else case segments cs of [] \<Rightarrow> [[c]] | s # ss \<Rightarrow> (c # s) # ss)"

definition read_route :: "string \<Rightarrow> route option" where
  "read_route path =
     (case segments path of
        [root, collection, agent, action] \<Rightarrow>
          (case path_unescape agent of
             None \<Rightarrow> None
           | Some g \<Rightarrow>
               if root \<noteq> [] then None
               else if collection = ''definitions'' \<and> action = ''claim'' then Some (ClaimRoute g)
               else if collection = ''agents'' \<and> action = ''certificate'' then Some (CertificateRoute g)
               else if collection = ''agents'' \<and> action = ''provisioning-state'' then Some (ProvisioningRoute g)
               else None)
      | _ \<Rightarrow> None)"

lemma unhex_hex_digit_upper: "unhex (hex_digit_upper n) = Some (n mod 16)"
proof -
  have "\<forall>k\<in>set [0..<16]. unhex (''0123456789ABCDEF'' ! k) = Some k" by code_simp
  moreover have "n mod 16 \<in> set [0..<16]" by simp
  ultimately show ?thesis unfolding hex_digit_upper_def by blast
qed

lemma path_unescape_char:
  "path_unescape (escape_char c @ s) = map_option (Cons c) (path_unescape s)"
proof (cases "path_unescaped c")
  case True
  then have "c \<noteq> CHR ''%''" by (auto simp: path_unescaped_def less_eq_char_def)
  then show ?thesis using True by (simp add: escape_char_def)
next
  case False
  have "(of_char c :: nat) div 16 < 16"
    using nat_of_char_less_256 [of c] by (simp add: less_mult_imp_div_less)
  then have "16 * (of_char c div 16 mod 16) + of_char c mod 16 = (of_char c :: nat)" by simp
  then show ?thesis using False
    by (simp add: escape_char_def unhex_hex_digit_upper)
qed

lemma path_unescape_escape: "path_unescape (path_escape s) = Some s"
  by (induction s) (simp_all add: path_escape_def path_unescape_char)

lemma segments_cut: "CHR ''/'' \<notin> set a \<Longrightarrow> segments (a @ CHR ''/'' # path) = a # segments path"
  by (induction a) auto

lemma segments_last: "CHR ''/'' \<notin> set a \<Longrightarrow> segments a = [a]"
  by (induction a) auto

lemma segments_of_route:
  assumes "CHR ''/'' \<notin> set a" and "CHR ''/'' \<notin> set b" and "CHR ''/'' \<notin> set c"
  shows "segments (CHR ''/'' # a @ CHR ''/'' # b @ CHR ''/'' # c) = [[], a, b, c]"
  using assms segments_cut [of "[]"] by (simp add: segments_cut segments_last)

subsection \<open>Properties\<close>

text \<open>C29: A route names its agent: whatever bytes a GRN holds, slashes and percent signs included, cutting the
  path at its slashes and undoing the escaping reads back the route and exactly that GRN. So two agents
  share no route and no agent's name reaches another route.\<close>

theorem agent_routes_roundtrip:
  "read_route (claim_path g) = Some (ClaimRoute g)
   \<and> read_route (certificate_path g) = Some (CertificateRoute g)
   \<and> read_route (provisioning_path g) = Some (ProvisioningRoute g)"
proof -
  have "segments (claim_path g) = [[], ''definitions'', path_escape g, ''claim'']"
    "segments (certificate_path g) = [[], ''agents'', path_escape g, ''certificate'']"
    "segments (provisioning_path g) = [[], ''agents'', path_escape g, ''provisioning-state'']"
    using segments_of_route [of "''definitions''" "path_escape g" "''claim''"]
      segments_of_route [of "''agents''" "path_escape g" "''certificate''"]
      segments_of_route [of "''agents''" "path_escape g" "''provisioning-state''"]
    by (simp_all add: claim_path_def certificate_path_def provisioning_path_def path_escape_no_slash)
  then show ?thesis by (simp add: read_route_def path_unescape_escape)
qed

text \<open>Reading a definition's values selects exactly the keys \<^verbatim>\<open>tools.pins.<name>\<close> with a non-empty
  name: each such pin is in the tool set under its tool's name with its string, the tool set holds
  nothing else, and the names of all the other keys, sorted, are what is ignored.\<close>

theorem readValues_selects:
  assumes "distinct (map fst vs)" and "readValues vs = (tools, ignored)"
  shows "gomap_wf (Pins tools)
    \<and> (\<forall>name. map_of (Pins tools) name = (if name = [] then None else map_of vs (toolPinPrefix @ name)))
    \<and> sorted ignored
    \<and> (\<forall>k. k \<in> set ignored \<longleftrightarrow> k \<in> fst ` set vs \<and> (\<forall>name. name \<noteq> [] \<longrightarrow> k \<noteq> toolPinPrefix @ name))"
proof -
  have "ignored = sort (map fst (filter (\<lambda>e. \<not> pin_key (fst e)) vs))"
    using assms(2) by (simp add: readValues_eq)
  then have "k \<in> set ignored \<longleftrightarrow> k \<in> fst ` set vs \<and> \<not> pin_key k" for k
    by (simp only: set_sort set_map set_filter mem_Collect_eq
        image_filter_fst [of vs "\<lambda>k. \<not> pin_key k"])
  moreover have "\<not> pin_key k \<longleftrightarrow> (\<forall>name. name \<noteq> [] \<longrightarrow> k \<noteq> toolPinPrefix @ name)" for k
    by (auto simp: pin_key_def prefix_def)
  moreover have "tools = \<lparr>Pins = pins_of vs\<rparr>" and "sorted ignored"
    using assms(2) by (auto simp: readValues_eq)
  ultimately show ?thesis
    by (simp add: pins_of_wf map_of_pins_of [OF assms(1)])
qed

theorem readValues_selects_witness:
  "gomap_wf (Pins (fst (readValues [(''tools.pins.b'', ''2''), (''x'', ''3''), (''tools.pins.'', ''4'')])))
   \<and> readValues [(''tools.pins.b'', ''2''), (''x'', ''3''), (''tools.pins.'', ''4'')]
     = (\<lparr>Pins = [(''b'', ''2'')]\<rparr>, [''tools.pins.'', ''x''])"
proof -
  have "readValues [(''tools.pins.b'', ''2''), (''x'', ''3''), (''tools.pins.'', ''4'')]
      = (\<lparr>Pins = [(''b'', ''2'')]\<rparr>, [''tools.pins.'', ''x''])" by code_simp
  note reads = this
  from readValues_selects [OF _ reads] reads show ?thesis by simp
qed

text \<open>What a definition's values are read as does not depend on the order Go iterates the map in, so
  one answer of garam's is one tool set and one report of ignored keys on every pass.\<close>

theorem readValues_order_irrelevant:
  assumes "distinct (map fst xs)" and "mset xs = mset ys"
  shows "readValues xs = readValues ys"
proof -
  have ys: "distinct (map fst ys)"
    using assms by (metis mset_eq_imp_distinct_iff mset_map)
  have "map_of xs = map_of ys"
    using assms ys by (metis map_of_inject_set mset_eq_setD)
  then have "pins_of xs = pins_of ys"
    by (intro gomap_eqI) (auto simp: pins_of_wf map_of_pins_of assms(1) ys fun_eq_iff)
  moreover have "sort (map fst (filter (\<lambda>e. \<not> pin_key (fst e)) xs))
      = sort (map fst (filter (\<lambda>e. \<not> pin_key (fst e)) ys))"
    using assms(2) by (intro sort_mset_cong) simp
  ultimately show ?thesis by (simp add: readValues_eq)
qed

theorem readValues_order_irrelevant_witness:
  "readValues [(''tools.pins.b'', ''2''), (''x'', ''3'')] = readValues [(''x'', ''3''), (''tools.pins.b'', ''2'')]"
  by (rule readValues_order_irrelevant) simp_all

text \<open>The strings beside the keys this operator holds no contract for reach nothing: changing every one
  of them changes neither the tool set nor what is reported as ignored.\<close>

theorem readValues_ignored_strings:
  "readValues (map (\<lambda>(k, v). (k, if pin_key k then v else f k)) vs) = readValues vs"
proof -
  have "pin_entries (map (\<lambda>(k, v). (k, if pin_key k then v else f k)) vs) = pin_entries vs"
    by (induction vs) (auto simp: pin_entries_def)
  moreover have "map fst (filter (\<lambda>e. \<not> pin_key (fst e))
        (map (\<lambda>(k, v). (k, if pin_key k then v else f k)) vs))
      = map fst (filter (\<lambda>e. \<not> pin_key (fst e)) vs)"
    by (induction vs) auto
  ultimately show ?thesis by (simp add: readValues_eq pins_of_def)
qed

text \<open>C28: Every definition a successful read returns names an agent, carries a well-formed pin map with no
  unnamed tool and a sorted list of ignored keys, and where it is claimed the epoch is at least 1 and
  fits an \<^verbatim>\<open>int64\<close>.\<close>

theorem ListDefinitions_wf:
  assumes "run_state (ListDefinitions env c) h = (Inr ds, h')" and "d \<in> set ds"
  shows "def_Agent d \<noteq> [] \<and> gomap_wf (Pins (def_Tools d)) \<and> [] \<notin> fst ` set (Pins (def_Tools d))
    \<and> sorted (def_Ignored d)
    \<and> (\<forall>cl. def_Claim d = Some cl \<longrightarrow> 1 \<le> claim_Epoch cl \<and> int64_range (claim_Epoch cl))"
proof -
  obtain b ps where "into (dec_slice (dec_struct dec_definition_fields)) b = Inr ps"
    and "definitions_of ps = Inr ds"
    using assms(1)
    by (auto simp: ListDefinitions_def run_simps run_send Let_def read_response_def
        split: option.splits sum.splits if_splits)
  then show ?thesis
    using assms(2) by (meson definitions_of_all dec_definitions_wf payload_definition_wf)
qed

theorem ListDefinitions_wf_witness:
  "\<exists>env t d. run_state (ListDefinitions env demo_client) [] = (Inr [d], t)
     \<and> def_Agent d \<noteq> [] \<and> gomap_wf (Pins (def_Tools d)) \<and> sorted (def_Ignored d)"
proof -
  let ?env = "refusing_env\<lparr>httpDo := answering 200 (Document (JArr [demo_definition]))\<rparr>"
  let ?m = "ListDefinitions ?env demo_client"
  have run: "run_state ?m [] = (Inr
      [\<lparr>def_Agent = ''grn:a'', def_Tools = \<lparr>Pins = [(''grep'', ''sha256:1'')]\<rparr>,
        def_Ignored = [''note''], def_Claim = Some \<lparr>claim_Epoch = 3\<rparr>\<rparr>], snd (run_state ?m []))"
    by (simp add: ListDefinitions_def demo_answers into_def demo_definition_decodes demo_definition_reads)
  from ListDefinitions_wf [OF run] run show ?thesis by (metis list.set_intros(1))
qed

text \<open>An agent's credential the client returns is whole: garam's answer is refused unless all four PEMs
  are there and it names an expiry.\<close>

theorem IssueAgentCertificate_complete:
  assumes "run_state (IssueAgentCertificate env c agent) h = (Inr cred, h')"
  shows "ac_CertificatePEM cred \<noteq> [] \<and> ac_KeyPEM cred \<noteq> [] \<and> ac_IssuerPEM cred \<noteq> []
    \<and> ac_ServerRootPEM cred \<noteq> [] \<and> \<not> IsZero (ac_NotAfter cred)"
  using assms
  by (auto simp: IssueAgentCertificate_def run_simps payload_agentCredential_def
      split: prod.splits sum.splits if_splits)

theorem IssueAgentCertificate_complete_witness:
  "ac_KeyPEM \<lparr>ac_CertificatePEM = ''c'', ac_KeyPEM = ''k'', ac_IssuerPEM = ''i'',
      ac_ServerRootPEM = ''r'', ac_NotAfter = 7\<rparr> \<noteq> []"
proof -
  let ?env = "refusing_env\<lparr>httpDo := answering 200 (Document demo_credential), parseTime := (\<lambda>s. Inr 7)\<rparr>"
  let ?m = "IssueAgentCertificate ?env demo_client ''a''"
  have "run_state ?m [] = (Inr \<lparr>ac_CertificatePEM = ''c'', ac_KeyPEM = ''k'', ac_IssuerPEM = ''i'',
      ac_ServerRootPEM = ''r'', ac_NotAfter = 7\<rparr>, snd (run_state ?m []))"
    by (simp add: IssueAgentCertificate_def demo_answers demo_credential_decodes into_def
        payload_agentCredential_def IsZero_def)
  from IssueAgentCertificate_complete [OF this] show ?thesis by simp
qed

text \<open>A claim answers \<^verbatim>\<open>ErrClaimConflict\<close> exactly when garam refused it with status 409.\<close>

theorem ClaimDefinition_conflict:
  assumes "foreign_errors env" and "run_state (ClaimDefinition env c agent) h = (Inl e, h')"
  shows "errors_Is e ErrClaimConflict \<longleftrightarrow>
    (\<exists>x. garam_refused env h (request_for c ''POST'' (claim_path agent) None) x \<and> ref_status x = 409)"
proof -
  obtain r t where r: "run_state (send env c ''POST'' (claim_path agent) None
      (into (dec_struct dec_assignment_fields))) h = (r, t)" by fastforce
  have "foreign (into (dec_struct dec_assignment_fields))" by (intro route_rules)
  from send_cases [OF assms(1) this r] show ?thesis
    using assms(2) r
    by cases (auto simp: ClaimDefinition_def route_simps split: if_splits
        dest: garam_refused_unique payload_errors)
qed

theorem ClaimDefinition_conflict_witness:
  "\<exists>x. garam_refused (refusing_env\<lparr>httpDo := answering 409 (NotJson [])\<rparr>) []
       (request_for demo_client ''POST'' (claim_path ''a'') None) x \<and> ref_status x = 409"
proof -
  let ?env = "refusing_env\<lparr>httpDo := answering 409 (NotJson [])\<rparr>"
  let ?m = "ClaimDefinition ?env demo_client ''a''"
  have "run_state ?m [] = (Inl (Wrapped ''claim a'' ErrClaimConflict), snd (run_state ?m []))"
    by (simp add: ClaimDefinition_def demo_answers)
  from ClaimDefinition_conflict [OF foreign_errors_answering this] show ?thesis by simp
qed

text \<open>A certificate request answers \<^verbatim>\<open>ErrAgentNotHeld\<close> exactly when garam refused it with status 403.\<close>

theorem IssueAgentCertificate_not_held:
  assumes "foreign_errors env" and "run_state (IssueAgentCertificate env c agent) h = (Inl e, h')"
  shows "errors_Is e ErrAgentNotHeld \<longleftrightarrow>
    (\<exists>x. garam_refused env h (request_for c ''POST'' (certificate_path agent) None) x
       \<and> ref_status x = 403)"
proof -
  let ?out = "into (dec_struct (dec_agentCredential_fields (parseTime env)))"
  obtain r t where r: "run_state (send env c ''POST'' (certificate_path agent) None ?out) h = (r, t)"
    by fastforce
  have "foreign ?out" by (intro route_rules assms(1))
  from send_cases [OF assms(1) this r] show ?thesis
    using assms(2) r
    by cases (auto simp: IssueAgentCertificate_def route_simps split: if_splits
        dest: garam_refused_unique payload_errors)
qed

theorem IssueAgentCertificate_not_held_witness:
  "\<exists>x. garam_refused (refusing_env\<lparr>httpDo := answering 403 (NotJson [])\<rparr>) []
       (request_for demo_client ''POST'' (certificate_path ''a'') None) x \<and> ref_status x = 403"
proof -
  let ?env = "refusing_env\<lparr>httpDo := answering 403 (NotJson [])\<rparr>"
  let ?m = "IssueAgentCertificate ?env demo_client ''a''"
  have "run_state ?m [] = (Inl (Wrapped ''issue a certificate for a'' ErrAgentNotHeld), snd (run_state ?m []))"
    by (simp add: IssueAgentCertificate_def demo_answers)
  from IssueAgentCertificate_not_held [OF foreign_errors_answering this] show ?thesis by simp
qed

text \<open>A report answers \<^verbatim>\<open>ErrReportStale\<close> exactly when garam refused it with the kind
  \<^verbatim>\<open>failed_precondition\<close>, whatever the status, and \<^verbatim>\<open>ErrAgentNotHeld\<close> exactly when it refused it
  with status 403 and another kind.\<close>

theorem ReportProvisioningState_errors:
  assumes "foreign_errors env"
    and "run_state (ReportProvisioningState env c agent epoch st) h = (Inl e, h')"
  shows "(errors_Is e ErrReportStale \<longleftrightarrow>
      (\<exists>x. garam_refused env h (request_for c ''POST'' (provisioning_path agent)
           (Some (provisioningStateReport epoch st))) x \<and> ref_kind x = kindFailedPrecondition))
    \<and> (errors_Is e ErrAgentNotHeld \<longleftrightarrow>
      (\<exists>x. garam_refused env h (request_for c ''POST'' (provisioning_path agent)
           (Some (provisioningStateReport epoch st))) x
         \<and> ref_kind x \<noteq> kindFailedPrecondition \<and> ref_status x = 403))"
proof -
  obtain r t where r: "run_state (send env c ''POST'' (provisioning_path agent)
      (Some (provisioningStateReport epoch st)) no_out) h = (r, t)" by fastforce
  show ?thesis
  proof (cases rule: send_cases [OF assms(1) foreign_no_out r])
    case (1 x e0)
    then show ?thesis using assms(2) r
      by (auto simp: ReportProvisioningState_def route_simps split: if_splits
          dest: garam_refused_unique)
  qed (use assms(2) r in \<open>auto simp: ReportProvisioningState_def route_simps\<close>)
qed

theorem ReportProvisioningState_errors_witness:
  "errors_Is (Wrapped ''report a at epoch 1'' ErrAgentNotHeld) ErrAgentNotHeld
   \<and> (\<exists>x. garam_refused (refusing_env\<lparr>httpDo := answering 403 (NotJson [])\<rparr>) []
         (request_for demo_client ''POST'' (provisioning_path ''a'')
            (Some (provisioningStateReport 1 StateReady))) x \<and> ref_status x = 403)"
proof -
  let ?env = "refusing_env\<lparr>httpDo := answering 403 (NotJson [])\<rparr>"
  let ?m = "ReportProvisioningState ?env demo_client ''a'' 1 StateReady"
  have "itoa 1 = ''1''" by code_simp
  then have "run_state ?m [] = (Inl (Wrapped ''report a at epoch 1'' ErrAgentNotHeld), snd (run_state ?m []))"
    by (simp add: ReportProvisioningState_def kindFailedPrecondition_def demo_answers)
  from ReportProvisioningState_errors [OF foreign_errors_answering this] show ?thesis by auto
qed

text \<open>A renewal answers \<^verbatim>\<open>ErrRenewalTooEarly\<close> exactly when garam refused it with the kind
  \<^verbatim>\<open>failed_precondition\<close> and \<^verbatim>\<open>ErrCredentialSuperseded\<close> exactly when with \<^verbatim>\<open>already_exists\<close>; the two
  arrive under one status and ask for opposite things.\<close>

theorem RenewIdentity_errors:
  assumes "foreign_errors env" and "run_state (RenewIdentity env c) h = (Inl e, h')"
  shows "(errors_Is e ErrRenewalTooEarly \<longleftrightarrow>
      (\<exists>x. garam_refused env h (request_for c ''POST'' ''/identity/certificate'' None) x
         \<and> ref_kind x = kindFailedPrecondition))
    \<and> (errors_Is e ErrCredentialSuperseded \<longleftrightarrow>
      (\<exists>x. garam_refused env h (request_for c ''POST'' ''/identity/certificate'' None) x
         \<and> ref_kind x = kindAlreadyExists))"
proof -
  let ?out = "into (dec_struct dec_credential_fields)"
  obtain r t where r: "run_state (send env c ''POST'' ''/identity/certificate'' None ?out) h = (r, t)"
    by fastforce
  have f: "foreign ?out" by (intro route_rules)
  show ?thesis
  proof (cases rule: send_cases [OF assms(1) f r])
    case (1 x e0)
    then show ?thesis using assms(2) r
      by (auto simp: RenewIdentity_def route_simps kindAlreadyExists_def kindFailedPrecondition_def
          split: if_splits dest: garam_refused_unique)
  qed (use assms(2) r in \<open>auto simp: RenewIdentity_def route_simps dest: payload_errors\<close>)
qed

theorem RenewIdentity_errors_witness:
  "\<exists>x. garam_refused
       (refusing_env\<lparr>httpDo := answering 409 (Document (JObj [(''kind'', JStr ''already_exists'')]))\<rparr>) []
       (request_for demo_client ''POST'' ''/identity/certificate'' None) x
     \<and> ref_kind x = kindAlreadyExists"
proof -
  let ?kind = "JObj [(''kind'', JStr ''already_exists'')]"
  let ?env = "refusing_env\<lparr>httpDo := answering 409 (Document ?kind)\<rparr>"
  have "dec_struct dec_refusal_fields ?kind = Inr (''already_exists'', [])" by code_simp
  then have "run_state (RenewIdentity ?env demo_client) []
      = (Inl (Wrapped ''renew the certificate this operator authenticates with'' ErrCredentialSuperseded),
         snd (run_state (RenewIdentity ?env demo_client) []))"
    by (simp add: RenewIdentity_def kindFailedPrecondition_def kindAlreadyExists_def demo_answers)
  from RenewIdentity_errors [OF foreign_errors_answering this] show ?thesis by simp
qed

text \<open>An enrollment answers \<^verbatim>\<open>ErrTokenNotUsable\<close> exactly when the request's own signature checked out,
  so that it was sent, and garam refused it with status 401.\<close>

theorem Enroll_token_not_usable:
  assumes "foreign_errors env" and "run_state (Enroll env c token request) h = (Inl e, h')"
  shows "errors_Is e ErrTokenNotUsable \<longleftrightarrow>
    checkSignature env request = None
    \<and> (\<exists>x. garam_refused env h
          (request_for c ''POST'' ''/enrollment'' (Some (enrollment token (req_RequestPEM request)))) x
        \<and> ref_status x = 401)"
proof (cases "checkSignature env request")
  case None
  let ?out = "into (dec_struct (dec_enrolledCertificate_fields (parseTime env)))"
  obtain r t where r: "run_state (send env c ''POST'' ''/enrollment''
      (Some (enrollment token (req_RequestPEM request))) ?out) h = (r, t)" by fastforce
  have "foreign ?out" by (intro route_rules assms(1))
  from send_cases [OF assms(1) this r] show ?thesis
    using assms(2) r None
    by cases (auto simp: Enroll_def route_simps split: if_splits
        dest: garam_refused_unique payload_errors)
next
  case (Some e0)
  then have "\<not> errors_Is e0 ErrTokenNotUsable"
    using checkSignature_no_sentinel [OF assms(1)] by (auto simp: sentinels_def)
  with Some assms(2) show ?thesis by (auto simp: Enroll_def route_simps)
qed

theorem Enroll_token_not_usable_witness:
  "\<exists>x. garam_refused (refusing_env\<lparr>httpDo := answering 401 (NotJson []),
         pemDecode := (\<lambda>s. Some (\<lparr>pb_Type = [], pb_Bytes = s\<rparr>, []))\<rparr>) []
       (request_for demo_client ''POST'' ''/enrollment'' (Some (enrollment ''t'' ''csr''))) x
     \<and> ref_status x = 401"
proof -
  let ?env = "refusing_env\<lparr>httpDo := answering 401 (NotJson []),
    pemDecode := (\<lambda>s. Some (\<lparr>pb_Type = [], pb_Bytes = s\<rparr>, []))\<rparr>"
  let ?m = "Enroll ?env demo_client ''t'' \<lparr>req_RequestPEM = ''csr'', req_KeyPEM = ''key''\<rparr>"
  have f: "foreign_errors ?env" by (simp add: foreign_errors_def concrete_world)
  have "run_state ?m [] = (Inl (Wrapped ''enroll this operator'' ErrTokenNotUsable), snd (run_state ?m []))"
    by (simp add: Enroll_def checkSignature_def demo_answers)
  from Enroll_token_not_usable [OF f this] show ?thesis by simp
qed

end
