(* ===== verification/Constructor.thy ===== *)
theory Constructor
  imports World
begin

text \<open>
  Building the agents garam assigned (\<^verbatim>\<open>src/internal/garam/constructor/agent.go\<close>) and reading them
  back (\<^verbatim>\<open>observation.go\<close>), behind the interfaces \<^verbatim>\<open>garam.Constructor\<close> and \<^verbatim>\<open>garam.Observer\<close>
  (\<^verbatim>\<open>src/internal/garam/constructor.go\<close>, \<^verbatim>\<open>observer.go\<close>). An interface is a record of operations.
  The locale \<open>constructor_contract\<close> states what the poller relies on; its interpretation below
  discharges it for this package's \<^verbatim>\<open>Agent\<close>. The reporter's contract is in theory \<open>Reporter\<close>.
\<close>

subsection \<open>The interfaces\<close>

record Constructor =
  HasCredential :: "GRN \<Rightarrow> (history, error + bool) state"
  Construct :: "Definition \<Rightarrow> int \<Rightarrow> AgentCredential \<Rightarrow> (history, error + unit) state"
  CorrectImage :: "GRN \<Rightarrow> (history, error + bool) state"

type_synonym Observer = "(history, error + Observation list) state"

subsection \<open>Names\<close>

definition CertificateKey :: string where
  "CertificateKey = ''certificate.pem''"

definition KeyKey :: string where
  "KeyKey = ''key.pem''"

definition IssuerKey :: string where
  "IssuerKey = ''issuer.pem''"

definition ServerRootKey :: string where
  "ServerRootKey = ''server-root.pem''"

definition credentialsSecretSuffix :: string where
  "credentialsSecretSuffix = ''-credentials''"

text \<open>The constructor's own configuration; its client and its scheme are the world's.\<close>

record AgentConstructor =
  ctor_namespace :: string
  ctor_image :: string
  ctor_storageSize :: quantity

definition NewAgent :: "string \<Rightarrow> string \<Rightarrow> quantity \<Rightarrow> AgentConstructor" where
  "NewAgent ns img storageSize =
     \<lparr>ctor_namespace = ns, ctor_image = img, ctor_storageSize = storageSize\<rparr>"

definition Name :: "GRN \<Rightarrow> string" where
  "Name agent = ''agent-'' @ hex_encode (take 8 (sha256 agent))"

definition credentialsKey :: "AgentConstructor \<Rightarrow> GRN \<Rightarrow> object_key" where
  "credentialsKey a agent = (ctor_namespace a, Name agent @ credentialsSecretSuffix)"

subsection \<open>HasCredential\<close>

definition Agent_HasCredential :: "env \<Rightarrow> AgentConstructor \<Rightarrow> GRN \<Rightarrow> (history, error + bool) state" where
  "Agent_HasCredential env a agent = do {
     r \<leftarrow> call (\<lambda>h. getSecretMeta env h (credentialsKey a agent))
            (GetSecretMeta (credentialsKey a agent));
     State_Monad.return
       (case r of
          Inl e \<Rightarrow>
            if IsNotFound e then Inr False
            else Inl (Wrapped (''get the credentials secret for '' @ agent) e)
        | Inr u \<Rightarrow> Inr True)
   }"

subsection \<open>Construct\<close>

definition constructed_spec :: "AgentConstructor \<Rightarrow> Definition \<Rightarrow> AgentSpec" where
  "constructed_spec a d =
     \<lparr>as_Image = ctor_image a,
      as_CredentialsSecretName = Name (def_Agent d) @ credentialsSecretSuffix,
      as_StorageSize = ctor_storageSize a, as_StorageClassName = None, as_Resources = [],
      as_Tools = \<lparr>ats_Pins = Pins (def_Tools d)\<rparr>\<rparr>"

definition constructed_agent :: "AgentConstructor \<Rightarrow> Definition \<Rightarrow> Agent" where
  "constructed_agent a d =
     \<lparr>ag_Meta = object_meta (ctor_namespace a) (Name (def_Agent d)),
      ag_Spec = constructed_spec a d, ag_Status = empty_status\<rparr>"

definition status_patch :: "GRN \<Rightarrow> int \<Rightarrow> json" where
  "status_patch agent epoch =
     JObj [(''status'', JObj [(''agent'', JStr agent), (''epoch'', JInt epoch)])]"

text \<open>Create the Agent, or read the one that is there already.\<close>

definition createOrGetAgent :: "env \<Rightarrow> GRN \<Rightarrow> Agent \<Rightarrow> (history, error + Agent) state" where
  "createOrGetAgent env agent constructed = do {
     r \<leftarrow> call (\<lambda>h. createAgent env h constructed) (CreateAgent constructed);
     (case r of
        Inr created \<Rightarrow> State_Monad.return (Inr created)
      | Inl e \<Rightarrow>
          if IsAlreadyExists e then do {
            g \<leftarrow> call (\<lambda>h. getAgent env h (key_of (ag_Meta constructed)))
                   (GetAgent (key_of (ag_Meta constructed)));
            State_Monad.return
              (case g of
                 Inl e' \<Rightarrow> Inl (Wrapped (''get the agent constructed for '' @ agent) e')
               | Inr found \<Rightarrow> Inr found)
          }
          else State_Monad.return (Inl (Wrapped (''create the agent for '' @ agent) e)))
   }"

definition ensureAgent ::
  "env \<Rightarrow> AgentConstructor \<Rightarrow> Definition \<Rightarrow> int \<Rightarrow> (history, error + Agent) state" where
  "ensureAgent env a d epoch = do {
     r \<leftarrow> createOrGetAgent env (def_Agent d) (constructed_agent a d);
     (case r of
        Inl e \<Rightarrow> State_Monad.return (Inl e)
      | Inr constructed \<Rightarrow>
          if st_Agent (ag_Status constructed) = def_Agent d \<and> st_Epoch (ag_Status constructed) = epoch
          then State_Monad.return (Inr constructed)
          else do {
            p \<leftarrow> call (\<lambda>h. patchAgentStatus env h (key_of (ag_Meta constructed))
                                (status_patch (def_Agent d) epoch))
                   (PatchAgentStatus (key_of (ag_Meta constructed)) (status_patch (def_Agent d) epoch));
            State_Monad.return
              (case p of
                 Inl e \<Rightarrow> Inl (Wrapped (''report '' @ def_Agent d @ '' on the agent constructed for it'') e)
               | Inr patched \<Rightarrow>
                   Inr (patched\<lparr>ag_Status := (ag_Status patched)\<lparr>st_Agent := def_Agent d, st_Epoch := epoch\<rparr>\<rparr>))
          })
   }"

definition credential_data :: "AgentCredential \<Rightarrow> (string, string) gomap" where
  "credential_data c =
     map_put ServerRootKey (ac_ServerRootPEM c) (map_put IssuerKey (ac_IssuerPEM c)
       (map_put KeyKey (ac_KeyPEM c) (map_put CertificateKey (ac_CertificatePEM c) [])))"

definition placeCredential :: "env \<Rightarrow> Agent \<Rightarrow> AgentCredential \<Rightarrow> (history, error + unit) state" where
  "placeCredential env constructed credential =
     (let meta = object_meta (om_Namespace (ag_Meta constructed))
                   (as_CredentialsSecretName (ag_Spec constructed)) in
      case setControllerReference env (ag_Meta constructed) meta of
        Inl e \<Rightarrow> State_Monad.return
          (Inl (Wrapped (''own the credentials secret for '' @ st_Agent (ag_Status constructed)) e))
      | Inr owned \<Rightarrow> do {
          r \<leftarrow> call (\<lambda>h. createSecret env h \<lparr>sec_Meta = owned, sec_Data = credential_data credential\<rparr>)
                 (CreateSecret \<lparr>sec_Meta = owned, sec_Data = credential_data credential\<rparr>);
          State_Monad.return
            (case r of
               Inl e \<Rightarrow>
                 if \<not> IsAlreadyExists e
                 then Inl (Wrapped (''place the credential for '' @ st_Agent (ag_Status constructed)) e)
                 else Inr ()
             | Inr u \<Rightarrow> Inr ())
        })"

definition Agent_Construct ::
  "env \<Rightarrow> AgentConstructor \<Rightarrow> Definition \<Rightarrow> int \<Rightarrow> AgentCredential \<Rightarrow> (history, error + unit) state" where
  "Agent_Construct env a d epoch credential = do {
     r \<leftarrow> ensureAgent env a d epoch;
     (case r of
        Inl e \<Rightarrow> State_Monad.return (Inl e)
      | Inr constructed \<Rightarrow> placeCredential env constructed credential)
   }"

subsection \<open>CorrectImage\<close>

definition image_patch :: "string \<Rightarrow> json" where
  "image_patch img = JObj [(''spec'', JObj [(''image'', JStr img)])]"

definition Agent_CorrectImage :: "env \<Rightarrow> AgentConstructor \<Rightarrow> GRN \<Rightarrow> (history, error + bool) state" where
  "Agent_CorrectImage env a agent = do {
     g \<leftarrow> call (\<lambda>h. getAgent env h (ctor_namespace a, Name agent))
            (GetAgent (ctor_namespace a, Name agent));
     (case g of
        Inl e \<Rightarrow>
          if IsNotFound e then State_Monad.return (Inr False)
          else State_Monad.return (Inl (Wrapped (''get the agent constructed for '' @ agent) e))
      | Inr constructed \<Rightarrow>
          if st_Agent (ag_Status constructed) \<noteq> agent then State_Monad.return (Inr False)
          else if as_Image (ag_Spec constructed) = ctor_image a then State_Monad.return (Inr False)
          else do {
            p \<leftarrow> call (\<lambda>h. patchAgent env h (key_of (ag_Meta constructed)) (image_patch (ctor_image a)))
                   (PatchAgent (key_of (ag_Meta constructed)) (image_patch (ctor_image a)));
            State_Monad.return
              (case p of
                 Inl e \<Rightarrow> Inl (Wrapped (''correct the image of the agent constructed for '' @ agent) e)
               | Inr patched \<Rightarrow> Inr True)
          })
   }"

definition agent_constructor :: "env \<Rightarrow> AgentConstructor \<Rightarrow> Constructor" where
  "agent_constructor env a =
     \<lparr>HasCredential = Agent_HasCredential env a, Construct = Agent_Construct env a,
      CorrectImage = Agent_CorrectImage env a\<rparr>"

subsection \<open>Observations\<close>

definition readiness :: "'a lib_scheme \<Rightarrow> Agent \<Rightarrow> Readiness" where
  "readiness lib constructed =
     (case findStatusCondition lib (st_Conditions (ag_Status constructed)) ConditionAvailable of
        None \<Rightarrow> ReadinessUnobserved
      | Some available \<Rightarrow>
          (case cond_Status available of
             ConditionTrue \<Rightarrow> ReadinessReplicaReady
           | ConditionFalse \<Rightarrow> ReadinessNoReplica
           | ConditionUnknown \<Rightarrow> ReadinessUnobserved
           | ConditionOther s \<Rightarrow> ReadinessUnobserved))"

fun observations_of :: "'a lib_scheme \<Rightarrow> Agent list \<Rightarrow> Observation list" where
  "observations_of lib [] = []"
| "observations_of lib (a # as) =
     (if st_Agent (ag_Status a) = [] \<or> st_Epoch (ag_Status a) = 0 then observations_of lib as
      else \<lparr>obs_Agent = st_Agent (ag_Status a), obs_Epoch = st_Epoch (ag_Status a),
            obs_Readiness = readiness lib a\<rparr> # observations_of lib as)"

definition Observations :: "env \<Rightarrow> AgentConstructor \<Rightarrow> Observer" where
  "Observations env a = do {
     r \<leftarrow> call (\<lambda>h. listAgents env h (ctor_namespace a)) (ListAgents (ctor_namespace a));
     State_Monad.return
       (case r of
          Inl e \<Rightarrow> Inl (Wrapped ''list the agents this operator constructed'' e)
        | Inr agents \<Rightarrow> Inr (observations_of env agents))
   }"

subsection \<open>The contract\<close>

locale constructor_contract =
  fixes ct :: Constructor
    and absent :: "GRN \<Rightarrow> event \<Rightarrow> bool"
  assumes has_credential_reads:
      "emits (\<lambda>e. \<not> is_http e \<and> \<not> is_kube_write e) (HasCredential ct agent)"
    and has_credential_absent:
      "run_state (HasCredential ct agent) h = (Inr False, h') \<Longrightarrow> \<exists>es e. h' = h @ es @ [e] \<and> absent agent e"
    and construct_local: "emits (\<lambda>e. \<not> is_http e) (Construct ct d epoch credential)"
    and correct_local: "emits (\<lambda>e. \<not> is_http e) (CorrectImage ct agent)"

definition secret_absent :: "AgentConstructor \<Rightarrow> GRN \<Rightarrow> event \<Rightarrow> bool" where
  "secret_absent a agent e \<longleftrightarrow>
     (\<exists>err. e = GetSecretMeta (credentialsKey a agent) (Inl err) \<and> IsNotFound err)"

interpretation built: constructor_contract "agent_constructor env a" "secret_absent a" for env a
proof unfold_locales
  fix agent h h' d epoch credential
  show "emits (\<lambda>e. \<not> is_http e \<and> \<not> is_kube_write e) (HasCredential (agent_constructor env a) agent)"
    by (auto simp: agent_constructor_def Agent_HasCredential_def intro!: emits_intros emits_call)
  show "\<exists>es e. h' = h @ es @ [e] \<and> secret_absent a agent e"
    if "run_state (HasCredential (agent_constructor env a) agent) h = (Inr False, h')"
    using that
    by (auto simp: agent_constructor_def Agent_HasCredential_def run_simps secret_absent_def
        split: sum.splits if_splits)
  show "emits (\<lambda>e. \<not> is_http e) (Construct (agent_constructor env a) d epoch credential)"
    by (auto simp: agent_constructor_def Agent_Construct_def ensureAgent_def createOrGetAgent_def
        placeCredential_def intro!: emits_intros emits_call)
  show "emits (\<lambda>e. \<not> is_http e) (CorrectImage (agent_constructor env a) agent)"
    by (auto simp: agent_constructor_def Agent_CorrectImage_def intro!: emits_intros emits_call)
qed

subsection \<open>What a construction appends\<close>

text \<open>A Secret is placed when it was created or was there already.\<close>

definition secret_placed :: "error + unit \<Rightarrow> bool" where
  "secret_placed r = (case r of Inl e \<Rightarrow> IsAlreadyExists e | Inr u \<Rightarrow> True)"

text \<open>
  The API server answered the Agent \<open>x\<close> whose status carries the agent and the epoch: it was read
  so, or it was patched so.
\<close>

fun recorded :: "GRN \<Rightarrow> int \<Rightarrow> Agent \<Rightarrow> event \<Rightarrow> bool" where
  "recorded g epoch x (CreateAgent c (Inr y)) \<longleftrightarrow>
     x = y \<and> st_Agent (ag_Status y) = g \<and> st_Epoch (ag_Status y) = epoch"
| "recorded g epoch x (GetAgent k (Inr y)) \<longleftrightarrow>
     x = y \<and> st_Agent (ag_Status y) = g \<and> st_Epoch (ag_Status y) = epoch"
| "recorded g epoch x (PatchAgentStatus k p (Inr y)) \<longleftrightarrow>
     ag_Meta x = ag_Meta y \<and> ag_Spec x = ag_Spec y \<and> p = status_patch g epoch"
| "recorded g epoch x e = False"

lemma ensureAgent_records:
  assumes "run_state (ensureAgent env a d epoch) h = (Inr x, h')"
  shows "\<exists>es e. h' = h @ es @ [e] \<and> recorded (def_Agent d) epoch x e
    \<and> (\<forall>s r. CreateSecret s r \<notin> set (es @ [e]))
    \<and> st_Agent (ag_Status x) = def_Agent d \<and> st_Epoch (ag_Status x) = epoch"
  using assms
  by (auto simp: ensureAgent_def createOrGetAgent_def run_simps split: sum.splits if_splits prod.splits)

lemma ensureAgent_no_secret: "emits (\<lambda>e. \<forall>s r. e \<noteq> CreateSecret s r) (ensureAgent env a d epoch)"
  by (auto simp: ensureAgent_def createOrGetAgent_def intro!: emits_intros emits_call)

definition credentials_secret :: "'a lib_scheme \<Rightarrow> Agent \<Rightarrow> AgentCredential \<Rightarrow> Secret \<Rightarrow> bool" where
  "credentials_secret lib x credential s \<longleftrightarrow>
     setControllerReference lib (ag_Meta x)
       (object_meta (om_Namespace (ag_Meta x)) (as_CredentialsSecretName (ag_Spec x))) = Inr (sec_Meta s)
     \<and> sec_Data s = credential_data credential"

lemma run_placeCredential:
  "run_state (placeCredential env x credential) h =
     (case setControllerReference env (ag_Meta x)
         (object_meta (om_Namespace (ag_Meta x)) (as_CredentialsSecretName (ag_Spec x))) of
        Inl e \<Rightarrow> (Inl (Wrapped (''own the credentials secret for '' @ st_Agent (ag_Status x)) e), h)
      | Inr owned \<Rightarrow>
          let s = \<lparr>sec_Meta = owned, sec_Data = credential_data credential\<rparr>; r = createSecret env h s in
          (if secret_placed r then Inr ()
           else Inl (Wrapped (''place the credential for '' @ st_Agent (ag_Status x)) (projl r)),
           h @ [CreateSecret s r]))"
  by (auto simp: placeCredential_def run_simps Let_def secret_placed_def split: sum.splits)

text \<open>The four entries of a credential's Secret.\<close>

lemmas secret_keys = CertificateKey_def KeyKey_def IssuerKey_def ServerRootKey_def

lemma credential_data_wf: "gomap_wf (credential_data credential)"
  unfolding credential_data_def by (intro map_put_wf) simp

lemma map_of_credential_data:
  "map_of (credential_data credential) =
     [CertificateKey \<mapsto> ac_CertificatePEM credential, KeyKey \<mapsto> ac_KeyPEM credential,
      IssuerKey \<mapsto> ac_IssuerPEM credential, ServerRootKey \<mapsto> ac_ServerRootPEM credential]"
  unfolding credential_data_def by (simp add: map_of_map_put map_put_wf del: map_put.simps)

subsection \<open>Properties\<close>


text \<open>A cluster that keeps what it is told and answers it back; nothing is in it at first.\<close>

fun creates_secret :: "event \<Rightarrow> bool" where
  "creates_secret (CreateSecret s r) = True"
| "creates_secret e = False"

definition demo_built :: Agent where
  "demo_built = \<lparr>ag_Meta = object_meta ''ns'' ''agent-x'',
     ag_Spec = \<lparr>as_Image = ''old'', as_CredentialsSecretName = ''agent-x-credentials'',
       as_StorageSize = Quantity ''1Gi'', as_StorageClassName = None, as_Resources = [],
       as_Tools = \<lparr>ats_Pins = []\<rparr>\<rparr>,
     ag_Status = empty_status\<lparr>st_Agent := ''grn:a'', st_Epoch := 3\<rparr>\<rparr>"

definition demo_cluster :: env where
  "demo_cluster = refusing_env\<lparr>createAgent := (\<lambda>h a. Inr a), getAgent := (\<lambda>h k. Inr demo_built),
     patchAgent := (\<lambda>h k p. Inr demo_built), patchAgentStatus := (\<lambda>h k p. Inr demo_built),
     createSecret := (\<lambda>h s. Inr ()), listAgents := (\<lambda>h n. Inr [demo_built]),
     getSecretMeta := (\<lambda>h k. if \<exists>e\<in>set h. creates_secret e then Inr () else Inl (ApiStatus NotFound []))\<rparr>"

lemmas demo_cluster_simps = demo_cluster_def refusing_env_def

definition demo_constructor :: AgentConstructor where
  "demo_constructor = NewAgent ''ns'' ''img'' (Quantity ''1Gi'')"

definition demo_held :: Definition where
  "demo_held = \<lparr>def_Agent = ''grn:a'', def_Tools = \<lparr>Pins = [(''grep'', ''sha256:1'')]\<rparr>,
     def_Ignored = [''note''], def_Claim = Some \<lparr>claim_Epoch = 3\<rparr>\<rparr>"

definition demo_issued :: AgentCredential where
  "demo_issued = \<lparr>ac_CertificatePEM = ''c'', ac_KeyPEM = ''k'', ac_IssuerPEM = ''i'',
     ac_ServerRootPEM = ''r'', ac_NotAfter = 7\<rparr>"

lemma demo_construct:
  "run_state (Agent_Construct demo_cluster demo_constructor demo_held 3 demo_issued) h =
     (Inr (), h @ [CreateAgent (constructed_agent demo_constructor demo_held)
           (Inr (constructed_agent demo_constructor demo_held)),
         PatchAgentStatus (key_of (ag_Meta (constructed_agent demo_constructor demo_held)))
           (status_patch ''grn:a'' 3) (Inr demo_built),
         CreateSecret \<lparr>sec_Meta = object_meta ''ns'' ''agent-x-credentials'',
           sec_Data = credential_data demo_issued\<rparr> (Inr ())])"
proof -
  have "createAgent demo_cluster = (\<lambda>h a. Inr a)" "createSecret demo_cluster = (\<lambda>h s. Inr ())"
    "patchAgentStatus demo_cluster = (\<lambda>h k p. Inr demo_built)"
    "setControllerReference demo_cluster = (\<lambda>owner m. Inr m)"
    by (simp_all add: demo_cluster_simps)
  moreover have "st_Agent (ag_Status (constructed_agent demo_constructor demo_held)) = []"
    by (simp add: constructed_agent_def empty_status_def)
  ultimately show ?thesis
    by (simp add: Agent_Construct_def ensureAgent_def createOrGetAgent_def run_simps
        placeCredential_def demo_held_def demo_built_def object_meta_def)
qed


text \<open>The Secret holds the credential whole: exactly the four keys the entrypoint reads, each with the
  PEM garam answered under that name.\<close>

theorem credential_data_entries:
  "gomap_wf (credential_data credential) \<and>
   map_of (credential_data credential) =
     [''certificate.pem'' \<mapsto> ac_CertificatePEM credential, ''key.pem'' \<mapsto> ac_KeyPEM credential,
      ''issuer.pem'' \<mapsto> ac_IssuerPEM credential, ''server-root.pem'' \<mapsto> ac_ServerRootPEM credential]"
  using credential_data_wf [of credential] map_of_credential_data [of credential]
  by (simp add: secret_keys)

text \<open>A construction only ever creates: it creates an Agent under the agent's name, merges the two
  fields garam's claim decides into a status, and creates a Secret. It never patches an Agent's spec
  and never overwrites a Secret, and it sends garam nothing.\<close>

theorem Construct_writes:
  "emits (\<lambda>e. is_http e \<or> is_kube_write e \<longrightarrow>
      (\<exists>r. e = CreateAgent (constructed_agent a d) r)
      \<or> (\<exists>k r. e = PatchAgentStatus k (status_patch (def_Agent d) epoch) r)
      \<or> (\<exists>s r. e = CreateSecret s r \<and> sec_Data s = credential_data credential))
    (Agent_Construct env a d epoch credential)"
  by (auto simp: Agent_Construct_def ensureAgent_def createOrGetAgent_def placeCredential_def
      intro!: emits_intros emits_call)

text \<open>\<^verbatim>\<open>CorrectImage\<close> answers true exactly when it patched the image, and it asks for the patch
  exactly when the Agent under this agent's name carries this agent's GRN on its status and another
  image than the one this operator runs; the patch is the image and nothing else.\<close>

theorem CorrectImage_patches:
  assumes "run_state (Agent_CorrectImage env a agent) h = (res, h')"
  shows "let k = (ctor_namespace a, Name agent); got = getAgent env h k;
             due = (case got of Inl e \<Rightarrow> False | Inr x \<Rightarrow> st_Agent (ag_Status x) = agent \<and> as_Image (ag_Spec x) \<noteq> ctor_image a)
         in (if due then \<exists>r. h' = h @ [GetAgent k got,
               PatchAgent (key_of (ag_Meta (projr got))) (image_patch (ctor_image a)) r]
               \<and> (res = Inr True \<longleftrightarrow> \<not> isl r) \<and> res \<noteq> Inr False
             else h' = h @ [GetAgent k got] \<and> res \<noteq> Inr True)"
  using assms
  by (auto simp: Agent_CorrectImage_def run_simps Let_def split: sum.splits if_splits)

theorem CorrectImage_patches_witness:
  "\<exists>r. run_state (Agent_CorrectImage demo_cluster demo_constructor ''grn:a'') [] =
      (Inr True, [GetAgent (''ns'', Name ''grn:a'') (Inr demo_built),
         PatchAgent (''ns'', ''agent-x'') (image_patch ''img'') r])"
proof -
  obtain res h' where run: "run_state (Agent_CorrectImage demo_cluster demo_constructor ''grn:a'') [] = (res, h')"
    by fastforce
  have got: "getAgent demo_cluster h k = Inr demo_built" "patchAgent demo_cluster h k p = Inr demo_built" for h k p
    by (simp_all add: demo_cluster_simps)
  have fields: "st_Agent (ag_Status demo_built) = ''grn:a''" "as_Image (ag_Spec demo_built) = ''old''"
    "key_of (ag_Meta demo_built) = (''ns'', ''agent-x'')" "ctor_image demo_constructor = ''img''"
    "ctor_namespace demo_constructor = ''ns''"
    by (simp_all add: demo_built_def key_of_def object_meta_def demo_constructor_def NewAgent_def)
  have "res = Inr True" using run by (auto simp: Agent_CorrectImage_def run_simps got fields)
  with CorrectImage_patches [OF run] run show ?thesis by (auto simp: Let_def got fields)
qed

text \<open>The observations are exactly the Agents whose status carries both what a claim decided, in the
  order they were listed, each with the readiness its \<^verbatim>\<open>Available\<close> condition states; an Agent
  somebody wrote by hand, or one never fully recorded, is observed as nothing.\<close>

theorem Observations_recorded:
  "run_state (Observations env a) h =
     (case listAgents env h (ctor_namespace a) of
        Inl e \<Rightarrow> (Inl (Wrapped ''list the agents this operator constructed'' e),
                  h @ [ListAgents (ctor_namespace a) (Inl e)])
      | Inr agents \<Rightarrow>
          (Inr (map (\<lambda>x. \<lparr>obs_Agent = st_Agent (ag_Status x), obs_Epoch = st_Epoch (ag_Status x),
                         obs_Readiness = readiness env x\<rparr>)
                  (filter (\<lambda>x. st_Agent (ag_Status x) \<noteq> [] \<and> st_Epoch (ag_Status x) \<noteq> 0) agents)),
           h @ [ListAgents (ctor_namespace a) (Inr agents)]))"
proof -
  have "observations_of env agents =
      map (\<lambda>x. \<lparr>obs_Agent = st_Agent (ag_Status x), obs_Epoch = st_Epoch (ag_Status x),
                obs_Readiness = readiness env x\<rparr>)
        (filter (\<lambda>x. st_Agent (ag_Status x) \<noteq> [] \<and> st_Epoch (ag_Status x) \<noteq> 0) agents)" for agents
    by (induction agents) auto
  then show ?thesis by (simp add: Observations_def run_simps split: sum.splits)
qed

text \<open>C36: An agent's name is a letter-led label of lower-case letters, digits and a hyphen, of 22 characters
  whatever the GRN, within the 52 an Agent's name may have, and the name of its Secret stays within the
  63 a label may have. Two agents share a name exactly when the first 8 bytes of their SHA-256 digests
  agree.\<close>

theorem Name_label:
  "length (Name agent) = 22 \<and> hd (Name agent) = CHR ''a''
    \<and> set (Name agent) \<subseteq> set ''0123456789abcdefghijklmnopqrstuvwxyz-''
    \<and> length (Name agent @ credentialsSecretSuffix) \<le> 63
    \<and> (Name agent = Name other \<longleftrightarrow> take 8 (sha256 agent) = take 8 (sha256 other))"
proof -
  have "set (hex_encode s) \<subseteq> set ''0123456789abcdefghijklmnopqrstuvwxyz-''" for s
    by (rule order_trans [OF hex_encode_chars]) auto
  then show ?thesis by (auto simp: Name_def credentialsSecretSuffix_def hex_encode_inj)
qed

end
