(* ===== verification/Poller.thy ===== *)
theory Poller
  imports Client Constructor
begin

text \<open>
  The poller (\<^verbatim>\<open>src/internal/garam/poller.go\<close>): it reads the definitions, claims the ones nobody
  claimed, corrects the image of the agents it built and constructs the ones it has not. It is
  written over the interface \<^verbatim>\<open>Constructor\<close>; what holds of every constructor that keeps the
  interface's contract is proved in the locale \<open>constructor_contract\<close> and carried to the
  constructor of this repository by interpretation.
\<close>

record Poller =
  po_client :: Client
  po_constructor :: Constructor
  po_interval :: int

definition NewPoller :: "Client \<Rightarrow> Constructor \<Rightarrow> int \<Rightarrow> Poller" where
  "NewPoller cl ct interval = \<lparr>po_client = cl, po_constructor = ct, po_interval = interval\<rparr>"

subsection \<open>One definition\<close>

definition poller_correct :: "Poller \<Rightarrow> GRN \<Rightarrow> (history, unit) state" where
  "poller_correct p agent = do {
     r \<leftarrow> CorrectImage (po_constructor p) agent;
     (case r of
        Inl e \<Rightarrow> log LogError ''Failed to correct the image of an agent this operator constructed''
                  [(''error'', LvErr e), (''agent'', LvStr agent)]
      | Inr corrected \<Rightarrow>
          if corrected
          then log LogInfo ''Corrected the image of an agent this operator constructed''
                 [(''agent'', LvStr agent)]
          else State_Monad.return ())
   }"

definition poller_claim :: "env \<Rightarrow> Poller \<Rightarrow> GRN \<Rightarrow> (history, Assignment option) state" where
  "poller_claim env p agent = do {
     r \<leftarrow> ClaimDefinition env (po_client p) agent;
     (case r of
        Inl e \<Rightarrow>
          if errors_Is e ErrClaimConflict then do {
            log LogError ''Refused a claim garam already holds'' [(''error'', LvErr e), (''agent'', LvStr agent)];
            State_Monad.return None
          } else do {
            log LogError ''Failed to claim a definition'' [(''error'', LvErr e), (''agent'', LvStr agent)];
            State_Monad.return None
          }
      | Inr assignment \<Rightarrow> do {
          log LogInfo ''Claimed a definition''
            [(''agent'', LvStr (asg_Agent assignment)), (''epoch'', LvInt (asg_Epoch assignment))];
          State_Monad.return (Some assignment)
        })
   }"

text \<open>What \<^verbatim>\<open>construct\<close> does with garam's answer to the request for a certificate.\<close>

definition poller_place ::
  "Poller \<Rightarrow> Definition \<Rightarrow> int \<Rightarrow> error + AgentCredential \<Rightarrow> (history, unit) state" where
  "poller_place p d epoch issued =
     (case issued of
        Inl e \<Rightarrow>
          if errors_Is e ErrAgentNotHeld
          then log LogError ''Constructed nothing: garam does not hold this agent for this operator''
                 [(''error'', LvErr e), (''agent'', LvStr (def_Agent d))]
          else log LogError ''Failed to obtain an agent's credential''
                 [(''error'', LvErr e), (''agent'', LvStr (def_Agent d))]
      | Inr credential \<Rightarrow> do {
          c \<leftarrow> Construct (po_constructor p) d epoch credential;
          (case c of
             Inl e \<Rightarrow> log LogError
               (''Lost a certificate garam issued an agent: it exists nowhere else, and the next ''
                @ ''pass asks for another rather than retrying this write'')
               [(''error'', LvErr e), (''agent'', LvStr (def_Agent d))]
           | Inr u \<Rightarrow> log LogInfo ''Constructed an agent''
               [(''agent'', LvStr (def_Agent d)), (''epoch'', LvInt epoch),
                (''notAfter'', LvTime (ac_NotAfter credential))])
        })"

definition poller_construct :: "env \<Rightarrow> Poller \<Rightarrow> Definition \<Rightarrow> int \<Rightarrow> (history, unit) state" where
  "poller_construct env p d epoch = do {
     r \<leftarrow> HasCredential (po_constructor p) (def_Agent d);
     (case r of
        Inl e \<Rightarrow> log LogError ''Failed to read whether an agent's credential is placed''
                  [(''error'', LvErr e), (''agent'', LvStr (def_Agent d))]
      | Inr placed \<Rightarrow>
          if placed then State_Monad.return ()
          else do {
            issued \<leftarrow> IssueAgentCertificate env (po_client p) (def_Agent d);
            poller_place p d epoch issued
          })
   }"

text \<open>The body of the loop over the definitions; a definition that is not claimed ends here.\<close>

definition poll_definition :: "env \<Rightarrow> Poller \<Rightarrow> Definition \<Rightarrow> (history, unit) state" where
  "poll_definition env p d = do {
     claim \<leftarrow> (case def_Claim d of
                 Some c \<Rightarrow> State_Monad.return (Some c)
               | None \<Rightarrow> do {
                   assignment \<leftarrow> poller_claim env p (def_Agent d);
                   State_Monad.return (map_option (\<lambda>a. \<lparr>claim_Epoch = asg_Epoch a\<rparr>) assignment)
                 });
     (case claim of
        None \<Rightarrow> State_Monad.return ()
      | Some c \<Rightarrow> do {
          (if def_Ignored d \<noteq> []
           then log LogDebug ''Ignored the values of a definition this operator holds no contract for''
                  [(''agent'', LvStr (def_Agent d)), (''keys'', LvStrs (def_Ignored d))]
           else State_Monad.return ());
          poller_correct p (def_Agent d);
          poller_construct env p d (claim_Epoch c)
        })
   }"

subsection \<open>One pass, and the loop\<close>

definition poll :: "env \<Rightarrow> Poller \<Rightarrow> (history, unit) state" where
  "poll env p = do {
     r \<leftarrow> ListDefinitions env (po_client p);
     (case r of
        Inl e \<Rightarrow> log LogError ''Failed to read the definitions garam holds for this operator''
                  [(''error'', LvErr e)]
      | Inr definitions \<Rightarrow> do {
          log LogDebug ''Read the definitions garam holds for this operator''
            [(''count'', LvInt (int (length definitions)))];
          for_each definitions (poll_definition env p)
        })
   }"

text \<open>\<^verbatim>\<open>wait.UntilWithContext\<close> runs a poll at once and then once an interval: \<open>n\<close> times before the context is cancelled.\<close>

definition Poller_Start :: "nat \<Rightarrow> env \<Rightarrow> Poller \<Rightarrow> (history, unit) state" where
  "Poller_Start n env p = do {
     log LogInfo ''Polling garam for definitions'' [(''interval'', LvInt (po_interval p))];
     repeat_n n (poll env p)
   }"

subsection \<open>When a certificate is asked for\<close>

definition asks_certificate :: "Client \<Rightarrow> GRN \<Rightarrow> event \<Rightarrow> bool" where
  "asks_certificate c g e \<longleftrightarrow> (\<exists>r. e = Http (request_for c ''POST'' (certificate_path g) None) r)"

text \<open>Every request for a certificate comes right after evidence that the agent has none.\<close>

definition cert_guarded :: "Client \<Rightarrow> (GRN \<Rightarrow> event \<Rightarrow> bool) \<Rightarrow> history \<Rightarrow> bool" where
  "cert_guarded c absent es \<longleftrightarrow>
     (\<forall>xs e ys g. es = xs @ e # ys \<longrightarrow> asks_certificate c g e \<longrightarrow> (\<exists>zs f. xs = zs @ [f] \<and> absent g f))"

lemma cert_guardedD:
  "cert_guarded c absent (xs @ e # ys) \<Longrightarrow> asks_certificate c g e \<Longrightarrow> \<exists>zs f. xs = zs @ [f] \<and> absent g f"
  by (auto simp: cert_guarded_def)

interpretation guarded: trace_property "cert_guarded c absent" for c absent
proof unfold_locales
  show "cert_guarded c absent []" by (simp add: cert_guarded_def)
  fix es fs
  assume es: "cert_guarded c absent es" and fs: "cert_guarded c absent fs"
  show "cert_guarded c absent (es @ fs)"
    unfolding cert_guarded_def
  proof (intro allI impI)
    fix xs e ys g
    assume "es @ fs = xs @ e # ys" and e: "asks_certificate c g e"
    then consider zs where "es = xs @ e # zs" | zs where "fs = zs @ e # ys" and "xs = es @ zs"
      by (auto simp: append_eq_append_conv2 append_eq_Cons_conv Cons_eq_append_conv)
    then show "\<exists>zs f. xs = zs @ [f] \<and> absent g f"
    proof cases
      case 1
      with es e show ?thesis by (auto dest: cert_guardedD)
    next
      case (2 zs)
      with fs e obtain zs' f where "zs = zs' @ [f]" and "absent g f" by (auto dest: cert_guardedD)
      with 2 show ?thesis by (metis append.assoc)
    qed
  qed
qed

lemma asks_certificate_http: "asks_certificate c g e \<Longrightarrow> is_http e"
  by (auto simp: asks_certificate_def)

lemma cert_guarded_quiet: "\<forall>e\<in>set es. \<not> is_http e \<Longrightarrow> cert_guarded c absent es"
  by (auto simp: cert_guarded_def dest: asks_certificate_http)

lemma asks_certificate_inj: "asks_certificate c g e \<Longrightarrow> asks_certificate c g' e \<Longrightarrow> g = g'"
  by (auto simp: asks_certificate_def request_for_def certificate_path_def path_escape_inj)

lemma cert_guarded_ask:
  "absent g f \<Longrightarrow> \<not> is_http f \<Longrightarrow> asks_certificate c g e \<Longrightarrow> cert_guarded c absent [f, e]"
  unfolding cert_guarded_def
  by (auto simp: Cons_eq_append_conv dest: asks_certificate_http asks_certificate_inj)

lemma cert_guarded_emits: "emits (\<lambda>e. \<not> is_http e) m \<Longrightarrow> traces (cert_guarded c absent) m"
  unfolding emits_def by (erule traces_mono) (auto simp: every_def intro: cert_guarded_quiet)

lemma cert_guarded_log: "traces (cert_guarded c absent) (log l m kvs)"
  by (rule cert_guarded_emits) (simp add: emits_log)

text \<open>A request for a certificate appends at most itself.\<close>

lemma run_issue:
  "snd (run_state (IssueAgentCertificate env c g) h) \<in>
     {h} \<union> {h @ [e] | e. asks_certificate c g e}"
  by (auto simp: IssueAgentCertificate_def run_simps run_send Let_def asks_certificate_def
      split: prod.splits option.splits)

lemma claim_guarded: "traces (cert_guarded c absent) (ClaimDefinition env c g)"
proof -
  have "claim_path g \<noteq> certificate_path g'" for g'
    by (simp add: claim_path_def certificate_path_def)
  then have "emits (\<lambda>e. \<forall>g'. \<not> asks_certificate c g' e) (ClaimDefinition env c g)"
    by (intro emits_routes) (auto simp: asks_certificate_def request_for_def)
  then show ?thesis
    unfolding emits_def by (rule traces_mono) (auto simp: every_def cert_guarded_def)
qed

lemma list_guarded: "traces (cert_guarded c absent) (ListDefinitions env c)"
proof -
  have "emits (\<lambda>e. \<forall>g. \<not> asks_certificate c g e) (ListDefinitions env c)"
    by (intro emits_routes) (simp add: asks_certificate_def request_for_def)
  then show ?thesis
    unfolding emits_def by (rule traces_mono) (auto simp: every_def cert_guarded_def)
qed

context constructor_contract
begin

lemma has_credential_quiet: "emits (\<lambda>e. \<not> is_http e) (HasCredential ct agent)"
  by (rule emits_mono [OF has_credential_reads]) simp

lemma has_credential_absentE:
  assumes "run_state (HasCredential ct agent) h = (Inr False, h')"
  obtains es e where "h' = h @ es @ [e]" and "absent agent e" and "\<forall>x\<in>set (es @ [e]). \<not> is_http x"
proof -
  from has_credential_absent [OF assms] obtain es e where "h' = h @ es @ [e]" "absent agent e" by blast
  moreover from this has_credential_quiet assms have "\<forall>x\<in>set (es @ [e]). \<not> is_http x"
    by (metis emitsE same_append_eq)
  ultimately show thesis by (rule that)
qed

lemma issue_guarded:
  assumes "absent g f" and "\<not> is_http f"
  shows "\<exists>es. snd (run_state (IssueAgentCertificate env c g) h) = h @ es \<and> cert_guarded c absent (f # es)"
  using run_issue [of env c g h] assms
  by (auto simp: cert_guarded_ask) (simp add: cert_guarded_quiet)

lemma place_local:
  assumes "po_constructor p = ct"
  shows "emits (\<lambda>e. \<not> is_http e) (poller_place p d epoch issued)"
  unfolding poller_place_def assms by (auto intro!: emits_intros emits_log construct_local)

lemma construct_guarded:
  assumes "po_constructor p = ct"
  shows "traces (cert_guarded (po_client p) absent) (poller_construct env p d epoch)"
  unfolding traces_def
proof
  fix h
  let ?g = "def_Agent d" and ?G = "cert_guarded (po_client p) absent"
  obtain r h1 where has: "run_state (HasCredential ct ?g) h = (r, h1)" by fastforce
  show "\<exists>es. snd (run_state (poller_construct env p d epoch) h) = h @ es \<and> ?G es"
  proof (cases "r = Inr False")
    case False
    obtain es where "h1 = h @ es" "\<forall>e\<in>set es. \<not> is_http e"
      using has_credential_quiet has by (rule emitsE)
    with False show ?thesis
      using has assms
      by (auto simp: poller_construct_def run_simps split: sum.splits intro!: cert_guarded_quiet)
  next
    case True
    obtain xs f where xs: "h1 = h @ xs @ [f]" and f: "absent ?g f" "\<forall>x\<in>set (xs @ [f]). \<not> is_http x"
      using has True by (auto elim: has_credential_absentE)
    obtain i h2 where issue: "run_state (IssueAgentCertificate env (po_client p) ?g) h1 = (i, h2)"
      by fastforce
    obtain ys where ys: "h2 = h1 @ ys" "?G (f # ys)"
      using issue_guarded [OF f(1), of env "po_client p" h1] f(2) issue by auto
    obtain h3 where m: "run_state (poller_place p d epoch i) h2 = ((), h3)"
      by (metis old.unit.exhaust surj_pair)
    obtain zs where zs: "h3 = h2 @ zs" "\<forall>e\<in>set zs. \<not> is_http e"
      using place_local [OF assms] m by (rule emitsE)
    have "snd (run_state (poller_construct env p d epoch) h) = h @ xs @ (f # ys) @ zs"
      using has True issue m assms xs ys zs by (simp add: poller_construct_def run_simps)
    moreover have "?G (xs @ (f # ys) @ zs)"
      using f ys zs by (intro guarded.append_trace) (auto intro: cert_guarded_quiet)
    ultimately show ?thesis by blast
  qed
qed

lemma correct_quiet:
  assumes "po_constructor p = ct"
  shows "emits (\<lambda>e. \<not> is_http e) (poller_correct p agent)"
  unfolding poller_correct_def assms by (auto intro!: emits_intros emits_log correct_local)

lemma poll_definition_guarded:
  "po_constructor p = ct \<Longrightarrow> traces (cert_guarded (po_client p) absent) (poll_definition env p d)"
  unfolding poll_definition_def poller_claim_def
  by (intro guarded.traces_rules cert_guarded_log claim_guarded construct_guarded
      cert_guarded_emits [OF correct_quiet]; simp)

lemma poll_guarded:
  "po_constructor p = ct \<Longrightarrow> traces (cert_guarded (po_client p) absent) (poll env p)"
  unfolding poll_def
  by (intro guarded.traces_rules cert_guarded_log list_guarded poll_definition_guarded; simp)

lemma start_guarded:
  "po_constructor p = ct \<Longrightarrow> traces (cert_guarded (po_client p) absent) (Poller_Start n env p)"
  unfolding Poller_Start_def
  by (intro guarded.traces_rules cert_guarded_log poll_guarded; simp)

end

subsection \<open>The requests of a pass\<close>

text \<open>The two routes of a definition a pass may ask for; the claim only of an unclaimed one.\<close>

definition definition_request :: "Client \<Rightarrow> Definition \<Rightarrow> event \<Rightarrow> bool" where
  "definition_request c d e \<longleftrightarrow>
     (\<exists>r. (def_Claim d = None \<and> e = Http (request_for c ''POST'' (claim_path (def_Agent d)) None) r)
        \<or> e = Http (request_for c ''POST'' (certificate_path (def_Agent d)) None) r)"

context constructor_contract
begin

lemma poll_definition_requests:
  assumes "po_constructor p = ct"
  shows "emits (\<lambda>e. is_http e \<longrightarrow> definition_request (po_client p) d e) (poll_definition env p d)"
proof -
  let ?P = "\<lambda>e. is_http e \<longrightarrow> definition_request (po_client p) d e"
  have claim: "emits ?P (poller_claim env p (def_Agent d))" if "def_Claim d = None"
    unfolding poller_claim_def using that
    by (auto intro!: emits_intros emits_log emits_routes simp: definition_request_def)
  have issue: "emits ?P (IssueAgentCertificate env (po_client p) (def_Agent d))"
    by (intro emits_routes) (auto simp: definition_request_def)
  have "emits ?P (HasCredential ct (def_Agent d))"
    by (rule emits_mono [OF has_credential_quiet]) simp
  moreover have "emits ?P (poller_place p d epoch issued)" for epoch issued
    by (rule emits_mono [OF place_local [OF assms]]) simp
  moreover have "emits ?P (poller_correct p (def_Agent d))"
    by (rule emits_mono [OF correct_quiet [OF assms]]) simp
  ultimately show ?thesis
    unfolding poll_definition_def poller_construct_def assms
    by (intro emits_intros emits_log claim issue) simp_all
qed

end

lemma run_poll:
  "run_state (poll env p) h =
     (case run_state (ListDefinitions env (po_client p)) h of
        (Inl e, t) \<Rightarrow> ((), t @ [Log LogError ''Failed to read the definitions garam holds for this operator''
                              [(''error'', LvErr e)]])
      | (Inr ds, t) \<Rightarrow> run_state (for_each ds (poll_definition env p))
          (t @ [Log LogDebug ''Read the definitions garam holds for this operator''
                  [(''count'', LvInt (int (length ds)))]]))"
  by (simp add: poll_def run_simps split: prod.splits sum.splits)

subsection \<open>A concrete pass\<close>

text \<open>garam holds one claimed definition and refuses every certificate; no Secret is placed.\<close>

definition demo_poll_env :: env where
  "demo_poll_env = refusing_env\<lparr>httpDo := (\<lambda>h q. Inr
       (if hr_Method q = ''GET''
        then \<lparr>resp_Status = 200, resp_Body = Inr (Document (JArr [demo_definition]))\<rparr>
        else \<lparr>resp_Status = 403, resp_Body = Inr (NotJson [])\<rparr>)),
     getSecretMeta := (\<lambda>h k. Inl (ApiStatus NotFound []))\<rparr>"

definition demo_poller :: Poller where
  "demo_poller = NewPoller demo_client (agent_constructor demo_poll_env demo_constructor) 5"

lemma demo_list:
  "run_state (ListDefinitions demo_poll_env demo_client) h = (Inr
      [\<lparr>def_Agent = ''grn:a'', def_Tools = \<lparr>Pins = [(''grep'', ''sha256:1'')]\<rparr>,
        def_Ignored = [''note''], def_Claim = Some \<lparr>claim_Epoch = 3\<rparr>\<rparr>],
     h @ [Http (request_for demo_client ''GET'' ''/definitions'' None)
        (Inr \<lparr>resp_Status = 200, resp_Body = Inr (Document (JArr [demo_definition]))\<rparr>)])"
  by (simp add: ListDefinitions_def demo_poll_env_def demo_answers into_def demo_definition_decodes
      demo_definition_reads request_for_def)

lemma demo_poll_answers:
  "getSecretMeta demo_poll_env h k = Inl (ApiStatus NotFound [])"
  "getAgent demo_poll_env h k = Inl nothing_answers"
  "newRequestError demo_poll_env m u = None"
  "hr_Method q = ''POST'' \<Longrightarrow> httpDo demo_poll_env h q = Inr \<lparr>resp_Status = 403, resp_Body = Inr (NotJson [])\<rparr>"
  "po_client demo_poller = demo_client"
  "HasCredential (po_constructor demo_poller) = Agent_HasCredential demo_poll_env demo_constructor"
  "CorrectImage (po_constructor demo_poller) = Agent_CorrectImage demo_poll_env demo_constructor"
  by (simp_all add: demo_poll_env_def refusing_env_def demo_poller_def NewPoller_def agent_constructor_def)

lemma demo_not_found: "IsNotFound (ApiStatus NotFound m)" "\<not> IsNotFound nothing_answers"
  by (simp_all add: IsNotFound_def nothing_answers_def)

definition demo_get :: event where
  "demo_get = Http (request_for demo_client ''GET'' ''/definitions'' None)
     (Inr \<lparr>resp_Status = 200, resp_Body = Inr (Document (JArr [demo_definition]))\<rparr>)"

definition demo_ask :: event where
  "demo_ask = Http (request_for demo_client ''POST'' (certificate_path ''grn:a'') None)
     (Inr \<lparr>resp_Status = 403, resp_Body = Inr (NotJson [])\<rparr>)"

definition demo_absent :: event where
  "demo_absent = GetSecretMeta (credentialsKey demo_constructor ''grn:a'')
     (Inl (ApiStatus NotFound []))"

lemma demo_issue:
  "run_state (IssueAgentCertificate demo_poll_env demo_client ''grn:a'') h =
     (Inl (Wrapped ''issue a certificate for grn:a'' ErrAgentNotHeld), h @ [demo_ask])"
  by (simp add: IssueAgentCertificate_def run_simps run_send Let_def demo_poll_answers request_for_def
      read_response_def refusalFrom_def refused_with_def demo_ask_def)

lemma demo_pass:
  "\<exists>a b c d f g. appended (Poller_Start 1 demo_poll_env demo_poller) [] =
     [a, demo_get, b, c, d, f, demo_absent, demo_ask, g]"
  by (simp add: appended_def Poller_Start_def run_simps run_poll demo_list demo_poll_answers
      poll_definition_def poller_correct_def poller_construct_def poller_place_def demo_not_found
      Agent_HasCredential_def Agent_CorrectImage_def demo_issue demo_absent_def demo_get_def)

subsection \<open>Properties\<close>

text \<open>C2: However long the poller runs and whatever garam and the API server answer, every request for an
  agent's certificate comes right after the API server answered that the Secret which would hold
  that agent's credential does not exist. garam certifies a new key at each such request and keeps
  neither half, so this is what keeps a placed credential from being replaced.\<close>

theorem certificate_asked_only_when_absent:
  assumes "appended (Poller_Start n env (NewPoller c (agent_constructor env a) interval)) h = xs @ e # ys"
    and "asks_certificate c g e"
  shows "\<exists>zs err. xs = zs @ [GetSecretMeta (credentialsKey a g) (Inl err)] \<and> IsNotFound err"
proof -
  let ?p = "NewPoller c (agent_constructor env a) interval"
  have "cert_guarded c (secret_absent a) (appended (Poller_Start n env ?p) h)"
    using appended_traces [OF built.start_guarded [of ?p env a n env]] by (simp add: NewPoller_def)
  with assms show ?thesis
    by (auto simp: secret_absent_def dest!: cert_guardedD)
qed

theorem certificate_asked_only_when_absent_witness:
  "\<exists>xs ys zs err. appended (Poller_Start 1 demo_poll_env
       (NewPoller demo_client (agent_constructor demo_poll_env demo_constructor) 5)) [] = xs @ demo_ask # ys
     \<and> asks_certificate demo_client ''grn:a'' demo_ask
     \<and> xs = zs @ [GetSecretMeta (credentialsKey demo_constructor ''grn:a'') (Inl err)] \<and> IsNotFound err"
proof -
  obtain a b c d f g where
    "appended (Poller_Start 1 demo_poll_env demo_poller) [] = [a, demo_get, b, c, d, f, demo_absent] @ demo_ask # [g]"
    using demo_pass by auto
  then have "appended (Poller_Start 1 demo_poll_env
      (NewPoller demo_client (agent_constructor demo_poll_env demo_constructor) 5)) []
      = [a, demo_get, b, c, d, f, demo_absent] @ demo_ask # [g]"
    by (simp add: demo_poller_def)
  moreover have "asks_certificate demo_client ''grn:a'' demo_ask"
    by (auto simp: asks_certificate_def demo_ask_def)
  ultimately show ?thesis
    using certificate_asked_only_when_absent [of 1 demo_poll_env demo_client demo_constructor 5 "[]"
        "[a, demo_get, b, c, d, f, demo_absent]" demo_ask "[g]" "''grn:a''"] by blast
qed

text \<open>
  What the API server tells in a run while nobody deletes Secrets: one it was told to create and
  created, or held already, is not answered as missing afterwards.
\<close>

definition secrets_persist :: "history \<Rightarrow> bool" where
  "secrets_persist es \<longleftrightarrow>
     (\<forall>xs s r ys err. es = xs @ CreateSecret s r # ys \<longrightarrow> secret_placed r
        \<longrightarrow> GetSecretMeta (key_of (sec_Meta s)) (Inl err) \<in> set ys \<longrightarrow> \<not> IsNotFound err)"

lemma persisting_secret_not_asked:
  assumes "cert_guarded c (secret_absent a) (xs @ CreateSecret s r # ys)"
    and "secrets_persist (xs @ CreateSecret s r # ys)"
    and "secret_placed r" and "key_of (sec_Meta s) = credentialsKey a g" and "e \<in> set ys"
  shows "\<not> asks_certificate c g e"
proof
  assume "asks_certificate c g e"
  obtain us vs where ys: "ys = us @ e # vs" using assms(5) by (meson split_list)
  then have "cert_guarded c (secret_absent a) ((xs @ CreateSecret s r # us) @ e # vs)"
    using assms(1) by simp
  from cert_guardedD [OF this \<open>asks_certificate c g e\<close>]
  obtain zs err where "xs @ CreateSecret s r # us = zs @ [GetSecretMeta (credentialsKey a g) (Inl err)]"
    and found: "IsNotFound err" by (auto simp: secret_absent_def)
  then have "GetSecretMeta (credentialsKey a g) (Inl err) \<in> set us"
    by (cases us rule: rev_cases) auto
  then have "GetSecretMeta (key_of (sec_Meta s)) (Inl err) \<in> set ys" using assms(4) ys by simp
  with assms(2,3) found show False unfolding secrets_persist_def by blast
qed

text \<open>Once the credential Secret of an agent is placed, and as long as nobody deletes it, no later pass
  of the poller asks garam for another certificate for that agent.\<close>

theorem certificate_not_asked_again:
  assumes "appended (Poller_Start n env (NewPoller c (agent_constructor env a) interval)) h
      = xs @ CreateSecret s r # ys"
    and "secrets_persist (xs @ CreateSecret s r # ys)"
    and "secret_placed r" and "key_of (sec_Meta s) = credentialsKey a g"
    and "e \<in> set ys"
  shows "\<not> asks_certificate c g e"
proof (rule persisting_secret_not_asked)
  let ?p = "NewPoller c (agent_constructor env a) interval"
  show "cert_guarded c (secret_absent a) (xs @ CreateSecret s r # ys)"
    using appended_traces [OF built.start_guarded [of ?p env a n env], of h] assms(1)
    by (simp add: NewPoller_def)
qed (fact assms)+

lemma secrets_persistI:
  assumes "\<forall>e\<in>set xs. \<not> creates_secret e" and "\<forall>k err. GetSecretMeta k (Inl err) \<notin> set ys"
  shows "secrets_persist (xs @ CreateSecret s r # ys)"
  unfolding secrets_persist_def
proof (intro allI impI notI)
  fix us s' r' vs err
  assume eq: "xs @ CreateSecret s r # ys = us @ CreateSecret s' r' # vs"
    and g: "GetSecretMeta (key_of (sec_Meta s')) (Inl err) \<in> set vs"
  have "CreateSecret s' r' \<notin> set xs" using assms(1) by auto
  then have "set vs \<subseteq> set ys" using eq
    by (auto simp: append_eq_append_conv2 Cons_eq_append_conv append_eq_Cons_conv)
  with g assms(2) show False by blast
qed

text \<open>The same pass in a cluster that keeps what it is told, with garam certifying what it is asked.\<close>

definition demo_keeping_env :: env where
  "demo_keeping_env = demo_cluster\<lparr>httpDo := (\<lambda>h q. Inr \<lparr>resp_Status = 200, resp_Body = Inr
       (Document (if hr_Method q = ''GET'' then JArr [demo_definition] else demo_credential))\<rparr>),
     parseTime := (\<lambda>s. Inr 7), getAgent := (\<lambda>h k. Inl (ApiStatus NotFound [])),
     patchAgentStatus := (\<lambda>h k p. Inr (constructed_agent demo_constructor demo_held))\<rparr>"

definition demo_keeping_poller :: Poller where
  "demo_keeping_poller = NewPoller demo_client (agent_constructor demo_keeping_env demo_constructor) 5"

lemma demo_keeping_answers:
  "getSecretMeta demo_keeping_env h k =
     (if \<exists>e\<in>set h. creates_secret e then Inr () else Inl (ApiStatus NotFound []))"
  "getAgent demo_keeping_env h k = Inl (ApiStatus NotFound [])"
  "createAgent demo_keeping_env h x = Inr x"
  "patchAgentStatus demo_keeping_env h k j = Inr (constructed_agent demo_constructor demo_held)"
  "createSecret demo_keeping_env h s = Inr ()"
  "setControllerReference demo_keeping_env owner m = Inr m"
  "newRequestError demo_keeping_env m' u = None"
  "po_client demo_keeping_poller = demo_client"
  "HasCredential (po_constructor demo_keeping_poller) = Agent_HasCredential demo_keeping_env demo_constructor"
  "CorrectImage (po_constructor demo_keeping_poller) = Agent_CorrectImage demo_keeping_env demo_constructor"
  "Construct (po_constructor demo_keeping_poller) = Agent_Construct demo_keeping_env demo_constructor"
  by (simp_all add: demo_keeping_env_def demo_cluster_simps demo_keeping_poller_def NewPoller_def
      agent_constructor_def)

lemma demo_keeping_list:
  "run_state (ListDefinitions demo_keeping_env demo_client) h = (Inr [demo_held], h @ [demo_get])"
  by (simp add: ListDefinitions_def demo_keeping_env_def demo_cluster_simps demo_answers into_def
      demo_definition_decodes demo_definition_reads request_for_def demo_get_def demo_held_def)

lemma demo_keeping_issue:
  "\<exists>q r. \<forall>h. run_state (IssueAgentCertificate demo_keeping_env demo_client ''grn:a'') h =
     (Inr demo_issued, h @ [Http q r])"
  by (simp add: IssueAgentCertificate_def demo_keeping_env_def demo_cluster_simps demo_answers
      demo_credential_decodes into_def payload_agentCredential_def IsZero_def demo_issued_def request_for_def)

definition demo_secret :: Secret where
  "demo_secret = \<lparr>sec_Meta = object_meta ''ns'' (Name ''grn:a'' @ credentialsSecretSuffix),
     sec_Data = credential_data demo_issued\<rparr>"

lemma demo_keeping_construct:
  "\<exists>a b. \<forall>h. run_state (Agent_Construct demo_keeping_env demo_constructor demo_held 3 demo_issued) h =
     (Inr (), h @ [CreateAgent a b, PatchAgentStatus (key_of (ag_Meta a)) (status_patch ''grn:a'' 3)
        (Inr (constructed_agent demo_constructor demo_held)), CreateSecret demo_secret (Inr ())])"
proof -
  have "st_Agent (ag_Status (constructed_agent demo_constructor demo_held)) = []" for l :: env
    by (simp add: constructed_agent_def empty_status_def)
  then show ?thesis
    by (simp add: Agent_Construct_def ensureAgent_def createOrGetAgent_def run_simps demo_keeping_answers
        placeCredential_def demo_secret_def)
      (simp add: demo_held_def constructed_agent_def constructed_spec_def object_meta_def demo_constructor_def NewAgent_def)
qed

lemma demo_two_passes:
  "\<exists>xs ys. appended (Poller_Start 2 demo_keeping_env demo_keeping_poller) [] =
     xs @ CreateSecret demo_secret (Inr ()) # ys \<and> demo_get \<in> set ys
     \<and> (\<forall>e\<in>set xs. \<not> creates_secret e) \<and> (\<forall>k err. GetSecretMeta k (Inl err) \<notin> set ys)"
proof -
  obtain q r where i: "\<And>h. run_state (IssueAgentCertificate demo_keeping_env demo_client ''grn:a'') h =
     (Inr demo_issued, h @ [Http q r])" using demo_keeping_issue by blast
  obtain a b where c: "\<And>h. run_state (Agent_Construct demo_keeping_env demo_constructor demo_held 3 demo_issued) h =
     (Inr (), h @ [CreateAgent a b, PatchAgentStatus (key_of (ag_Meta a)) (status_patch ''grn:a'' 3)
        (Inr (constructed_agent demo_constructor demo_held)), CreateSecret demo_secret (Inr ())])"
    using demo_keeping_construct by blast
  have held: "def_Agent demo_held = ''grn:a''" "def_Claim demo_held = Some \<lparr>claim_Epoch = 3\<rparr>"
    "def_Ignored demo_held = [''note'']" by (simp_all add: demo_held_def)
  have "creates_secret demo_get = False" by (simp add: demo_get_def)
  then have "\<exists>a b c d e f g h i j k l m n. appended (Poller_Start 2 demo_keeping_env demo_keeping_poller) [] =
      [a, b, c, d, e, f, g, h, i] @ CreateSecret demo_secret (Inr ()) # [j, demo_get, k, l, m, n]
      \<and> (\<forall>e\<in>set [a, b, c, d, e, f, g, h, i]. \<not> creates_secret e)
      \<and> (\<forall>k' err. GetSecretMeta k' (Inl err) \<notin> set [j, demo_get, k, l, m, n])"
    by (simp add: appended_def Poller_Start_def run_simps run_poll demo_keeping_list demo_keeping_answers
      poll_definition_def poller_correct_def poller_construct_def poller_place_def demo_not_found held
      Agent_HasCredential_def Agent_CorrectImage_def i c numeral_2_eq_2) (simp add: demo_get_def)
  then show ?thesis by (elim exE conjE) (intro exI conjI, assumption, auto)
qed

theorem certificate_not_asked_again_witness:
  "\<not> asks_certificate demo_client ''grn:a'' demo_get"
proof -
  obtain xs ys where run: "appended (Poller_Start 2 demo_keeping_env demo_keeping_poller) [] =
      xs @ CreateSecret demo_secret (Inr ()) # ys" and get: "demo_get \<in> set ys"
    and quiet: "\<forall>e\<in>set xs. \<not> creates_secret e" "\<forall>k err. GetSecretMeta k (Inl err) \<notin> set ys"
    using demo_two_passes by blast
  have "key_of (sec_Meta demo_secret) = credentialsKey demo_constructor ''grn:a''"
    by (simp add: demo_secret_def key_of_def object_meta_def credentialsKey_def demo_constructor_def NewAgent_def)
  then show ?thesis
    using run get secrets_persistI [OF quiet]
    by (intro certificate_not_asked_again [of 2 demo_keeping_env demo_client demo_constructor 5 "[]" xs
          demo_secret "Inr ()" ys]) (simp_all add: secret_placed_def demo_keeping_poller_def)
qed

text \<open>The only requests a pass sends garam are the read of the definitions and, of the definitions that
  read returned, the claim of one nobody claimed and the certificate of the agent it names.\<close>

theorem poll_requests:
  assumes "e \<in> set (appended (poll env (NewPoller c (agent_constructor env a) interval)) h)" and "is_http e"
  shows "(\<exists>r. e = Http (request_for c ''GET'' ''/definitions'' None) r)
    \<or> (\<exists>ds t d. run_state (ListDefinitions env c) h = (Inr ds, t) \<and> d \<in> set ds \<and> definition_request c d e)"
proof -
  let ?p = "NewPoller c (agent_constructor env a) interval"
  have p: "po_client ?p = c" "po_constructor ?p = agent_constructor env a" by (simp_all add: NewPoller_def)
  obtain r t where list: "run_state (ListDefinitions env c) h = (r, t)" by fastforce
  have "emits (\<lambda>e. \<exists>r. e = Http (request_for c ''GET'' ''/definitions'' None) r) (ListDefinitions env c)"
    by (intro emits_routes) blast
  from emitsE [OF this list] obtain es where es: "t = h @ es"
    "\<forall>e\<in>set es. \<exists>r. e = Http (request_for c ''GET'' ''/definitions'' None) r" by blast
  show ?thesis
  proof (cases r)
    case (Inl x)
    then show ?thesis using assms list es by (auto simp: appended_def run_poll p)
  next
    case (Inr ds)
    let ?l = "Log LogDebug ''Read the definitions garam holds for this operator''
      [(''count'', LvInt (int (length ds)))]"
    have pass: "emits (\<lambda>e. is_http e \<longrightarrow> (\<exists>d\<in>set ds. definition_request c d e))
        (for_each ds (poll_definition env ?p))"
      by (intro emits_intros, rule emits_mono [OF built.poll_definition_requests [OF p(2)]])
        (auto simp: p(1))
    have "snd (run_state (for_each ds (poll_definition env ?p)) (t @ [?l])) =
        t @ [?l] @ appended (for_each ds (poll_definition env ?p)) (t @ [?l])"
      using run_appended [OF pass [unfolded emits_def]] by simp
    moreover have "is_http e \<Longrightarrow> e \<in> set (appended (for_each ds (poll_definition env ?p)) (t @ [?l]))
        \<Longrightarrow> \<exists>d\<in>set ds. definition_request c d e"
      using appended_emits [OF pass] by blast
    ultimately show ?thesis
      using assms list es Inr by (auto simp: appended_def [of "poll env ?p"] run_poll p)
  qed
qed

theorem poll_requests_witness:
  "\<exists>e. is_http e \<and> ((\<exists>r. e = Http (request_for demo_client ''GET'' ''/definitions'' None) r)
    \<or> (\<exists>ds t d. run_state (ListDefinitions demo_poll_env demo_client) [] = (Inr ds, t) \<and> d \<in> set ds
          \<and> definition_request demo_client d e))"
proof -
  have "demo_get \<in> set (appended (poll demo_poll_env demo_poller) [])"
    by (simp add: appended_def run_simps run_poll demo_list demo_poll_answers
      poll_definition_def poller_correct_def poller_construct_def poller_place_def demo_not_found
      Agent_HasCredential_def Agent_CorrectImage_def demo_issue demo_get_def)
  moreover have "is_http demo_get" by (simp add: demo_get_def)
  ultimately show ?thesis
    unfolding demo_poller_def using poll_requests by blast
qed

text \<open>A definition this operator could not claim gets nothing else in that pass: after the refused claim
  comes one error line, and no image is corrected, no certificate asked for and nothing built. A
  conflict with another claim is told apart from every other failure.\<close>

theorem refused_claim_builds_nothing:
  assumes "def_Claim d = None" and "run_state (ClaimDefinition env (po_client p) (def_Agent d)) h = (Inl e, t)"
  shows "run_state (poll_definition env p d) h =
    ((), t @ [Log LogError
       (if errors_Is e ErrClaimConflict then ''Refused a claim garam already holds''
        else ''Failed to claim a definition'') [(''error'', LvErr e), (''agent'', LvStr (def_Agent d))]])"
  using assms by (auto simp: poll_definition_def poller_claim_def run_simps)

theorem refused_claim_builds_nothing_witness:
  "snd (run_state (poll_definition (refusing_env\<lparr>httpDo := answering 409 (NotJson [])\<rparr>) demo_poller
      (demo_held\<lparr>def_Claim := None\<rparr>)) []) \<noteq> []"
proof -
  let ?env = "refusing_env\<lparr>httpDo := answering 409 (NotJson [])\<rparr>"
  let ?m = "ClaimDefinition ?env (po_client demo_poller) (def_Agent (demo_held\<lparr>def_Claim := None\<rparr>))"
  have "run_state ?m [] = (Inl (Wrapped ''claim grn:a'' ErrClaimConflict), snd (run_state ?m []))"
    by (simp add: ClaimDefinition_def demo_answers demo_held_def)
  from refused_claim_builds_nothing [OF _ this] show ?thesis by simp
qed

end
