(* ===== verification/Reporter.thy ===== *)
theory Reporter
  imports Client Constructor
begin

text \<open>
  The reporter (\<^verbatim>\<open>src/internal/garam/reporter.go\<close>): it tells garam what this operator sees of the
  pods of the agents it constructed. It is written over the interface \<^verbatim>\<open>Observer\<close>
  (\<^verbatim>\<open>src/internal/garam/observer.go\<close>); the locale \<open>observer_contract\<close> states what that interface
  promises and is interpreted on the observations of this repository's constructor.
\<close>

record Reporter =
  rp_client :: Client
  rp_observer :: Observer
  rp_interval :: int

definition NewReporter :: "Client \<Rightarrow> Observer \<Rightarrow> int \<Rightarrow> Reporter" where
  "NewReporter c ob interval = \<lparr>rp_client = c, rp_observer = ob, rp_interval = interval\<rparr>"

definition provisioningState :: "Readiness \<Rightarrow> ProvisioningState \<times> bool" where
  "provisioningState seen =
     (if seen = ReadinessReplicaReady then (StateReady, True)
      else if seen = ReadinessNoReplica then (StateProvisioned, True)
      else if seen = ReadinessUnobserved then ([], False)
      else ([], False))"

definition reporter_send :: "env \<Rightarrow> Reporter \<Rightarrow> Observation \<Rightarrow> ProvisioningState \<Rightarrow> (history, unit) state" where
  "reporter_send env r ob st = do {
     answered \<leftarrow> ReportProvisioningState env (rp_client r) (obs_Agent ob) (obs_Epoch ob) st;
     (case answered of
        Inl e \<Rightarrow>
          if errors_Is e ErrReportStale
          then log LogError ''Reported nothing: garam holds this agent at a later epoch''
                 [(''error'', LvErr e), (''agent'', LvStr (obs_Agent ob)), (''epoch'', LvInt (obs_Epoch ob))]
          else if errors_Is e ErrAgentNotHeld
          then log LogError ''Reported nothing: garam does not hold this agent for this operator''
                 [(''error'', LvErr e), (''agent'', LvStr (obs_Agent ob))]
          else log LogError ''Failed to report what this operator sees of an agent's pod''
                 [(''error'', LvErr e), (''agent'', LvStr (obs_Agent ob))]
      | Inr u \<Rightarrow> log LogDebug ''Reported what this operator sees of an agent's pod''
                  [(''agent'', LvStr (obs_Agent ob)), (''epoch'', LvInt (obs_Epoch ob)), (''state'', LvStr st)])
   }"

definition report_one :: "env \<Rightarrow> Reporter \<Rightarrow> Observation \<Rightarrow> (history, unit) state" where
  "report_one env r ob =
     (case provisioningState (obs_Readiness ob) of
        (st, reportable) \<Rightarrow>
          if \<not> reportable then State_Monad.return () else reporter_send env r ob st)"

definition report :: "env \<Rightarrow> Reporter \<Rightarrow> (history, unit) state" where
  "report env r = do {
     read \<leftarrow> rp_observer r;
     (case read of
        Inl e \<Rightarrow> log LogError ''Failed to read what this operator sees of its agents'' [(''error'', LvErr e)]
      | Inr observations \<Rightarrow> do {
          log LogDebug ''Read what this operator sees of its agents''
            [(''count'', LvInt (int (length observations)))];
          for_each observations (report_one env r)
        })
   }"

definition Reporter_Start :: "nat \<Rightarrow> env \<Rightarrow> Reporter \<Rightarrow> (history, unit) state" where
  "Reporter_Start n env r = do {
     log LogInfo ''Reporting what this operator sees of its agents' pods'' [(''interval'', LvInt (rp_interval r))];
     repeat_n n (report env r)
   }"

subsection \<open>The observer's contract\<close>

locale observer_contract =
  fixes ob :: Observer
  assumes observing_reads: "emits (\<lambda>e. \<not> is_http e \<and> \<not> is_kube_write e) ob"
    and observations_complete:
      "run_state ob h = (Inr os, t) \<Longrightarrow> x \<in> set os \<Longrightarrow> obs_Agent x \<noteq> [] \<and> obs_Epoch x \<noteq> 0"

lemma observations_of_complete: "x \<in> set (observations_of lib as) \<Longrightarrow> obs_Agent x \<noteq> [] \<and> obs_Epoch x \<noteq> 0"
  by (induction lib as rule: observations_of.induct) (auto split: if_splits)

interpretation observed: observer_contract "Observations env a" for env a
proof unfold_locales
  fix h os t x
  show "emits (\<lambda>e. \<not> is_http e \<and> \<not> is_kube_write e) (Observations env a)"
    by (auto simp: Observations_def intro!: emits_intros emits_call)
  show "obs_Agent x \<noteq> [] \<and> obs_Epoch x \<noteq> 0"
    if "run_state (Observations env a) h = (Inr os, t)" and "x \<in> set os"
    using that by (auto simp: Observations_def run_simps dest: observations_of_complete split: sum.splits)
qed

subsection \<open>The requests of a pass\<close>

text \<open>The requests among a list of events, in order.\<close>

fun requests :: "history \<Rightarrow> http_request list" where
  "requests [] = []"
| "requests (Http q r # es) = q # requests es"
| "requests (e # es) = requests es"

lemma requests_append [simp]: "requests (xs @ ys) = requests xs @ requests ys"
  by (induction xs rule: requests.induct) simp_all

lemma requests_quiet: "\<forall>e\<in>set es. \<not> is_http e \<Longrightarrow> requests es = []"
  by (induction es rule: requests.induct) auto

text \<open>The report an observation is due, if any.\<close>

definition report_request :: "Client \<Rightarrow> Observation \<Rightarrow> http_request" where
  "report_request c x = request_for c ''POST'' (provisioning_path (obs_Agent x))
     (Some (provisioningStateReport (obs_Epoch x) (fst (provisioningState (obs_Readiness x)))))"

definition reportable :: "Observation \<Rightarrow> bool" where
  "reportable x = snd (provisioningState (obs_Readiness x))"

lemma reportable_iff:
  "reportable x \<longleftrightarrow> obs_Readiness x = ReadinessReplicaReady \<or> obs_Readiness x = ReadinessNoReplica"
  by (simp add: reportable_def provisioningState_def readiness_defs)

lemma run_report_one:
  assumes "\<And>m u. newRequestError env m u = None"
  shows "\<exists>es. snd (run_state (report_one env r x) h) = h @ es
    \<and> requests es = (if reportable x then [report_request (rp_client r) x] else [])"
  using assms
  by (auto simp: report_one_def reportable_def reporter_send_def ReportProvisioningState_def run_simps
      run_send report_request_def Let_def split: prod.splits option.splits sum.splits)

lemma run_report_each:
  assumes "\<And>m u. newRequestError env m u = None"
  shows "\<exists>es. snd (run_state (for_each xs (report_one env r)) h) = h @ es
    \<and> requests es = map (report_request (rp_client r)) (filter reportable xs)"
proof (induction xs arbitrary: h)
  case (Cons x xs)
  obtain es where es: "snd (run_state (report_one env r x) h) = h @ es"
    "requests es = (if reportable x then [report_request (rp_client r) x] else [])"
    using run_report_one [OF assms] by blast
  obtain fs where "snd (run_state (for_each xs (report_one env r)) (h @ es)) = (h @ es) @ fs"
    "requests fs = map (report_request (rp_client r)) (filter reportable xs)"
    using Cons.IH by blast
  with es show ?case by (auto simp: run_simps)
qed (simp add: run_simps)

context observer_contract
begin

lemma report_pass:
  assumes "\<And>m u. newRequestError env m u = None" and "rp_observer r = ob"
    and "run_state ob h = (Inr os, t)"
  shows "\<exists>es. snd (run_state (report env r) h) = h @ es
    \<and> requests es = map (report_request (rp_client r)) (filter reportable os)"
proof -
  obtain es where es: "t = h @ es" "\<forall>e\<in>set es. \<not> is_http e \<and> \<not> is_kube_write e"
    using observing_reads assms(3) by (rule emitsE)
  let ?l = "Log LogDebug ''Read what this operator sees of its agents'' [(''count'', LvInt (int (length os)))]"
  obtain fs where "snd (run_state (for_each os (report_one env r)) (t @ [?l])) = (t @ [?l]) @ fs"
    "requests fs = map (report_request (rp_client r)) (filter reportable os)"
    using run_report_each [OF assms(1)] by blast
  with es assms show ?thesis by (auto simp: report_def run_simps requests_quiet)
qed

end

lemma observations_of_origin:
  "x \<in> set (observations_of lib agents) \<Longrightarrow> \<exists>y\<in>set agents. obs_Agent x = st_Agent (ag_Status y)
     \<and> obs_Epoch x = st_Epoch (ag_Status y) \<and> obs_Readiness x = readiness lib y
     \<and> st_Agent (ag_Status y) \<noteq> [] \<and> st_Epoch (ag_Status y) \<noteq> 0"
  by (induction lib agents rule: observations_of.induct) (auto split: if_splits)

lemma reportable_condition:
  assumes "reportable x" and "obs_Readiness x = readiness lib y"
  shows "\<exists>cond. findStatusCondition lib (st_Conditions (ag_Status y)) ConditionAvailable = Some cond
    \<and> (fst (provisioningState (obs_Readiness x)) = StateReady \<and> cond_Status cond = ConditionTrue
       \<or> fst (provisioningState (obs_Readiness x)) = StateProvisioned \<and> cond_Status cond = ConditionFalse)"
  using assms
  by (auto simp: reportable_iff readiness_def provisioningState_def readiness_defs
      split: option.splits ConditionStatus.splits)

subsection \<open>Properties\<close>


definition demo_available :: Condition where
  "demo_available = \<lparr>cond_Type = ''Available'', cond_Status = ConditionTrue, cond_ObservedGeneration = 1,
     cond_LastTransitionTime = 0, cond_Reason = ''ReplicaReady'', cond_Message = []\<rparr>"

definition demo_observing_env :: env where
  "demo_observing_env = demo_cluster\<lparr>findStatusCondition := (\<lambda>cs t. Some demo_available)\<rparr>"

lemma demo_observation:
  "run_state (Observations demo_observing_env demo_constructor) [] =
     (Inr [\<lparr>obs_Agent = ''grn:a'', obs_Epoch = 3, obs_Readiness = ReadinessReplicaReady\<rparr>],
      [ListAgents ''ns'' (Inr [demo_built])])"
  by (simp add: Observations_def run_simps demo_observing_env_def demo_cluster_simps demo_built_def
      readiness_def demo_available_def empty_status_def demo_constructor_def NewAgent_def)


text \<open>C25: garam is told no more than what the cluster holds: each report of a pass is about an Agent the
  API server listed, under the GRN and the epoch its status records, and says \<^verbatim>\<open>ready\<close> only where
  that Agent's \<^verbatim>\<open>Available\<close> condition is true and \<^verbatim>\<open>provisioned\<close> only where it is false.\<close>

theorem report_states_observed:
  assumes "Http q res \<in> set (appended (report env (NewReporter c (Observations env a) interval)) h)"
  shows "\<exists>agents x st cond. listAgents env h (ctor_namespace a) = Inr agents \<and> x \<in> set agents
    \<and> q = request_for c ''POST'' (provisioning_path (st_Agent (ag_Status x)))
            (Some (provisioningStateReport (st_Epoch (ag_Status x)) st))
    \<and> st_Agent (ag_Status x) \<noteq> [] \<and> st_Epoch (ag_Status x) \<noteq> 0
    \<and> findStatusCondition env (st_Conditions (ag_Status x)) ConditionAvailable = Some cond
    \<and> (st = StateReady \<and> cond_Status cond = ConditionTrue
       \<or> st = StateProvisioned \<and> cond_Status cond = ConditionFalse)"
proof -
  let ?r = "NewReporter c (Observations env a) interval"
  let ?P = "\<lambda>os e. is_http e \<longrightarrow> (\<exists>x\<in>set os. reportable x \<and> (\<exists>res. e = Http (report_request c x) res))"
  have own: "emits (\<lambda>e. is_http e \<longrightarrow> reportable x \<and> (\<exists>res. e = Http (report_request c x) res)) (report_one env ?r x)"
    for x
    by (auto simp: report_one_def reporter_send_def NewReporter_def report_request_def reportable_def
        intro!: emits_intros emits_log emits_routes)
  have one: "emits (?P os) (report_one env ?r x)" if "x \<in> set os" for os x
    by (rule emits_mono [OF own]) (use that in blast)
  have each: "emits (?P os) (for_each os (report_one env ?r))" for os
    by (intro emits_intros one)
  show ?thesis
  proof (cases "listAgents env h (ctor_namespace a)")
    case (Inl e)
    then show ?thesis
      using assms by (auto simp: appended_def report_def run_simps Observations_def NewReporter_def)
  next
    case (Inr agents)
    let ?os = "observations_of env agents"
    let ?t = "h @ [ListAgents (ctor_namespace a) (Inr agents), Log LogDebug
      ''Read what this operator sees of its agents'' [(''count'', LvInt (int (length ?os)))]]"
    have "snd (run_state (report env ?r) h) = snd (run_state (for_each ?os (report_one env ?r)) ?t)"
      using Inr by (simp add: report_def run_simps Observations_def NewReporter_def)
    moreover have "\<dots> = ?t @ appended (for_each ?os (report_one env ?r)) ?t"
      using run_appended [OF each [unfolded emits_def]] by blast
    ultimately have "Http q res \<in> set (appended (for_each ?os (report_one env ?r)) ?t)"
      using assms by (auto simp: appended_def [of "report env ?r"])
    from appended_emits [OF each this] obtain x where "x \<in> set ?os" "reportable x" "q = report_request c x"
      by auto
    then obtain y where "y \<in> set agents" "obs_Agent x = st_Agent (ag_Status y)" "obs_Epoch x = st_Epoch (ag_Status y)"
      "obs_Readiness x = readiness env y" "st_Agent (ag_Status y) \<noteq> []" "st_Epoch (ag_Status y) \<noteq> 0"
      using observations_of_origin by blast
    with Inr \<open>reportable x\<close> \<open>q = report_request c x\<close> reportable_condition [of x env y] show ?thesis
      by (auto simp: report_request_def)
  qed
qed

theorem report_states_observed_witness:
  "\<exists>q res (x::Agent) cond.
     Http q res \<in> set (appended (report demo_observing_env (NewReporter demo_client (Observations demo_observing_env demo_constructor) 1)) [])
     \<and> findStatusCondition demo_observing_env (st_Conditions (ag_Status x)) ConditionAvailable = Some cond
     \<and> st_Agent (ag_Status x) \<noteq> []"
proof -
  let ?r = "NewReporter demo_client (Observations demo_observing_env demo_constructor) 1"
  have req: "newRequestError demo_observing_env m u = None" for m u
    by (simp add: demo_observing_env_def demo_cluster_simps)
  have "\<exists>q res. Http q res \<in> set (appended (report demo_observing_env ?r) [])"
    using demo_observation
    by (auto simp: appended_def report_def NewReporter_def run_simps report_one_def provisioningState_def
        readiness_defs reporter_send_def ReportProvisioningState_def run_send req Let_def split: sum.splits)
  then obtain q res where sent: "Http q res \<in> set (appended (report demo_observing_env ?r) [])" by blast
  from report_states_observed [OF sent] sent show ?thesis by blast
qed

end
