(* ===== verification/Credential_Store.thy ===== *)
theory Credential_Store
  imports World
begin

text \<open>
  Where the credential this operator authenticates with is kept: the interface
  \<^verbatim>\<open>garam.CredentialStore\<close> (\<^verbatim>\<open>src/internal/garam/credential_store.go\<close>) and its one implementation,
  the Secret the manager's Pod mounts (\<^verbatim>\<open>src/internal/garam/credentialstore/secret.go\<close>). The locale
  \<open>credential_store\<close> is what the renewer and the enroller rely on; it is interpreted on the Secret.
\<close>

type_synonym CredentialStore = "Credential \<Rightarrow> (history, error + unit) state"

locale credential_store =
  fixes store :: CredentialStore
    and keeps :: "Credential \<Rightarrow> event \<Rightarrow> bool"
  assumes stored: "run_state (store cr) h = (Inr (), t) \<Longrightarrow> \<exists>es e. t = h @ es @ [e] \<and> keeps cr e"
    and store_local: "emits (\<lambda>e. \<not> is_http e \<and> \<not> is_log e) (store cr)"

subsection \<open>The Secret\<close>

record SecretStore =
  css_secret :: object_key
  css_certificateKey :: string
  css_keyKey :: string

definition NewSecret :: "object_key \<Rightarrow> string \<Rightarrow> string \<Rightarrow> SecretStore" where
  "NewSecret secret certificateKey keyKey =
     \<lparr>css_secret = secret, css_certificateKey = certificateKey, css_keyKey = keyKey\<rparr>"

text \<open>The text of a \<^verbatim>\<open>types.NamespacedName\<close>.\<close>

definition namespaced_name :: "object_key \<Rightarrow> string" where
  "namespaced_name k = fst k @ ''/'' @ snd k"

text \<open>
  The merge patch. The two entries of the Go map literal are put in order, so under one key the
  second stands; a \<^verbatim>\<open>map[string][]byte\<close> always marshals, so the render error is unreachable.
\<close>

definition credential_patch :: "SecretStore \<Rightarrow> Credential \<Rightarrow> json" where
  "credential_patch s cr =
     JObj [(''data'', json_of_data
       (map_put (css_keyKey s) (cr_KeyPEM cr) (map_put (css_certificateKey s) (cr_CertificatePEM cr) [])))]"

definition Secret_ReplaceCredential :: "env \<Rightarrow> SecretStore \<Rightarrow> CredentialStore" where
  "Secret_ReplaceCredential env s cr = do {
     r \<leftarrow> call (\<lambda>h. patchSecret env h (css_secret s) (credential_patch s cr))
            (PatchSecret (css_secret s) (credential_patch s cr));
     State_Monad.return
       (case r of
          Inl e \<Rightarrow> Inl (Wrapped (''replace the credential in secret '' @ namespaced_name (css_secret s)) e)
        | Inr u \<Rightarrow> Inr ())
   }"

definition patched :: "SecretStore \<Rightarrow> Credential \<Rightarrow> event \<Rightarrow> bool" where
  "patched s cr e \<longleftrightarrow> e = PatchSecret (css_secret s) (credential_patch s cr) (Inr ())"

interpretation secret_store: credential_store "Secret_ReplaceCredential env s" "patched s" for env s
proof unfold_locales
  fix cr h t
  show "\<exists>es e. t = h @ es @ [e] \<and> patched s cr e"
    if "run_state (Secret_ReplaceCredential env s cr) h = (Inr (), t)"
    using that by (auto simp: Secret_ReplaceCredential_def run_simps patched_def split: sum.splits)
  show "emits (\<lambda>e. \<not> is_http e \<and> \<not> is_log e) (Secret_ReplaceCredential env s cr)"
    by (auto simp: Secret_ReplaceCredential_def intro!: emits_intros emits_call)
qed

subsection \<open>Properties\<close>

text \<open>What the API server reads out of a merge patch of a Secret's data, key by key.\<close>

definition json_member :: "json \<Rightarrow> string \<Rightarrow> json option" where
  "json_member j k = (case j of JObj kvs \<Rightarrow> map_of kvs k | _ \<Rightarrow> None)"

definition patched_entry :: "json \<Rightarrow> string \<Rightarrow> string option" where
  "patched_entry j k =
     (case json_member j ''data'' of
        None \<Rightarrow> None
      | Some entries \<Rightarrow>
          (case json_member entries k of Some (JStr s) \<Rightarrow> base64_decode s | _ \<Rightarrow> None))"

lemma map_of_json_of_data:
  "map_of (map (\<lambda>(k, v). (k, JStr (base64_encode v))) m) k = map_option (\<lambda>v. JStr (base64_encode v)) (map_of m k)"
  by (induction m) auto

lemma patched_entry_credential:
  assumes "css_certificateKey s \<noteq> css_keyKey s"
  shows "patched_entry (credential_patch s cr) =
    [css_certificateKey s \<mapsto> cr_CertificatePEM cr, css_keyKey s \<mapsto> cr_KeyPEM cr]"
proof
  fix k
  show "patched_entry (credential_patch s cr) k =
      [css_certificateKey s \<mapsto> cr_CertificatePEM cr, css_keyKey s \<mapsto> cr_KeyPEM cr] k"
    by (simp add: credential_patch_def patched_entry_def json_member_def json_of_data_def map_of_json_of_data base64_roundtrip
        map_of_map_put map_put_wf del: map_put.simps)
qed

text \<open>A renewal replaces both halves of the credential in one write: \<^verbatim>\<open>ReplaceCredential\<close> makes exactly
  one patch of the Secret the Pod mounts, it succeeds exactly when that patch does, and the patch sets
  the certificate's key and the key's key to the bytes of the credential and no other entry.\<close>

theorem ReplaceCredential_one_patch:
  assumes "css_certificateKey s \<noteq> css_keyKey s"
  shows "run_state (Secret_ReplaceCredential env s cr) h =
      (let r = patchSecret env h (css_secret s) (credential_patch s cr) in
       (case r of
          Inl e \<Rightarrow> Inl (Wrapped (''replace the credential in secret '' @ namespaced_name (css_secret s)) e)
        | Inr u \<Rightarrow> Inr (), h @ [PatchSecret (css_secret s) (credential_patch s cr) r]))
    \<and> patched_entry (credential_patch s cr) =
        [css_certificateKey s \<mapsto> cr_CertificatePEM cr, css_keyKey s \<mapsto> cr_KeyPEM cr]"
  using patched_entry_credential [OF assms] by (auto simp: Secret_ReplaceCredential_def run_simps Let_def)

theorem ReplaceCredential_one_patch_witness:
  "patched_entry (credential_patch (NewSecret (''ns'', ''garam'') ''tls.crt'' ''tls.key'')
      \<lparr>cr_CertificatePEM = ''C'', cr_KeyPEM = ''K''\<rparr>) ''tls.key'' = Some ''K''"
  using ReplaceCredential_one_patch [of "NewSecret (''ns'', ''garam'') ''tls.crt'' ''tls.key''" refusing_env
      "\<lparr>cr_CertificatePEM = ''C'', cr_KeyPEM = ''K''\<rparr>" "[]"]
  by (auto simp: NewSecret_def)

subsection \<open>The store as one cell\<close>

text \<open>
  What the API server makes of a patch of the Secret \<open>k\<close> whose data is \<open>m\<close>, and the abstract store: one
  cell holding a whole credential or none. The bytes a Secret's data carries are decoded as they are
  read out of it.
\<close>

type_synonym secret_data = "string \<rightharpoonup> string"

definition apply_patch :: "object_key \<Rightarrow> secret_data \<Rightarrow> event \<Rightarrow> secret_data" where
  "apply_patch k m e =
     (case e of PatchSecret k' p r \<Rightarrow> if k' = k then m ++ patched_entry p else m | _ \<Rightarrow> m)"

definition apply_patches :: "object_key \<Rightarrow> secret_data \<Rightarrow> history \<Rightarrow> secret_data" where
  "apply_patches k m es = foldl (apply_patch k) m es"

lemma apply_patches_simps [simp]:
  "apply_patches k m [] = m"
  "apply_patches k m (e # es) = apply_patches k (apply_patch k m e) es"
  "apply_patches k m (es @ fs) = apply_patches k (apply_patches k m es) fs"
  by (simp_all add: apply_patches_def)

fun accepted :: "event \<Rightarrow> bool" where
  "accepted (PatchSecret k p r) = (\<not> isl r)"
| "accepted e = False"

definition held_credential :: "SecretStore \<Rightarrow> secret_data \<Rightarrow> Credential option" where
  "held_credential s m =
     (case (m (css_certificateKey s), m (css_keyKey s)) of
        (Some c, Some k) \<Rightarrow> Some \<lparr>cr_CertificatePEM = c, cr_KeyPEM = k\<rparr>
      | _ \<Rightarrow> None)"





end
