(* ===== verification/Renewer.thy ===== *)
theory Renewer
  imports Client Credential_Store
begin

text \<open>
  The renewer (\<^verbatim>\<open>src/internal/garam/renewer.go\<close>): it asks garam for a successor of the certificate
  this operator authenticates with and stores what garam answers. It is written over
  \<^verbatim>\<open>CredentialStore\<close>; what it promises for any store is proved in the locale.
\<close>

record Renewer =
  rn_client :: Client
  rn_store :: CredentialStore
  rn_interval :: int

definition NewRenewer :: "Client \<Rightarrow> CredentialStore \<Rightarrow> int \<Rightarrow> Renewer" where
  "NewRenewer c store interval = \<lparr>rn_client = c, rn_store = store, rn_interval = interval\<rparr>"

definition renew :: "env \<Rightarrow> Renewer \<Rightarrow> (history, unit) state" where
  "renew env r = do {
     answered \<leftarrow> RenewIdentity env (rn_client r);
     (case answered of
        Inl e \<Rightarrow>
          if errors_Is e ErrRenewalTooEarly
          then log LogDebug ''Renewed nothing: garam admits no renewal of this certificate yet'' []
          else if errors_Is e ErrCredentialSuperseded
          then log LogError
            (''Cannot renew this operator's certificate. It authenticates until it expires ''
             @ ''and no retry recovers the lineage: mint one out of band'') [(''error'', LvErr e)]
          else log LogError ''Failed to renew this operator's certificate'' [(''error'', LvErr e)]
      | Inr credential \<Rightarrow> do {
          s \<leftarrow> rn_store r credential;
          (case s of
             Inl e \<Rightarrow> log LogError
               (''Lost a certificate garam issued: it exists nowhere else and the one it ''
                @ ''replaced can no longer renew, so mint one out of band'') [(''error'', LvErr e)]
           | Inr u \<Rightarrow> log LogInfo ''Renewed this operator's certificate'' [])
        })
   }"

definition Renewer_Start :: "nat \<Rightarrow> env \<Rightarrow> Renewer \<Rightarrow> (history, unit) state" where
  "Renewer_Start n env r = do {
     log LogInfo ''Renewing this operator's certificate before it expires'' [(''interval'', LvInt (rn_interval r))];
     repeat_n n (renew env r)
   }"

subsection \<open>One attempt\<close>

definition renewed :: event where
  "renewed = Log LogInfo ''Renewed this operator's certificate'' []"

context credential_store
begin

lemma renew_keeps_answer:
  assumes "rn_store r = store" and "run_state (RenewIdentity env (rn_client r)) h = (Inr cr, t)"
    and "snd (run_state (renew env r) h) = t' @ [renewed]"
  shows "\<exists>es e. t' = t @ es @ [e] \<and> keeps cr e"
proof -
  obtain s u where s: "run_state (store cr) t = (s, u)" by fastforce
  show ?thesis
  proof (cases s)
    case (Inl e)
    then show ?thesis using assms s by (simp add: renew_def run_simps renewed_def)
  next
    case (Inr x)
    then have "t' = u" using assms s by (simp add: renew_def run_simps renewed_def)
    with Inr s stored [of cr t u] show ?thesis by simp
  qed
qed

lemma renew_refused_stores_nothing:
  assumes "run_state (RenewIdentity env (rn_client r)) h = (Inl e, t)"
  shows "\<exists>l m kvs. snd (run_state (renew env r) h) = t @ [Log l m kvs] \<and> Log l m kvs \<noteq> renewed"
  using assms by (auto simp: renew_def run_simps renewed_def)

end

subsection \<open>Properties\<close>

lemma renew_errors_exclusive: "\<not> (errors_Is e ErrRenewalTooEarly \<and> errors_Is e ErrCredentialSuperseded)"
  by (auto simp: errors_Is_sentinel sentinels_def)

text \<open>The renewer says it renewed the certificate only once the credential garam answered is in the
  Secret: the event before that line is the successful patch carrying exactly that credential.\<close>

theorem renew_stored_before_said:
  assumes "snd (run_state (renew env (NewRenewer c (Secret_ReplaceCredential env s) interval)) h) = t @ [renewed]"
  shows "\<exists>cr es e t0. run_state (RenewIdentity env c) h = (Inr cr, t0) \<and> t = t0 @ es @ [e] \<and> patched s cr e"
proof -
  let ?r = "NewRenewer c (Secret_ReplaceCredential env s) interval"
  obtain a t0 where a: "run_state (RenewIdentity env (rn_client ?r)) h = (a, t0)" by fastforce
  show ?thesis
  proof (cases a)
    case (Inl e)
    from secret_store.renew_refused_stores_nothing [OF a [unfolded Inl]] assms show ?thesis by auto
  next
    case (Inr cr)
    with a secret_store.renew_keeps_answer [of ?r env s env h cr t0 t] assms show ?thesis
      by (auto simp: NewRenewer_def)
  qed
qed

definition demo_renewal :: json where
  "demo_renewal = JObj [(''certificatePem'', JStr ''C''), (''privateKeyPem'', JStr ''K'')]"

lemma demo_renewal_decodes:
  "dec_struct dec_credential_fields demo_renewal = Inr \<lparr>crp_CertificatePEM = ''C'', crp_PrivateKeyPEM = ''K''\<rparr>"
  by code_simp

theorem renew_stored_before_said_witness:
  "\<exists>env cr es e t0. run_state (RenewIdentity env demo_client) [] = (Inr cr, t0)
     \<and> snd (run_state (renew env (NewRenewer demo_client
          (Secret_ReplaceCredential env (NewSecret (''ns'', ''garam'') ''tls.crt'' ''tls.key'')) 1)) []) = t0 @ es @ [e, renewed]
     \<and> patched (NewSecret (''ns'', ''garam'') ''tls.crt'' ''tls.key'') cr e"
proof -
  let ?env = "refusing_env\<lparr>httpDo := answering 200 (Document demo_renewal), patchSecret := (\<lambda>h k p. Inr ())\<rparr>"
  let ?s = "NewSecret (''ns'', ''garam'') ''tls.crt'' ''tls.key''"
  obtain t where t: "snd (run_state (renew ?env (NewRenewer demo_client (Secret_ReplaceCredential ?env ?s) 1)) []) = t @ [renewed]"
  proof -
    have "\<exists>t. snd (run_state (renew ?env (NewRenewer demo_client (Secret_ReplaceCredential ?env ?s) 1)) []) = t @ [renewed]"
      by (simp add: renew_def NewRenewer_def Secret_ReplaceCredential_def RenewIdentity_def demo_answers into_def
          demo_renewal_decodes payload_credential_def renewed_def)
    then show thesis using that by blast
  qed
  from renew_stored_before_said [OF t] obtain cr es e t0 where
    "run_state (RenewIdentity ?env demo_client) [] = (Inr cr, t0)" "t = t0 @ es @ [e]" "patched ?s cr e" by blast
  with t show ?thesis by (intro exI [of _ ?env] exI [of _ cr] exI [of _ es] exI [of _ e] exI [of _ t0]) simp
qed

text \<open>One attempt makes at most one write, and only of the credential garam answered in that attempt. A
  refusal writes nothing and is told in one line: too early at the debug level, a superseded
  credential as the error nothing here recovers, anything else as a failed attempt.\<close>

theorem renew_outcomes:
  "run_state (renew env (NewRenewer c (Secret_ReplaceCredential env s) interval)) h =
     (case run_state (RenewIdentity env c) h of
        (Inr cr, t) \<Rightarrow>
          (let w = patchSecret env t (css_secret s) (credential_patch s cr) in
           ((), t @ [PatchSecret (css_secret s) (credential_patch s cr) w,
              (case w of
                 Inl e \<Rightarrow> Log LogError
                   (''Lost a certificate garam issued: it exists nowhere else and the one it ''
                    @ ''replaced can no longer renew, so mint one out of band'')
                   [(''error'', LvErr (Wrapped (''replace the credential in secret ''
                      @ namespaced_name (css_secret s)) e))]
               | Inr u \<Rightarrow> renewed)]))
      | (Inl e, t) \<Rightarrow>
          ((), t @ [if errors_Is e ErrCredentialSuperseded
             then Log LogError
               (''Cannot renew this operator's certificate. It authenticates until it expires ''
                @ ''and no retry recovers the lineage: mint one out of band'') [(''error'', LvErr e)]
             else if errors_Is e ErrRenewalTooEarly
             then Log LogDebug ''Renewed nothing: garam admits no renewal of this certificate yet'' []
             else Log LogError ''Failed to renew this operator's certificate'' [(''error'', LvErr e)]]))"
  using renew_errors_exclusive
  by (auto simp: renew_def NewRenewer_def Secret_ReplaceCredential_def run_simps renewed_def Let_def
      split: prod.splits sum.splits)

end
