(* ===== verification/Mutual_Tls.thy ===== *)
theory Mutual_Tls
  imports World
begin

text \<open>
  The TLS configurations a client reaches garam with (\<^verbatim>\<open>src/internal/garam/mutual_tls.go\<close> and
  \<^verbatim>\<open>EnrollmentTLS\<close> of \<^verbatim>\<open>enroller.go\<close>). The callback that reads the certificate at each handshake is
  represented by the pair of files it reads; \<open>client_certificate\<close> is what calling it does.
\<close>

definition VersionTLS13 :: nat where
  "VersionTLS13 = 0x0304"

definition trustedRoots :: "env \<Rightarrow> string \<Rightarrow> (history, error + string list) state" where
  "trustedRoots env trustFile = do {
     r \<leftarrow> call (\<lambda>h. readFile env h trustFile) (ReadFile trustFile);
     State_Monad.return
       (case r of
          Inl e \<Rightarrow> Inl (Wrapped ''read the file garam is verified against'' e)
        | Inr trusted \<Rightarrow>
            if certsFromPEM env trusted = []
            then Inl (New (trustFile @ '' holds no PEM certificate for garam to be verified against''))
            else Inr (certsFromPEM env trusted))
   }"

definition operatorCertificate :: "env \<Rightarrow> string \<Rightarrow> string \<Rightarrow> (history, error + tls_certificate) state" where
  "operatorCertificate env certificateFile keyFile = do {
     r \<leftarrow> call (\<lambda>h. loadX509KeyPair env h certificateFile keyFile) (LoadX509KeyPair certificateFile keyFile);
     State_Monad.return
       (case r of
          Inl e \<Rightarrow> Inl (Wrapped ''read the certificate this operator authenticates to garam with'' e)
        | Inr certificate \<Rightarrow> Inr certificate)
   }"

definition mutualTLS :: "string list \<Rightarrow> string \<Rightarrow> string \<Rightarrow> tls_config" where
  "mutualTLS roots certificateFile keyFile =
     \<lparr>tls_MinVersion = VersionTLS13, tls_RootCAs = roots,
      tls_ClientCertificateFiles = Some (certificateFile, keyFile)\<rparr>"

definition client_certificate :: "env \<Rightarrow> tls_config \<Rightarrow> (history, (error + tls_certificate) option) state" where
  "client_certificate env config =
     (case tls_ClientCertificateFiles config of
        None \<Rightarrow> State_Monad.return None
      | Some (certificateFile, keyFile) \<Rightarrow> do {
          r \<leftarrow> operatorCertificate env certificateFile keyFile;
          State_Monad.return (Some r)
        })"

definition MutualTLS :: "env \<Rightarrow> string \<Rightarrow> string \<Rightarrow> string \<Rightarrow> (history, error + tls_config) state" where
  "MutualTLS env certificateFile keyFile trustFile = do {
     t \<leftarrow> trustedRoots env trustFile;
     (case t of
        Inl e \<Rightarrow> State_Monad.return (Inl e)
      | Inr roots \<Rightarrow> do {
          c \<leftarrow> operatorCertificate env certificateFile keyFile;
          State_Monad.return
            (case c of Inl e \<Rightarrow> Inl e | Inr certificate \<Rightarrow> Inr (mutualTLS roots certificateFile keyFile))
        })
   }"

definition EnrollingMutualTLS :: "env \<Rightarrow> string \<Rightarrow> string \<Rightarrow> string \<Rightarrow> (history, error + tls_config) state" where
  "EnrollingMutualTLS env certificateFile keyFile trustFile = do {
     t \<leftarrow> trustedRoots env trustFile;
     State_Monad.return
       (case t of Inl e \<Rightarrow> Inl e | Inr roots \<Rightarrow> Inr (mutualTLS roots certificateFile keyFile))
   }"

definition EnrollmentTLS :: "env \<Rightarrow> string \<Rightarrow> (history, error + tls_config) state" where
  "EnrollmentTLS env trustFile = do {
     t \<leftarrow> trustedRoots env trustFile;
     State_Monad.return
       (case t of
          Inl e \<Rightarrow> Inl e
        | Inr roots \<Rightarrow> Inr \<lparr>tls_MinVersion = VersionTLS13, tls_RootCAs = roots, tls_ClientCertificateFiles = None\<rparr>)
   }"

lemmas tls_defs = MutualTLS_def EnrollingMutualTLS_def EnrollmentTLS_def trustedRoots_def
  operatorCertificate_def mutualTLS_def

subsection \<open>Properties\<close>

text \<open>
  What every configuration verifies garam by: TLS 1.3 at the least and the certificates of the trust
  file, of which there is at least one, so that the system's roots are never fallen back on.
\<close>

definition verifies_garam :: "env \<Rightarrow> history \<Rightarrow> string \<Rightarrow> tls_config \<Rightarrow> bool" where
  "verifies_garam env h trustFile cfg \<longleftrightarrow>
     tls_MinVersion cfg = VersionTLS13 \<and> tls_RootCAs cfg \<noteq> []
     \<and> (\<exists>pem. readFile env h trustFile = Inr pem \<and> tls_RootCAs cfg = certsFromPEM env pem)"

text \<open>Whichever way the operator starts, a configuration it gets speaks TLS 1.3 and trusts exactly the
  certificates of the trust file, at least one of them. The one for a running operator needs a
  certificate that loads at startup, the enrolling one reads none there, both hand the handshake the
  same two files, and the one an enrollment is called over presents no certificate at all.\<close>

theorem tls_configurations:
  "(run_state (MutualTLS env cf kf tf) h = (Inr cfg, t) \<longrightarrow>
      verifies_garam env h tf cfg \<and> tls_ClientCertificateFiles cfg = Some (cf, kf)
      \<and> (\<exists>c. last t = LoadX509KeyPair cf kf (Inr c)))
   \<and> (run_state (EnrollingMutualTLS env cf kf tf) h = (Inr cfg, t) \<longrightarrow>
      verifies_garam env h tf cfg \<and> tls_ClientCertificateFiles cfg = Some (cf, kf) \<and> length t = Suc (length h))
   \<and> (run_state (EnrollmentTLS env tf) h = (Inr cfg, t) \<longrightarrow>
      verifies_garam env h tf cfg \<and> tls_ClientCertificateFiles cfg = None)"
  by (auto simp: tls_defs run_simps verifies_garam_def split: sum.splits if_splits)

theorem tls_configurations_witness:
  "\<exists>cfg. verifies_garam (refusing_env\<lparr>readFile := (\<lambda>h f. Inr ''root''), certsFromPEM := (\<lambda>s. [s])\<rparr>) [] ''ca.pem'' cfg"
proof -
  let ?env = "refusing_env\<lparr>readFile := (\<lambda>h f. Inr ''root''), certsFromPEM := (\<lambda>s. [s])\<rparr>"
  have "\<exists>cfg t. run_state (EnrollmentTLS ?env ''ca.pem'') [] = (Inr cfg, t)"
    by (simp add: tls_defs run_simps)
  then show ?thesis using tls_configurations [of ?env "''c''" "''k''" "''ca.pem''" "[]"] by blast
qed

text \<open>A configuration holds no certificate: what a handshake presents is what the two files hold when
  the handshake happens, so a renewed certificate is presented without a restart.\<close>

theorem handshake_reads_files:
  "run_state (client_certificate env (mutualTLS roots cf kf)) h =
     (Some (case loadX509KeyPair env h cf kf of
        Inl e \<Rightarrow> Inl (Wrapped ''read the certificate this operator authenticates to garam with'' e)
      | Inr c \<Rightarrow> Inr c), h @ [LoadX509KeyPair cf kf (loadX509KeyPair env h cf kf)])"
  by (simp add: client_certificate_def tls_defs run_simps split: sum.splits)

end
