(* ===== verification/Enroller.thy ===== *)
theory Enroller
  imports Client Credential_Store Mutual_Tls
begin

text \<open>
  Enrollment (\<^verbatim>\<open>src/internal/garam/enroller.go\<close>) and the certificate request it sends
  (\<^verbatim>\<open>src/internal/garam/certificate_request.go\<close>). The mutable field \<^verbatim>\<open>spent\<close> is threaded: an attempt
  returns whether it is over together with the enroller as it leaves it. The loop over a PEM's blocks
  runs on fuel, one unit a byte and one over, which is enough because every block \<^verbatim>\<open>pem.Decode\<close> finds
  takes bytes off the rest (\<open>pem_progress\<close>).
\<close>

definition NewCertificateRequest :: "env \<Rightarrow> (history, error + CertificateRequest) state" where
  "NewCertificateRequest env = do {
     g \<leftarrow> call (\<lambda>h. generateKey env h) GenerateKey;
     (case g of
        Inl e \<Rightarrow> State_Monad.return
          (Inl (Wrapped ''generate the key this operator authenticates to garam with'' e))
      | Inr key \<Rightarrow> do {
          q \<leftarrow> call (\<lambda>h. createCertificateRequest env h key) (CreateCertificateRequest key);
          State_Monad.return
            (case q of
               Inl e \<Rightarrow> Inl (Wrapped ''build the certificate signing request this operator enrolls with'' e)
             | Inr requestDER \<Rightarrow>
                 (case marshalPKCS8PrivateKey env key of
                    Inl e \<Rightarrow> Inl (Wrapped ''render the key this operator authenticates to garam with'' e)
                  | Inr keyDER \<Rightarrow> Inr
                      \<lparr>req_RequestPEM = pemEncode \<lparr>pb_Type = ''CERTIFICATE REQUEST'', pb_Bytes = requestDER\<rparr>,
                       req_KeyPEM = pemEncode \<lparr>pb_Type = ''PRIVATE KEY'', pb_Bytes = keyDER\<rparr>\<rparr>))
        })
   }"

record Enroller =
  en_client :: Client
  en_store :: CredentialStore
  en_spent :: "string list"
  en_tokenFile :: string
  en_certificateFile :: string
  en_keyFile :: string
  en_trustFile :: string

definition NewEnroller ::
  "Client \<Rightarrow> CredentialStore \<Rightarrow> string \<Rightarrow> string \<Rightarrow> string \<Rightarrow> string \<Rightarrow> Enroller" where
  "NewEnroller c store tokenFile certificateFile keyFile trustFile =
     \<lparr>en_client = c, en_store = store, en_spent = [], en_tokenFile = tokenFile,
      en_certificateFile = certificateFile, en_keyFile = keyFile, en_trustFile = trustFile\<rparr>"

definition tokenDigest :: "string \<Rightarrow> string" where
  "tokenDigest token = hex_encode (sha256 token)"

fun fingerprints_of :: "'a lib_scheme \<Rightarrow> nat \<Rightarrow> string \<Rightarrow> string list" where
  "fingerprints_of lib 0 rest = []"
| "fingerprints_of lib (Suc n) rest =
     (case pemDecode lib rest of
        None \<Rightarrow> []
      | Some (block, rest') \<Rightarrow>
          (if pb_Type block = ''CERTIFICATE'' then [hex_encode (sha256 (pb_Bytes block))] else [])
          @ fingerprints_of lib n rest')"

definition certificateFingerprints :: "'a lib_scheme \<Rightarrow> string \<Rightarrow> string list" where
  "certificateFingerprints lib encoded = fingerprints_of lib (Suc (length encoded)) encoded"

definition readFileOrNothing :: "env \<Rightarrow> string \<Rightarrow> (history, string) state" where
  "readFileOrNothing env name = do {
     r \<leftarrow> call (\<lambda>h. readFile env h name) (ReadFile name);
     State_Monad.return (case r of Inl e \<Rightarrow> [] | Inr content \<Rightarrow> content)
   }"

definition reportServerRoot :: "env \<Rightarrow> Enroller \<Rightarrow> string \<Rightarrow> (history, unit) state" where
  "reportServerRoot env e answered =
     (let answers = certificateFingerprints env answered in
      if answers = [] then log LogDebug ''Compared no garam server root: the enrollment answered none'' []
      else do {
        content \<leftarrow> readFileOrNothing env (en_trustFile e);
        (let trusted = certificateFingerprints env content in
         if \<exists>answer\<in>set answers. answer \<notin> set trusted
         then log LogInfo
           (''The garam server root this enrollment answered is not one this operator verifies garam by. ''
            @ ''Nothing here rewrites what verifies garam, so carrying a rotation into that file is the deployment's'')
           [(''answered'', LvStrs answers), (''trusted'', LvStrs trusted), (''file'', LvStr (en_trustFile e))]
         else State_Monad.return ())
      })"

definition operatorCertificateExpiry :: "env \<Rightarrow> string \<Rightarrow> string \<Rightarrow> (history, time option) state" where
  "operatorCertificateExpiry env certificateFile keyFile = do {
     r \<leftarrow> operatorCertificate env certificateFile keyFile;
     State_Monad.return (case r of Inl e \<Rightarrow> None | Inr certificate \<Rightarrow> Some (tc_Leaf_NotAfter certificate))
   }"

text \<open>What \<^verbatim>\<open>enroll\<close> does with a certificate garam answered.\<close>

definition keep_enrolled ::
  "env \<Rightarrow> Enroller \<Rightarrow> CertificateRequest \<Rightarrow> EnrolledCertificate \<Rightarrow> (history, bool) state" where
  "keep_enrolled env e request enrolled = do {
     reportServerRoot env e (enr_ServerRootPEM enrolled);
     s \<leftarrow> en_store e \<lparr>cr_CertificatePEM = enr_CertificatePEM enrolled, cr_KeyPEM = req_KeyPEM request\<rparr>;
     (case s of
        Inl err \<Rightarrow> do {
          log LogError
            (''Lost the certificate this operator enrolled with. garam signed a key it never ''
             @ ''held and can answer no second copy, and the token is spent: ask for another token, which ''
             @ ''this operator presents from this file without being restarted'')
            [(''error'', LvErr err), (''file'', LvStr (en_tokenFile e))];
          State_Monad.return False
        }
      | Inr u \<Rightarrow> do {
          log LogInfo
            (''Enrolled this operator. The kubelet carries the credential into the volume this ''
             @ ''operator reads it from, and the calls before it lands fail at the handshake'')
            [(''operator'', LvStr (enr_Operator enrolled)), (''notAfter'', LvTime (enr_NotAfter enrolled))];
          State_Monad.return True
        })
   }"

definition enroll :: "env \<Rightarrow> Enroller \<Rightarrow> string \<Rightarrow> (history, bool \<times> Enroller) state" where
  "enroll env e token = do {
     q \<leftarrow> NewCertificateRequest env;
     (case q of
        Inl err \<Rightarrow> do {
          log LogError
            (''Cannot enroll this operator. Nothing was presented and the token stands, ''
             @ ''so what presents it is the next look at this file'')
            [(''error'', LvErr err), (''file'', LvStr (en_tokenFile e))];
          State_Monad.return (False, e)
        }
      | Inr request \<Rightarrow>
          (let e' = e\<lparr>en_spent := en_spent e @ [tokenDigest token]\<rparr> in do {
            r \<leftarrow> Enroll env (en_client e') token request;
            (case r of
               Inl err \<Rightarrow> do {
                 (if errors_Is err ErrTokenNotUsable
                  then log LogError
                    (''Cannot enroll this operator. Spent, expired and never-minted are one answer ''
                     @ ''and nothing here tells them apart: ask for another token, which this operator presents ''
                     @ ''from this file without being restarted'')
                    [(''error'', LvErr err), (''file'', LvStr (en_tokenFile e'))]
                  else log LogError
                    (''Failed to enroll this operator. A token is spent by the call that presents it, ''
                     @ ''so this one is gone if the call reached garam: ask for another token, which this operator ''
                     @ ''presents from this file without being restarted'')
                    [(''error'', LvErr err), (''file'', LvStr (en_tokenFile e'))]);
                 State_Monad.return (False, e')
               }
             | Inr enrolled \<Rightarrow> do {
                 kept \<leftarrow> keep_enrolled env e' request enrolled;
                 State_Monad.return (kept, e')
               })
          }))
   }"

text \<open>The part of \<^verbatim>\<open>attempt\<close> after the certificate: read the token and spend it where it is a new one.\<close>

definition attempt_token :: "env \<Rightarrow> Enroller \<Rightarrow> (history, bool \<times> Enroller) state" where
  "attempt_token env e = do {
     r \<leftarrow> call (\<lambda>h. readFile env h (en_tokenFile e)) (ReadFile (en_tokenFile e));
     (case r of
        Inl err \<Rightarrow> do {
          (if \<not> is_not_exist err
           then log LogDebug ''Read no enrollment token'' [(''file'', LvStr (en_tokenFile e)), (''reason'', LvErr err)]
           else State_Monad.return ());
          State_Monad.return (False, e)
        }
      | Inr token \<Rightarrow>
          (let presented = trim_space token in
           if presented = [] then State_Monad.return (False, e)
           else if tokenDigest presented \<in> set (en_spent e) then State_Monad.return (False, e)
           else enroll env e presented))
   }"

definition attempt :: "env \<Rightarrow> Enroller \<Rightarrow> (history, bool \<times> Enroller) state" where
  "attempt env e = do {
     held \<leftarrow> operatorCertificateExpiry env (en_certificateFile e) (en_keyFile e);
     (case held of
        None \<Rightarrow> attempt_token env e
      | Some expiry \<Rightarrow> do {
          now \<leftarrow> call (\<lambda>h. timeNow env h) TimeNow;
          (if now < expiry then do {
             log LogInfo ''Enrolling nothing: this operator holds a certificate that has not expired''
               [(''notAfter'', LvTime expiry)];
             State_Monad.return (True, e)
           }
           else do {
             log LogDebug ''Enrolling this operator: the certificate it holds has expired''
               [(''notAfter'', LvTime expiry), (''file'', LvStr (en_certificateFile e))];
             attempt_token env e
           })
        })
   }"

definition tokenInterval :: int where
  "tokenInterval = 10 * 1000000000"

text \<open>
  \<^verbatim>\<open>wait.PollUntilContextCancel\<close> attempts once an interval until an attempt reports it is over:
  at most \<open>n\<close> times before the context is cancelled. The state each leaves the enroller in is the
  next one's.
\<close>

fun enroll_poll :: "nat \<Rightarrow> env \<Rightarrow> Enroller \<Rightarrow> (history, Enroller) state" where
  "enroll_poll 0 env e = State_Monad.return e"
| "enroll_poll (Suc n) env e = do {
     (over, e') \<leftarrow> attempt env e;
     (if over then State_Monad.return e' else enroll_poll n env e')
   }"

definition Enroller_Start :: "nat \<Rightarrow> env \<Rightarrow> Enroller \<Rightarrow> (history, Enroller) state" where
  "Enroller_Start n env e = do {
     (over, e') \<leftarrow> attempt env e;
     (if over then State_Monad.return e'
      else do {
        log LogInfo ''Enrolling this operator when a token is placed'' [(''file'', LvStr (en_tokenFile e'))];
        enroll_poll n env e'
      })
   }"

subsection \<open>Fingerprints\<close>

definition pem_progress :: "'a lib_scheme \<Rightarrow> bool" where
  "pem_progress lib \<longleftrightarrow> (\<forall>s b r. pemDecode lib s = Some (b, r) \<longrightarrow> length r < length s)"

lemma fingerprints_enough_fuel:
  assumes "pem_progress lib" and "length s < m" and "length s < n"
  shows "fingerprints_of lib m s = fingerprints_of lib n s"
  using assms(2,3)
proof (induction m arbitrary: n s)
  case (Suc m)
  then obtain k where n: "n = Suc k" by (cases n) auto
  show ?case
  proof (cases "pemDecode lib s")
    case None
    then show ?thesis using n by simp
  next
    case (Some p)
    obtain b r where p: "p = (b, r)" by fastforce
    then have "length r < length s" using assms(1) Some by (simp add: pem_progress_def)
    then show ?thesis using Suc.IH [of r k] Suc.prems n Some p by simp
  qed
qed simp

subsection \<open>The tokens a run presents\<close>

text \<open>The token a request carries, whatever route it goes to, and the tokens of a list of events.\<close>

fun event_token :: "event \<Rightarrow> string option" where
  "event_token (Http q r) =
     (case hr_Body q of
        None \<Rightarrow> None
      | Some j \<Rightarrow> (case json_member j ''token'' of Some (JStr t) \<Rightarrow> Some t | _ \<Rightarrow> None))"
| "event_token e = None"

definition tokens :: "history \<Rightarrow> string list" where
  "tokens es = List.map_filter event_token es"

lemma tokens_simps [simp]:
  "tokens [] = []"
  "tokens (e # es) = (case event_token e of None \<Rightarrow> tokens es | Some t \<Rightarrow> t # tokens es)"
  by (simp_all add: tokens_def map_filter_def split: option.splits)

lemma tokens_append [simp]: "tokens (xs @ ys) = tokens xs @ tokens ys"
  by (simp add: tokens_def map_filter_def)

lemma event_token_quiet: "\<not> is_http e \<Longrightarrow> event_token e = None"
  by (cases e) auto

lemma tokens_quiet: "\<forall>e\<in>set es. \<not> is_http e \<Longrightarrow> tokens es = []"
  by (induction es) (simp_all add: event_token_quiet)

lemma enrollment_token [simp]:
  "event_token (Http (request_for c m p (Some (enrollment t csr))) r) = Some t"
  by (simp add: request_for_def enrollment_def json_member_def)

declare event_token.simps(1) [simp del]

lemma run_Enroll:
  "\<exists>es. snd (run_state (Enroll env c t q) h) = h @ es \<and> tokens es \<in> {[], [t]}"
  by (auto simp: Enroll_def run_simps run_send Let_def split: option.splits prod.splits)

text \<open>Nothing but the call to garam presents a token.\<close>

lemma quiet_tokens:
  assumes "emits (\<lambda>e. \<not> is_http e) m"
  shows "\<exists>es. snd (run_state m h) = h @ es \<and> tokens es = []"
  by (metis assms emitsE prod.collapse tokens_quiet)

lemma reportServerRoot_quiet: "emits (\<lambda>e. \<not> is_http e) (reportServerRoot env e answered)"
  by (auto simp: reportServerRoot_def readFileOrNothing_def intro!: emits_intros emits_call emits_log)

lemma request_quiet: "emits (\<lambda>e. \<not> is_http e) (NewCertificateRequest env)"
  by (auto simp: NewCertificateRequest_def intro!: emits_intros emits_call)

text \<open>
  One attempt presents at most one token, one whose digest was not recorded, and records it.
  Whatever the attempt, what is recorded is never forgotten.
\<close>

definition attempts_fresh :: "env \<Rightarrow> Enroller \<Rightarrow> Enroller \<Rightarrow> history \<Rightarrow> bool" where
  "attempts_fresh env e e' es \<longleftrightarrow>
     en_store e' = en_store e \<and>
     (en_spent e' = en_spent e \<and> tokens es = []
      \<or> (\<exists>t. tokenDigest t \<notin> set (en_spent e) \<and> en_spent e' = en_spent e @ [tokenDigest t]
           \<and> tokens es \<in> {[], [t]}))"

context credential_store
begin

lemma keep_quiet: "en_store e = store \<Longrightarrow> emits (\<lambda>x. \<not> is_http x) (keep_enrolled env e request enrolled)"
proof -
  assume st: "en_store e = store"
  have "emits (\<lambda>x. \<not> is_http x) (store cr)" for cr by (rule emits_mono [OF store_local]) simp
  then show ?thesis
    unfolding keep_enrolled_def st
    by (auto intro!: emits_intros emits_log reportServerRoot_quiet)
qed

lemma enroll_fresh:
  assumes "en_store e = store" and "tokenDigest t \<notin> set (en_spent e)"
    and "run_state (enroll env e t) h = ((over, e'), h')"
  shows "\<exists>es. h' = h @ es \<and> attempts_fresh env e e' es"
proof -
  obtain q h1 where q: "run_state (NewCertificateRequest env) h = (q, h1)" by fastforce
  obtain es where es: "h1 = h @ es" "tokens es = []"
    using quiet_tokens [OF request_quiet, of env h] q by auto
  show ?thesis
  proof (cases q)
    case (Inl x)
    then show ?thesis using assms q es by (auto simp: enroll_def run_simps attempts_fresh_def)
  next
    case (Inr request)
    let ?e = "e\<lparr>en_spent := en_spent e @ [tokenDigest t]\<rparr>"
    obtain r h2 where r: "run_state (Enroll env (en_client e) t request) h1 = (r, h2)" by fastforce
    obtain fs where fs: "h2 = h1 @ fs" "tokens fs \<in> {[], [t]}"
      using run_Enroll [of env "en_client e" t request h1] r by auto
    show ?thesis
    proof (cases r)
      case (Inl x)
      then show ?thesis using assms q es Inr r fs
        by (auto simp: enroll_def run_simps attempts_fresh_def Let_def split: if_splits)
    next
      case (Inr enrolled)
      obtain k h3 where k: "run_state (keep_enrolled env ?e request enrolled) h2 = (k, h3)" by fastforce
      have "emits (\<lambda>x. \<not> is_http x) (keep_enrolled env ?e request enrolled)"
        using assms(1) by (intro keep_quiet) simp
      from quiet_tokens [OF this, of h2] k obtain gs where gs: "h3 = h2 @ gs" "tokens gs = []" by auto
      have "e' = ?e" "h' = h3"
        using assms(3) q \<open>q = Inr request\<close> r Inr k by (simp_all add: enroll_def run_simps Let_def)
      then show ?thesis using es fs gs assms(2) by (auto simp: attempts_fresh_def)
    qed
  qed
qed

lemma attempt_token_fresh:
  assumes "en_store e = store" and "run_state (attempt_token env e) h = ((over, e'), h')"
  shows "\<exists>es. h' = h @ es \<and> attempts_fresh env e e' es"
proof -
  define f where "f = readFile env h (en_tokenFile e)"
  define h1 where "h1 = h @ [ReadFile (en_tokenFile e) f]"
  let ?t = "trim_space (projr f)"
  show ?thesis
  proof (cases "\<not> isl f \<and> ?t \<noteq> [] \<and> tokenDigest ?t \<notin> set (en_spent e)")
    case True
    then have "run_state (enroll env e ?t) h1 = ((over, e'), h')"
      using assms(2) by (auto simp: attempt_token_def run_simps f_def h1_def Let_def split: sum.splits)
    from enroll_fresh [OF assms(1) _ this] True obtain es where
      "h' = h1 @ es" "attempts_fresh env e e' es" by blast
    then show ?thesis by (auto simp: h1_def attempts_fresh_def)
  next
    case False
    then show ?thesis using assms(2)
      by (auto simp: attempt_token_def run_simps f_def h1_def Let_def attempts_fresh_def
          split: sum.splits if_splits)
  qed
qed

lemma attempt_fresh:
  assumes "en_store e = store" and "run_state (attempt env e) h = ((over, e'), h')"
  shows "\<exists>es. h' = h @ es \<and> attempts_fresh env e e' es"
proof -
  have quiet: "emits (\<lambda>x. \<not> is_http x) (operatorCertificateExpiry env (en_certificateFile e) (en_keyFile e))"
    by (auto simp: operatorCertificateExpiry_def operatorCertificate_def intro!: emits_intros emits_call)
  obtain held h1 where held: "run_state (operatorCertificateExpiry env (en_certificateFile e) (en_keyFile e)) h
      = (held, h1)" by fastforce
  obtain es where es: "h1 = h @ es" "tokens es = []" using quiet_tokens [OF quiet, of h] held by auto
  have tail: "\<exists>fs. h' = h2 @ fs \<and> attempts_fresh env e e' fs"
    if "run_state (attempt_token env e) h2 = ((over, e'), h')" for h2
    using attempt_token_fresh [OF assms(1) that] .
  show ?thesis
  proof (cases held)
    case None
    then have "run_state (attempt_token env e) h1 = ((over, e'), h')"
      using assms(2) held by (simp add: attempt_def run_simps)
    from tail [OF this] es show ?thesis by (auto simp: attempts_fresh_def)
  next
    case (Some expiry)
    let ?h2 = "h1 @ [TimeNow (timeNow env h1), Log LogDebug ''Enrolling this operator: the certificate it holds has expired''
        [(''notAfter'', LvTime expiry), (''file'', LvStr (en_certificateFile e))]]"
    show ?thesis
    proof (cases "timeNow env h1 < expiry")
      case True
      then show ?thesis using assms(2) held Some es by (auto simp: attempt_def run_simps attempts_fresh_def)
    next
      case False
      then have "run_state (attempt_token env e) ?h2 = ((over, e'), h')"
        using assms(2) held Some by (simp add: attempt_def run_simps)
      from tail [OF this] es show ?thesis by (auto simp: attempts_fresh_def)
    qed
  qed
qed

end

subsection \<open>The tokens of the whole run\<close>

definition fresh_tokens :: "env \<Rightarrow> Enroller \<Rightarrow> history \<Rightarrow> bool" where
  "fresh_tokens env e es \<longleftrightarrow>
     distinct (map tokenDigest (tokens es))
     \<and> set (map tokenDigest (tokens es)) \<inter> set (en_spent e) = {}"

lemma fresh_tokens_attempt: "attempts_fresh env e e' es \<Longrightarrow> fresh_tokens env e es"
  by (auto simp: attempts_fresh_def fresh_tokens_def)

lemma fresh_tokens_append:
  "attempts_fresh env e e' es \<Longrightarrow> fresh_tokens env e' fs \<Longrightarrow> fresh_tokens env e (es @ fs)"
  by (auto simp: attempts_fresh_def fresh_tokens_def)

lemma fresh_tokens_quiet: "tokens es = [] \<Longrightarrow> fresh_tokens env e (es @ fs) = fresh_tokens env e fs"
  by (simp add: fresh_tokens_def)

context credential_store
begin

lemma enroll_poll_fresh:
  assumes "en_store e = store"
  shows "\<exists>es. snd (run_state (enroll_poll n env e) h) = h @ es \<and> fresh_tokens env e es"
  using assms
proof (induction n arbitrary: e h)
  case (Suc n)
  obtain over e' h1 where a: "run_state (attempt env e) h = ((over, e'), h1)" by (metis prod.collapse)
  from attempt_fresh [OF Suc.prems this] obtain es where
    es: "h1 = h @ es" "attempts_fresh env e e' es" by blast
  show ?case
  proof (cases over)
    case True
    then show ?thesis using a es fresh_tokens_attempt by (auto simp: run_simps)
  next
    case False
    have "en_store e' = store" using es(2) Suc.prems by (simp add: attempts_fresh_def)
    from Suc.IH [OF this, of h1] obtain fs where
      "snd (run_state (enroll_poll n env e') h1) = h1 @ fs" "fresh_tokens env e' fs" by blast
    then show ?thesis using a es False fresh_tokens_append by (auto simp: run_simps)
  qed
qed (simp add: run_simps fresh_tokens_def)

lemma start_fresh:
  assumes "en_store e = store"
  shows "fresh_tokens env e (appended (Enroller_Start n env e) h)"
proof -
  obtain over e' h1 where a: "run_state (attempt env e) h = ((over, e'), h1)" by (metis prod.collapse)
  from attempt_fresh [OF assms this] obtain es where
    es: "h1 = h @ es" "attempts_fresh env e e' es" by blast
  show ?thesis
  proof (cases over)
    case True
    then show ?thesis using a es fresh_tokens_attempt by (auto simp: appended_def Enroller_Start_def run_simps)
  next
    case False
    have st: "en_store e' = store" using es(2) assms by (simp add: attempts_fresh_def)
    let ?l = "Log LogInfo ''Enrolling this operator when a token is placed'' [(''file'', LvStr (en_tokenFile e'))]"
    obtain fs where fs: "snd (run_state (enroll_poll n env e') (h1 @ [?l])) = (h1 @ [?l]) @ fs"
      "fresh_tokens env e' fs" using enroll_poll_fresh [OF st] by blast
    then have "appended (Enroller_Start n env e) h = es @ ?l # fs"
      using a es False by (simp add: appended_def Enroller_Start_def run_simps)
    moreover have "fresh_tokens env e' ([?l] @ fs)" using fs(2) by (simp add: fresh_tokens_def)
    ultimately show ?thesis using fresh_tokens_append [OF es(2)] by simp
  qed
qed

end

subsection \<open>Properties\<close>

text \<open>However long an operator waits to enroll, and whatever the token file holds at each look, it
  presents any one token to garam at most once: the tokens its requests carry are all different, and
  so are their digests.\<close>

theorem token_presented_once:
  "distinct (map tokenDigest
     (tokens (appended (Enroller_Start n env
        (NewEnroller c (Secret_ReplaceCredential env s) tokenFile certificateFile keyFile trustFile)) h)))
   \<and> distinct (tokens (appended (Enroller_Start n env
        (NewEnroller c (Secret_ReplaceCredential env s) tokenFile certificateFile keyFile trustFile)) h))"
proof -
  let ?e = "NewEnroller c (Secret_ReplaceCredential env s) tokenFile certificateFile keyFile trustFile"
  have "fresh_tokens env ?e (appended (Enroller_Start n env ?e) h)"
    by (rule secret_store.start_fresh) (simp add: NewEnroller_def)
  then show ?thesis by (auto simp: fresh_tokens_def distinct_map)
qed

text \<open>A certificate that has not expired ends the enrollment: no token file is read, nothing is sent
  and nothing is recorded or stored.\<close>

theorem held_certificate_enrolls_nothing:
  assumes "loadX509KeyPair env h (en_certificateFile e) (en_keyFile e) = Inr certificate"
    and "timeNow env (h @ [LoadX509KeyPair (en_certificateFile e) (en_keyFile e) (Inr certificate)])
      < tc_Leaf_NotAfter certificate"
  shows "run_state (Enroller_Start n env e) h = (e, h @
    [LoadX509KeyPair (en_certificateFile e) (en_keyFile e) (Inr certificate),
     TimeNow (timeNow env (h @ [LoadX509KeyPair (en_certificateFile e) (en_keyFile e) (Inr certificate)])),
     Log LogInfo ''Enrolling nothing: this operator holds a certificate that has not expired''
       [(''notAfter'', LvTime (tc_Leaf_NotAfter certificate))]])"
  using assms
  by (simp add: Enroller_Start_def attempt_def operatorCertificateExpiry_def operatorCertificate_def run_simps)

definition demo_enroller :: "env \<Rightarrow> Enroller" where
  "demo_enroller env = NewEnroller demo_client
     (Secret_ReplaceCredential env (NewSecret (''ns'', ''garam'') ''tls.crt'' ''tls.key''))
     ''/token'' ''/tls.crt'' ''/tls.key'' ''/ca.pem''"

theorem held_certificate_enrolls_nothing_witness:
  "length (snd (run_state (Enroller_Start 3
     (refusing_env\<lparr>loadX509KeyPair := (\<lambda>h c k. Inr \<lparr>tc_Leaf_NotAfter = 9\<rparr>)\<rparr>) (demo_enroller refusing_env)) [])) = 3"
proof -
  let ?env = "refusing_env\<lparr>loadX509KeyPair := (\<lambda>h c k. Inr \<lparr>tc_Leaf_NotAfter = 9\<rparr>)\<rparr>"
  have "timeNow ?env h < tc_Leaf_NotAfter \<lparr>tc_Leaf_NotAfter = 9\<rparr>" for h by (simp add: refusing_env_def)
  moreover have "loadX509KeyPair ?env [] c k = Inr \<lparr>tc_Leaf_NotAfter = 9\<rparr>" for c k by simp
  ultimately show ?thesis using held_certificate_enrolls_nothing [of ?env "[]"] by simp
qed

text \<open>
  The certificate request \<open>q\<close> is over the key \<open>k\<close>: the request was built with it, and the key stored
  beside the certificate is that key.
\<close>

definition request_over :: "env \<Rightarrow> ec_key \<Rightarrow> string \<Rightarrow> CertificateRequest \<Rightarrow> bool" where
  "request_over env k der q \<longleftrightarrow>
     req_RequestPEM q = pemEncode \<lparr>pb_Type = ''CERTIFICATE REQUEST'', pb_Bytes = der\<rparr>
     \<and> (\<exists>kd. marshalPKCS8PrivateKey env k = Inr kd
          \<and> req_KeyPEM q = pemEncode \<lparr>pb_Type = ''PRIVATE KEY'', pb_Bytes = kd\<rparr>)"

lemma NewCertificateRequest_over:
  assumes "run_state (NewCertificateRequest env) h = (Inr q, t)"
  shows "\<exists>k der. t = h @ [GenerateKey (Inr k), CreateCertificateRequest k (Inr der)] \<and> request_over env k der q"
  using assms
  by (auto simp: NewCertificateRequest_def run_simps request_over_def split: sum.splits)

lemma run_Enroll_answered:
  assumes "run_state (Enroll env c token q) h = (Inr enrolled, t)"
  shows "\<exists>r. t = h @ [Http (request_for c ''POST'' ''/enrollment'' (Some (enrollment token (req_RequestPEM q)))) r]
    \<and> enr_CertificatePEM enrolled \<noteq> []"
  using assms
  by (auto simp: Enroll_def run_simps run_send Let_def payload_enrolledCertificate_def
      split: option.splits prod.splits sum.splits if_splits)

lemma keep_enrolled_stored:
  assumes "run_state (keep_enrolled env (NewEnroller c (Secret_ReplaceCredential env s) tf cf kf rf\<lparr>en_spent := sp\<rparr>)
      q enrolled) h = (True, t)"
  shows "\<exists>es e. t = h @ es \<and> e \<in> set es
    \<and> patched s \<lparr>cr_CertificatePEM = enr_CertificatePEM enrolled, cr_KeyPEM = req_KeyPEM q\<rparr> e"
proof -
  let ?e = "NewEnroller c (Secret_ReplaceCredential env s) tf cf kf rf\<lparr>en_spent := sp\<rparr>"
  let ?cr = "\<lparr>cr_CertificatePEM = enr_CertificatePEM enrolled, cr_KeyPEM = req_KeyPEM q\<rparr>"
  obtain h1 where root: "run_state (reportServerRoot env ?e (enr_ServerRootPEM enrolled)) h = ((), h1)"
    by (metis old.unit.exhaust surj_pair)
  obtain es where es: "h1 = h @ es" using reportServerRoot_quiet root by (rule emitsE)
  obtain r h2 where r: "run_state (Secret_ReplaceCredential env s ?cr) h1 = (r, h2)" by fastforce
  have "r = Inr ()" and t: "t = h2 @ drop (length h2) t"
    using assms root r by (auto simp: keep_enrolled_def run_simps NewEnroller_def split: sum.splits)
  with secret_store.stored r obtain fs e where "h2 = h1 @ fs @ [e]" "patched s ?cr e" by blast
  with es t show ?thesis
    by (intro exI [of _ "es @ fs @ [e] @ drop (length h2) t"] exI [of _ e]) auto
qed

text \<open>C18: An enrollment that reports success generated one key, sent the token with a request over that key,
  and put in the Secret the certificate garam answered beside that same key, in that order.\<close>

theorem enrolled_certificate_beside_its_key:
  assumes "run_state (enroll env (NewEnroller c (Secret_ReplaceCredential env s) tf cf kf rf\<lparr>en_spent := sp\<rparr>) token) h
      = ((True, e'), t)"
  shows "\<exists>k der q enrolled r es x.
      t = h @ [GenerateKey (Inr k), CreateCertificateRequest k (Inr der),
               Http (request_for c ''POST'' ''/enrollment'' (Some (enrollment token (req_RequestPEM q)))) r] @ es
    \<and> request_over env k der q
    \<and> fst (run_state (Enroll env c token q) (h @ [GenerateKey (Inr k), CreateCertificateRequest k (Inr der)]))
        = Inr enrolled
    \<and> enr_CertificatePEM enrolled \<noteq> [] \<and> x \<in> set es
    \<and> patched s \<lparr>cr_CertificatePEM = enr_CertificatePEM enrolled, cr_KeyPEM = req_KeyPEM q\<rparr> x"
proof -
  let ?e = "NewEnroller c (Secret_ReplaceCredential env s) tf cf kf rf"
  obtain q h1 where q: "run_state (NewCertificateRequest env) h = (q, h1)" by fastforce
  then obtain request where req: "q = Inr request" using assms by (cases q) (auto simp: enroll_def run_simps)
  obtain r h2 where r: "run_state (Enroll env c token request) h1 = (r, h2)" by fastforce
  then obtain enrolled where enr: "r = Inr enrolled"
    using assms q req by (cases r) (auto simp: enroll_def run_simps Let_def NewEnroller_def split: if_splits)
  have "run_state (keep_enrolled env (?e\<lparr>en_spent := sp @ [tokenDigest token]\<rparr>) request enrolled) h2 = (True, t)"
    using assms q req r enr by (auto simp: enroll_def run_simps Let_def NewEnroller_def split: prod.splits)
  from keep_enrolled_stored [OF this] NewCertificateRequest_over [OF q [unfolded req]]
    run_Enroll_answered [OF r [unfolded enr]] r enr
  show ?thesis by fastforce
qed

definition demo_enrolled :: json where
  "demo_enrolled = JObj [(''grn'', JStr ''grn:op''), (''certificatePem'', JStr ''C''), (''notAfter'', JStr ''t'')]"

lemma demo_enrolled_decodes:
  "dec_struct (dec_enrolledCertificate_fields (\<lambda>s. Inr 7)) demo_enrolled = Inr
     \<lparr>ecp_GRN = ''grn:op'', ecp_CertificatePEM = ''C'', ecp_ServerRootPEM = [], ecp_NotAfter = 7\<rparr>"
  by code_simp

definition demo_enrolling_env :: env where
  "demo_enrolling_env = refusing_env\<lparr>httpDo := answering 200 (Document demo_enrolled),
     parseTime := (\<lambda>s. Inr 7), generateKey := (\<lambda>h. Inr ''key''),
     createCertificateRequest := (\<lambda>h k. Inr ''der''),
     pemDecode := (\<lambda>s. if s = [] then None else Some (\<lparr>pb_Type = [], pb_Bytes = s\<rparr>, [])),
     readFile := (\<lambda>h f. Inr ''tok''), patchSecret := (\<lambda>h k p. Inr ())\<rparr>"

lemma demo_enrolls:
  "fst (fst (run_state (enroll demo_enrolling_env (demo_enroller demo_enrolling_env) ''tok'') [])) = True"
  by (simp add: enroll_def demo_enroller_def NewEnroller_def demo_enrolling_env_def NewCertificateRequest_def
      Enroll_def checkSignature_def demo_answers into_def demo_enrolled_decodes payload_enrolledCertificate_def
      keep_enrolled_def reportServerRoot_def certificateFingerprints_def Secret_ReplaceCredential_def)

theorem enrolled_certificate_beside_its_key_witness:
  "\<exists>k der q e' es. run_state (enroll demo_enrolling_env (demo_enroller demo_enrolling_env) ''tok'') [] =
     ((True, e'), [GenerateKey (Inr k), CreateCertificateRequest k (Inr der)] @ es) \<and> request_over demo_enrolling_env k der q"
proof -
  have e: "demo_enroller demo_enrolling_env = demo_enroller demo_enrolling_env\<lparr>en_spent := []\<rparr>"
    by (simp add: demo_enroller_def NewEnroller_def)
  obtain e' t where run: "run_state (enroll demo_enrolling_env (demo_enroller demo_enrolling_env\<lparr>en_spent := []\<rparr>) ''tok'') []
      = ((True, e'), t)"
    using demo_enrolls e by (metis prod.collapse)
  from enrolled_certificate_beside_its_key [OF run [unfolded demo_enroller_def]] obtain k der q es where
    "t = [GenerateKey (Inr k), CreateCertificateRequest k (Inr der)] @ es" "request_over demo_enrolling_env k der q"
    by auto
  with run e show ?thesis by metis
qed

lemma enroll_presents:
  assumes "en_store e = Secret_ReplaceCredential env s"
    and "run_state (NewCertificateRequest env) h = (Inr q, h1)" and "checkSignature env q = None"
    and "\<And>m u. newRequestError env m u = None"
    and "run_state (enroll env e token) h = ((over, e'), t)"
  shows "token \<in> set (tokens (drop (length h) t)) \<and> en_spent e' = en_spent e @ [tokenDigest token]"
proof -
  let ?e = "e\<lparr>en_spent := en_spent e @ [tokenDigest token]\<rparr>"
  let ?req = "request_for (en_client e) ''POST'' ''/enrollment'' (Some (enrollment token (req_RequestPEM q)))"
  obtain es where es: "h1 = h @ es" using request_quiet assms(2) by (rule emitsE)
  obtain r res where r: "run_state (Enroll env (en_client e) token q) h1 = (r, h1 @ [Http ?req res])"
    using assms(3,4) by (simp add: Enroll_def run_simps run_send Let_def)
  have "\<exists>gs. t = h1 @ [Http ?req res] @ gs \<and> e' = ?e"
  proof (cases r)
    case (Inl x)
    then show ?thesis using assms(2,5) r by (auto simp: enroll_def run_simps Let_def split: if_splits)
  next
    case (Inr enrolled)
    obtain k h3 where k: "run_state (keep_enrolled env ?e q enrolled) (h1 @ [Http ?req res]) = (k, h3)" by fastforce
    have "emits (\<lambda>x. \<not> is_http x) (keep_enrolled env ?e q enrolled)"
      using assms(1) by (intro secret_store.keep_quiet) simp
    then obtain gs where "h3 = (h1 @ [Http ?req res]) @ gs" using k by (rule emitsE)
    then show ?thesis using assms(2,5) r Inr k by (auto simp: enroll_def run_simps Let_def)
  qed
  then show ?thesis using es by auto
qed




definition demo_unsigned_env :: env where
  "demo_unsigned_env = demo_enrolling_env\<lparr>csrCheckSignature := (\<lambda>q. Some nothing_answers)\<rparr>"




text \<open>The server root an enrollment answers is only ever compared: nothing is written, nothing is sent,
  and the operator is told of a mismatch exactly when some answered certificate is not among the ones
  the trust file holds.\<close>

theorem reportServerRoot_compares:
  "emits (\<lambda>x. \<not> is_http x \<and> \<not> is_kube_write x) (reportServerRoot env e answered)
   \<and> ((\<exists>m kvs. Log LogInfo m kvs \<in> set (appended (reportServerRoot env e answered) h)) \<longleftrightarrow>
        (\<exists>f\<in>set (certificateFingerprints env answered).
           f \<notin> set (certificateFingerprints env
              (case readFile env h (en_trustFile e) of Inl _ \<Rightarrow> [] | Inr content \<Rightarrow> content))))"
proof
  show "emits (\<lambda>x. \<not> is_http x \<and> \<not> is_kube_write x) (reportServerRoot env e answered)"
    by (auto simp: reportServerRoot_def readFileOrNothing_def intro!: emits_intros emits_call emits_log)
qed (auto simp: appended_def reportServerRoot_def readFileOrNothing_def run_simps Let_def split: sum.splits)

end
