(* ===== verification/Workload.thy ===== *)
theory Workload
  imports World
begin

text \<open>
  The workload of an Agent (\<^verbatim>\<open>src/internal/controller/agent_statefulset.go\<close>): the function that
  writes an Agent's spec onto a StatefulSet, field by field in the order the code writes them. A
  pointer into a container slice is the list and the index it points at; the code takes none across
  an append to the same slice, and neither does the model.
\<close>

record AgentReconciler =
  rc_CopyImage :: string
  rc_ToolsImage :: string
  rc_WorkspaceImage :: string

subsection \<open>Constants\<close>

definition agentContainerName :: string where "agentContainerName = ''agent''"
definition credentialsContainerName :: string where "credentialsContainerName = ''credentials''"
definition configContainerName :: string where "configContainerName = ''config''"
definition workspaceContainerName :: string where "workspaceContainerName = ''workspace''"
definition credentialsVolumeName :: string where "credentialsVolumeName = ''credentials''"
definition credentialsSecretVolumeName :: string where "credentialsSecretVolumeName = ''credentials-secret''"
definition stateVolumeName :: string where "stateVolumeName = ''state''"
definition toolsVolumeName :: string where "toolsVolumeName = ''tools''"
definition configVolumeName :: string where "configVolumeName = ''config''"
definition credentialsMountPath :: string where "credentialsMountPath = ''/run/gagent/credentials''"
definition credentialsSecretMountPath :: string where "credentialsSecretMountPath = ''/etc/gagent/credentials''"
definition stateMountPath :: string where "stateMountPath = ''/var/lib/gagent''"
definition toolsMountPath :: string where "toolsMountPath = ''/opt/gagent/tools''"
definition toolsDirVariable :: string where "toolsDirVariable = ''GAGENT_TOOLS_DIR''"
definition configMountPath :: string where "configMountPath = ''/run/gagent/config''"
definition configHomeVariable :: string where "configHomeVariable = ''XDG_CONFIG_HOME''"
definition configContentVariable :: string where "configContentVariable = ''AGENT_CONFIG_CONTENT''"
definition configFileMask :: string where "configFileMask = ''077''"
definition listenAddressVariable :: string where "listenAddressVariable = ''GAGENT_ADDR''"
definition workspaceAddressVariable :: string where "workspaceAddressVariable = ''GAGENT_WORKSPACE_ADDR''"
definition workspaceDirVariable :: string where "workspaceDirVariable = ''GAGENT_WORKSPACE''"
definition execUserVariable :: string where "execUserVariable = ''GAGENT_EXEC_UID''"
definition workspaceAddress :: string where "workspaceAddress = ''127.0.0.1:8081''"
definition workspaceDirPath :: string where "workspaceDirPath = stateMountPath @ ''/workspace''"
definition credentialsFileMode :: int where "credentialsFileMode = 288"
definition credentialsCopyMode :: string where "credentialsCopyMode = ''0600''"
definition agentFSGroup :: int where "agentFSGroup = 65532"
definition agentRunAsUser :: int where "agentRunAsUser = 65532"
definition PullAlways :: string where "PullAlways = ''Always''"
definition SeccompProfileTypeRuntimeDefault :: string where "SeccompProfileTypeRuntimeDefault = ''RuntimeDefault''"
definition StorageMediumMemory :: string where "StorageMediumMemory = ''Memory''"
definition StorageMediumDefault :: string where "StorageMediumDefault = []"
definition ResourceStorage :: string where "ResourceStorage = ''storage''"
definition ReadWriteOnce :: string where "ReadWriteOnce = ''ReadWriteOnce''"

lemmas container_names = agentContainerName_def credentialsContainerName_def configContainerName_def
  workspaceContainerName_def

lemmas volume_names = credentialsVolumeName_def credentialsSecretVolumeName_def stateVolumeName_def
  toolsVolumeName_def configVolumeName_def

subsection \<open>Pieces\<close>

definition containerSecurityContext :: SecurityContext where
  "containerSecurityContext =
     \<lparr>sc_AllowPrivilegeEscalation = Some False, sc_CapabilitiesDrop = Some [''ALL''], sc_other = []\<rparr>"

definition quote_char :: string where
  "quote_char = [CHR 0x22]"

definition copyCredentialsCommand :: "string list" where
  "copyCredentialsCommand =
     [''/bin/sh'', ''-ec'',
      ''for f in '' @ credentialsSecretMountPath @ ''/*; do install -m '' @ credentialsCopyMode
      @ '' '' @ quote_char @ ''$f'' @ quote_char @ '' '' @ credentialsMountPath @ ''/; done'']"

definition configDirIn :: "string \<Rightarrow> string" where
  "configDirIn dir = dir @ ''/gagent''"

definition configFileIn :: "string \<Rightarrow> string" where
  "configFileIn dir = configDirIn dir @ ''/config.yaml''"

text \<open>The config file is the YAML of the one field the operator declares.\<close>

definition renderAgentConfig :: "'a lib_scheme \<Rightarrow> AgentSpec \<Rightarrow> error + string" where
  "renderAgentConfig lib spec =
     (case yamlMarshal lib \<lparr>acf_Tools = \<lparr>act_Pins = ats_Pins (as_Tools spec)\<rparr>\<rparr> of
        Inl e \<Rightarrow> Inl (Wrapped ''render the config file of the agent'' e)
      | Inr file \<Rightarrow> Inr file)"

definition writeConfigCommand :: "string \<Rightarrow> string list" where
  "writeConfigCommand dir =
     [''/bin/sh'', ''-ec'',
      ''umask '' @ configFileMask @ '' && mkdir -p '' @ configDirIn dir @ '' && printf '' @ [CHR 0x27]
      @ ''%s'' @ [CHR 0x27] @ '' '' @ quote_char @ ''$'' @ configContentVariable @ quote_char
      @ '' > '' @ configFileIn dir]"

fun claimed_in :: "PersistentVolumeClaim list \<Rightarrow> quantity" where
  "claimed_in [] = zero_quantity"
| "claimed_in (claim # claims) =
     (if pvc_Name claim = stateVolumeName
      then (case map_of (pvc_Requests claim) ResourceStorage of None \<Rightarrow> zero_quantity | Some q \<Rightarrow> q)
      else claimed_in claims)"

definition claimedStorageSize :: "StatefulSet \<Rightarrow> quantity" where
  "claimedStorageSize ss = claimed_in (ss_VolumeClaimTemplates ss)"

definition stateClaim :: "Agent \<Rightarrow> PersistentVolumeClaim" where
  "stateClaim agent =
     \<lparr>pvc_Name = stateVolumeName, pvc_AccessModes = [ReadWriteOnce],
      pvc_Requests = [(ResourceStorage, as_StorageSize (ag_Spec agent))],
      pvc_StorageClassName = as_StorageClassName (ag_Spec agent), pvc_other = []\<rparr>"

definition workloadLabels :: "Agent \<Rightarrow> (string, string) gomap" where
  "workloadLabels agent =
     map_put ''app.kubernetes.io/instance'' (om_Name (ag_Meta agent))
       (map_put ''app.kubernetes.io/name'' agentContainerName [])"

text \<open>A slice with the position a pointer taken out of it points at, and a write through the pointer.\<close>

fun container_index :: "Container list \<Rightarrow> string \<Rightarrow> nat option" where
  "container_index [] name = None"
| "container_index (c # cs) name =
     (if c_Name c = name then Some 0 else map_option Suc (container_index cs name))"

definition containerNamed :: "Container list \<Rightarrow> string \<Rightarrow> Container list \<times> nat" where
  "containerNamed cs name =
     (case container_index cs name of
        Some i \<Rightarrow> (cs, i)
      | None \<Rightarrow> (cs @ [empty_container name], length cs))"

definition write_at :: "nat \<Rightarrow> (Container \<Rightarrow> Container) \<Rightarrow> Container list \<Rightarrow> Container list" where
  "write_at i f cs = cs[i := f (cs ! i)]"

definition writable :: "string \<Rightarrow> string \<Rightarrow> VolumeMount" where
  "writable name path = \<lparr>vm_Name = name, vm_MountPath = path, vm_ReadOnly = False\<rparr>"

definition readonly :: "string \<Rightarrow> string \<Rightarrow> VolumeMount" where
  "readonly name path = \<lparr>vm_Name = name, vm_MountPath = path, vm_ReadOnly = True\<rparr>"

definition variable :: "string \<Rightarrow> string \<Rightarrow> EnvVar" where
  "variable name value = \<lparr>ev_Name = name, ev_Value = value\<rparr>"

lemmas mount_defs = writable_def readonly_def variable_def

subsection \<open>applyToolPins and applyWorkspace\<close>

definition write_config :: "AgentReconciler \<Rightarrow> string \<Rightarrow> Container \<Rightarrow> Container" where
  "write_config r file c =
     c\<lparr>c_Image := rc_CopyImage r, c_ImagePullPolicy := PullAlways,
       c_Command := writeConfigCommand configMountPath,
       c_Env := [variable configContentVariable file],
       c_SecurityContext := Some containerSecurityContext,
       c_VolumeMounts := [writable configVolumeName configMountPath]\<rparr>"

definition point_at_config :: "Container \<Rightarrow> Container" where
  "point_at_config c =
     c\<lparr>c_VolumeMounts := c_VolumeMounts c @ [readonly configVolumeName configMountPath],
       c_Env := c_Env c @ [variable configHomeVariable configMountPath]\<rparr>"

definition applyToolPins ::
  "'a lib_scheme \<Rightarrow> AgentReconciler \<Rightarrow> Agent \<Rightarrow> StatefulSet \<Rightarrow> nat \<Rightarrow> error + StatefulSet" where
  "applyToolPins lib r agent ss container =
     (if ats_Pins (as_Tools (ag_Spec agent)) = []
      then Inr (ss\<lparr>ss_InitContainers := delete_func (\<lambda>c. c_Name c = configContainerName) (ss_InitContainers ss)\<rparr>)
      else
        (case renderAgentConfig lib (ag_Spec agent) of
           Inl e \<Rightarrow> Inl e
         | Inr file \<Rightarrow>
             (let (inits, i) = containerNamed (ss_InitContainers ss) configContainerName in
              Inr (ss\<lparr>ss_Volumes := ss_Volumes ss @
                        [\<lparr>vol_Name = configVolumeName, vol_Source = EmptyDirSource StorageMediumDefault None\<rparr>],
                      ss_InitContainers := write_at i (write_config r file) inits,
                      ss_Containers := write_at container point_at_config (ss_Containers ss)\<rparr>))))"

definition write_workspace :: "AgentReconciler \<Rightarrow> Container \<Rightarrow> Container" where
  "write_workspace r c =
     c\<lparr>c_Image := rc_WorkspaceImage r, c_ImagePullPolicy := PullAlways,
       c_SecurityContext := Some containerSecurityContext,
       c_Env := [variable listenAddressVariable workspaceAddress, variable workspaceDirVariable workspaceDirPath,
                 variable execUserVariable (itoa agentRunAsUser)],
       c_VolumeMounts := [writable stateVolumeName stateMountPath]\<rparr>"

definition applyWorkspace :: "AgentReconciler \<Rightarrow> StatefulSet \<Rightarrow> StatefulSet" where
  "applyWorkspace r ss =
     (if rc_WorkspaceImage r = []
      then ss\<lparr>ss_Containers := delete_func (\<lambda>c. c_Name c = workspaceContainerName) (ss_Containers ss)\<rparr>
      else
        (let (cs, i) = containerNamed (ss_Containers ss) workspaceContainerName in
         ss\<lparr>ss_Containers := write_at i (write_workspace r) cs\<rparr>))"

subsection \<open>applyAgent\<close>

text \<open>What a StatefulSet refuses a change to is written while it has not been created.\<close>

definition at_creation :: "Agent \<Rightarrow> StatefulSet \<Rightarrow> StatefulSet" where
  "at_creation agent ss =
     (if IsZero (om_CreationTimestamp (ss_Meta ss))
      then ss\<lparr>ss_Meta := (ss_Meta ss)\<lparr>om_Labels := workloadLabels agent\<rparr>,
              ss_Selector := Some (workloadLabels agent), ss_TemplateLabels := workloadLabels agent,
              ss_VolumeClaimTemplates := [stateClaim agent]\<rparr>
      else ss)"

definition pod_security :: "PodSecurityContext option \<Rightarrow> PodSecurityContext" where
  "pod_security psc =
     (case psc of None \<Rightarrow> empty_pod_security | Some p \<Rightarrow> p)
       \<lparr>psc_FSGroup := Some agentFSGroup, psc_RunAsUser := Some agentRunAsUser,
        psc_RunAsNonRoot := Some True, psc_SeccompProfile := Some SeccompProfileTypeRuntimeDefault\<rparr>"

definition credential_volumes :: "'a lib_scheme \<Rightarrow> Agent \<Rightarrow> Volume list" where
  "credential_volumes lib agent =
     [\<lparr>vol_Name = credentialsSecretVolumeName,
       vol_Source = SecretSource (as_CredentialsSecretName (ag_Spec agent)) credentialsFileMode\<rparr>,
      \<lparr>vol_Name = credentialsVolumeName,
       vol_Source = EmptyDirSource StorageMediumMemory (Some (newQuantityBinarySI lib (2 ^ 20)))\<rparr>]"

definition write_credentials :: "AgentReconciler \<Rightarrow> Container \<Rightarrow> Container" where
  "write_credentials r c =
     c\<lparr>c_Image := rc_CopyImage r, c_ImagePullPolicy := PullAlways, c_Command := copyCredentialsCommand,
       c_SecurityContext := Some containerSecurityContext,
       c_VolumeMounts := [readonly credentialsSecretVolumeName credentialsSecretMountPath,
                          writable credentialsVolumeName credentialsMountPath]\<rparr>"

definition write_agent :: "Agent \<Rightarrow> Container \<Rightarrow> Container" where
  "write_agent agent c =
     c\<lparr>c_Image := as_Image (ag_Spec agent), c_ImagePullPolicy := PullAlways,
       c_Resources := as_Resources (ag_Spec agent), c_SecurityContext := Some containerSecurityContext,
       c_VolumeMounts := [writable credentialsVolumeName credentialsMountPath, writable stateVolumeName stateMountPath],
       c_Env := []\<rparr>"

definition tools_volume :: "AgentReconciler \<Rightarrow> Volume" where
  "tools_volume r = \<lparr>vol_Name = toolsVolumeName, vol_Source = ImageSource (rc_ToolsImage r) PullAlways\<rparr>"

definition point_at_tools :: "Container \<Rightarrow> Container" where
  "point_at_tools c =
     c\<lparr>c_VolumeMounts := c_VolumeMounts c @ [readonly toolsVolumeName toolsMountPath],
       c_Env := c_Env c @ [variable toolsDirVariable toolsMountPath]\<rparr>"

definition point_at_workspace :: "Container \<Rightarrow> Container" where
  "point_at_workspace c = c\<lparr>c_Env := c_Env c @ [variable workspaceAddressVariable workspaceAddress]\<rparr>"

definition applyAgent :: "'a lib_scheme \<Rightarrow> AgentReconciler \<Rightarrow> Agent \<Rightarrow> StatefulSet \<Rightarrow> error + StatefulSet" where
  "applyAgent lib r agent ss =
     (let ss = at_creation agent ss;
          ss = ss\<lparr>ss_Replicas := Some 1\<rparr>;
          ss = ss\<lparr>ss_PodSecurity := Some (pod_security (ss_PodSecurity ss))\<rparr>;
          ss = ss\<lparr>ss_Volumes := credential_volumes lib agent\<rparr>;
          (inits, i) = containerNamed (ss_InitContainers ss) credentialsContainerName;
          ss = ss\<lparr>ss_InitContainers := write_at i (write_credentials r) inits\<rparr>;
          (cs, container) = containerNamed (ss_Containers ss) agentContainerName;
          ss = ss\<lparr>ss_Containers := write_at container (write_agent agent) cs\<rparr>;
          ss = (if rc_ToolsImage r \<noteq> []
                then ss\<lparr>ss_Volumes := ss_Volumes ss @ [tools_volume r],
                        ss_Containers := write_at container point_at_tools (ss_Containers ss)\<rparr>
                else ss);
          ss = (if rc_WorkspaceImage r \<noteq> []
                then ss\<lparr>ss_Containers := write_at container point_at_workspace (ss_Containers ss)\<rparr>
                else ss)
      in case applyToolPins lib r agent ss container of
           Inl e \<Rightarrow> Inl e
         | Inr ss \<Rightarrow>
             (let ss = applyWorkspace r ss in
              case setControllerReference lib (ag_Meta agent) (ss_Meta ss) of
                Inl e \<Rightarrow> Inl e
              | Inr owned \<Rightarrow> Inr (ss\<lparr>ss_Meta := owned\<rparr>)))"

subsection \<open>reconcileStatefulSet\<close>

definition operation_text :: "OperationResult \<Rightarrow> string" where
  "operation_text op =
     (case op of OperationResultNone \<Rightarrow> ''unchanged'' | OperationResultCreated \<Rightarrow> ''created''
      | OperationResultUpdated \<Rightarrow> ''updated'')"

definition reconcileStatefulSet :: "env \<Rightarrow> AgentReconciler \<Rightarrow> Agent \<Rightarrow> (history, error + StatefulSet) state" where
  "reconcileStatefulSet env r agent =
     (let key = (om_Namespace (ag_Meta agent), om_Name (ag_Meta agent)) in do {
        res \<leftarrow> call (\<lambda>h. createOrUpdate env h key (applyAgent env r agent)) (CreateOrUpdate key);
        (case res of
           Inl e \<Rightarrow> State_Monad.return (Inl (Wrapped ''create or update statefulset'' e))
         | Inr (operation, ss) \<Rightarrow> do {
             (if operation \<noteq> OperationResultNone
              then log LogInfo ''Reconciled the StatefulSet''
                     [(''statefulSet'', LvStr (om_Name (ss_Meta ss))), (''operation'', LvStr (operation_text operation))]
              else State_Monad.return ());
             State_Monad.return (Inr ss)
           })
      })"

subsection \<open>Writing one container of a slice\<close>

text \<open>
  \<open>put name f cs\<close> rewrites the first container of that name, or appends the rewritten empty one: what
  a write through the pointer \<^verbatim>\<open>containerNamed\<close> returns does to the slice.
\<close>

fun put :: "string \<Rightarrow> (Container \<Rightarrow> Container) \<Rightarrow> Container list \<Rightarrow> Container list" where
  "put name f [] = [f (empty_container name)]"
| "put name f (c # cs) = (if c_Name c = name then f c # cs else c # put name f cs)"

definition named :: "string \<Rightarrow> Container list \<Rightarrow> Container option" where
  "named name cs = find (\<lambda>c. c_Name c = name) cs"

definition found_or_empty :: "string \<Rightarrow> Container list \<Rightarrow> Container" where
  "found_or_empty name cs = (case named name cs of None \<Rightarrow> empty_container name | Some c \<Rightarrow> c)"

definition keeps_name :: "(Container \<Rightarrow> Container) \<Rightarrow> bool" where
  "keeps_name f \<longleftrightarrow> (\<forall>c. c_Name (f c) = c_Name c)"

named_theorems put_simps \<open>reading a slice of containers after a write or a removal\<close>

lemma empty_container_name [simp]: "c_Name (empty_container name) = name"
  by (simp add: empty_container_def)

lemma container_index_None: "container_index cs name = None \<Longrightarrow> put name f cs = cs @ [f (empty_container name)]"
  by (induction cs) auto

lemma container_index_Some:
  "container_index cs name = Some i \<Longrightarrow> i < length cs \<and> put name f cs = cs[i := f (cs ! i)]"
  by (induction cs arbitrary: i) (auto split: if_splits)

lemma containerNamed_in_range: "containerNamed cs name = (cs', i) \<Longrightarrow> i < length cs'"
  by (auto simp: containerNamed_def dest: container_index_Some split: option.splits)

lemma write_containerNamed: "containerNamed cs name = (cs', i) \<Longrightarrow> write_at i f cs' = put name f cs"
  by (auto simp: containerNamed_def write_at_def container_index_None container_index_Some split: option.splits)

lemma put_pointer:
  "snd (containerNamed cs name) < length (fst (containerNamed cs name))"
  "write_at (snd (containerNamed cs name)) f (fst (containerNamed cs name)) = put name f cs"
  using containerNamed_in_range write_containerNamed by (metis prod.collapse)+

lemma write_at_twice: "i < length cs \<Longrightarrow> write_at i g (write_at i f cs) = write_at i (g \<circ> f) cs"
  by (simp add: write_at_def)

lemma write_put: "write_at (snd (containerNamed cs name)) g (put name f cs) = put name (\<lambda>c. g (f c)) cs"
  using put_pointer [of cs name] write_at_twice [of "snd (containerNamed cs name)" "fst (containerNamed cs name)" g f]
  by (simp add: o_def)

lemma write_at_length [simp]: "length (write_at i f cs) = length cs"
  by (simp add: write_at_def)

lemma named_put [put_simps]: "keeps_name f \<Longrightarrow> named name (put name f cs) = Some (f (found_or_empty name cs))"
  by (induction cs) (auto simp: named_def found_or_empty_def keeps_name_def)

lemma named_put_other [put_simps]: "keeps_name f \<Longrightarrow> m \<noteq> n \<Longrightarrow> named n (put m f cs) = named n cs"
  by (induction cs) (auto simp: named_def keeps_name_def)

lemma named_delete_other [put_simps]:
  "m \<noteq> n \<Longrightarrow> named n (delete_func (\<lambda>c. c_Name c = m) cs) = named n cs"
  by (induction cs) (auto simp: named_def delete_func_def)

lemma named_delete [put_simps]: "named n (delete_func (\<lambda>c. c_Name c = n) cs) = None"
  by (induction cs) (auto simp: named_def delete_func_def)

lemma put_fixpoint: "named name cs = Some c \<Longrightarrow> f c = c \<Longrightarrow> put name f cs = cs"
  by (induction cs) (auto simp: named_def split: if_splits)

lemma delete_put [put_simps]:
  "keeps_name f \<Longrightarrow> delete_func (\<lambda>c. c_Name c = n) (put n f cs) = delete_func (\<lambda>c. c_Name c = n) cs"
  by (induction cs) (auto simp: delete_func_def keeps_name_def)

lemma delete_put_other [put_simps]:
  "keeps_name f \<Longrightarrow> m \<noteq> n \<Longrightarrow>
     delete_func (\<lambda>c. c_Name c = m) (put n f cs) = put n f (delete_func (\<lambda>c. c_Name c = m) cs)"
  by (induction cs) (auto simp: delete_func_def keeps_name_def)

lemma put_put [put_simps]: "keeps_name f \<Longrightarrow> put n g (put n f cs) = put n (g \<circ> f) cs"
  by (induction cs) (auto simp: keeps_name_def)

lemma filter_put [put_simps]:
  "keeps_name f \<Longrightarrow> n \<in> N \<Longrightarrow> filter (\<lambda>c. c_Name c \<notin> N) (put n f cs) = filter (\<lambda>c. c_Name c \<notin> N) cs"
  by (induction cs) (auto simp: keeps_name_def)

lemma filter_delete_func [put_simps]:
  "n \<in> N \<Longrightarrow> filter (\<lambda>c. c_Name c \<notin> N) (delete_func (\<lambda>c. c_Name c = n) cs) = filter (\<lambda>c. c_Name c \<notin> N) cs"
  by (induction cs) (auto simp: delete_func_def)

lemma delete_func_idem [simp]: "delete_func P (delete_func P cs) = delete_func P cs"
  by (simp add: delete_func_def)

lemma set_put: "c \<in> set (put n f cs) \<Longrightarrow> c \<in> set cs \<or> c = f (found_or_empty n cs)"
  by (induction cs) (auto simp: found_or_empty_def named_def split: if_splits)

subsection \<open>What the whole of applyAgent writes\<close>

definition agent_writes :: "AgentReconciler \<Rightarrow> Agent \<Rightarrow> Container \<Rightarrow> Container" where
  "agent_writes r agent c =
     (let c = write_agent agent c;
          c = (if rc_ToolsImage r \<noteq> [] then point_at_tools c else c);
          c = (if rc_WorkspaceImage r \<noteq> [] then point_at_workspace c else c)
      in if ats_Pins (as_Tools (ag_Spec agent)) \<noteq> [] then point_at_config c else c)"

definition init_containers :: "AgentReconciler \<Rightarrow> Agent \<Rightarrow> string \<Rightarrow> Container list \<Rightarrow> Container list" where
  "init_containers r agent file cs =
     (let cs = put credentialsContainerName (write_credentials r) cs in
      if ats_Pins (as_Tools (ag_Spec agent)) = [] then delete_func (\<lambda>c. c_Name c = configContainerName) cs
      else put configContainerName (write_config r file) cs)"

definition main_containers :: "AgentReconciler \<Rightarrow> Agent \<Rightarrow> Container list \<Rightarrow> Container list" where
  "main_containers r agent cs =
     (let cs = put agentContainerName (agent_writes r agent) cs in
      if rc_WorkspaceImage r = [] then delete_func (\<lambda>c. c_Name c = workspaceContainerName) cs
      else put workspaceContainerName (write_workspace r) cs)"

definition pod_volumes :: "'a lib_scheme \<Rightarrow> AgentReconciler \<Rightarrow> Agent \<Rightarrow> Volume list" where
  "pod_volumes lib r agent =
     credential_volumes lib agent
     @ (if rc_ToolsImage r \<noteq> [] then [tools_volume r] else [])
     @ (if ats_Pins (as_Tools (ag_Spec agent)) \<noteq> []
        then [\<lparr>vol_Name = configVolumeName, vol_Source = EmptyDirSource StorageMediumDefault None\<rparr>] else [])"

definition config_text :: "'a lib_scheme \<Rightarrow> Agent \<Rightarrow> error + string" where
  "config_text lib agent =
     (if ats_Pins (as_Tools (ag_Spec agent)) = [] then Inr [] else renderAgentConfig lib (ag_Spec agent))"

definition written :: "'a lib_scheme \<Rightarrow> AgentReconciler \<Rightarrow> Agent \<Rightarrow> string \<Rightarrow> ObjectMeta \<Rightarrow> StatefulSet \<Rightarrow> StatefulSet" where
  "written lib r agent file owned ss =
     (at_creation agent ss)
       \<lparr>ss_Meta := owned, ss_Replicas := Some 1, ss_PodSecurity := Some (pod_security (ss_PodSecurity ss)),
        ss_Volumes := pod_volumes lib r agent,
        ss_InitContainers := init_containers r agent file (ss_InitContainers ss),
        ss_Containers := main_containers r agent (ss_Containers ss)\<rparr>"

lemma at_creation_fields [simp]:
  "ss_InitContainers (at_creation agent ss) = ss_InitContainers ss"
  "ss_Containers (at_creation agent ss) = ss_Containers ss"
  "ss_PodSecurity (at_creation agent ss) = ss_PodSecurity ss"
  "ss_other (at_creation agent ss) = ss_other ss"
  "ss_ReadyReplicas (at_creation agent ss) = ss_ReadyReplicas ss"
  by (simp_all add: at_creation_def)

lemma applyAgent_written:
  "applyAgent lib r agent ss =
     (case config_text lib agent of
        Inl e \<Rightarrow> Inl e
      | Inr file \<Rightarrow>
          (case setControllerReference lib (ag_Meta agent) (ss_Meta (at_creation agent ss)) of
             Inl e \<Rightarrow> Inl e
           | Inr owned \<Rightarrow> Inr (written lib r agent file owned ss)))"
  by (cases "rc_ToolsImage r = []"; cases "rc_WorkspaceImage r = []"; cases "ats_Pins (as_Tools (ag_Spec agent)) = []")
    (simp_all add: applyAgent_def split_def Let_def applyToolPins_def applyWorkspace_def config_text_def
      written_def pod_volumes_def init_containers_def main_containers_def write_put put_pointer
      agent_writes_def [abs_def] split: sum.splits)

lemma writes_keep_name [put_simps]:
  "keeps_name (write_credentials r)" "keeps_name (write_config r file)" "keeps_name (write_workspace r)"
  "keeps_name (agent_writes r agent)" "keeps_name (write_agent agent)"
  by (simp_all add: keeps_name_def write_credentials_def write_config_def write_workspace_def
      agent_writes_def write_agent_def point_at_tools_def point_at_workspace_def point_at_config_def Let_def)

text \<open>Each write decides its fields outright, so a later one leaves no trace of an earlier one.\<close>

lemma writes_overwrite [put_simps]:
  "write_credentials r (write_credentials r' c) = write_credentials r c"
  "write_config r file (write_config r' file' c) = write_config r file c"
  "write_workspace r (write_workspace r' c) = write_workspace r c"
  "agent_writes r agent (agent_writes r' agent' c) = agent_writes r agent c"
  by (simp_all add: write_credentials_def write_config_def write_workspace_def agent_writes_def
      write_agent_def point_at_tools_def point_at_workspace_def point_at_config_def Let_def)

lemma distinct_names [put_simps]:
  "credentialsContainerName \<noteq> configContainerName" "configContainerName \<noteq> credentialsContainerName"
  "agentContainerName \<noteq> workspaceContainerName" "workspaceContainerName \<noteq> agentContainerName"
  by (simp_all add: container_names)

lemma pod_security_idem [simp]: "pod_security (Some (pod_security p)) = pod_security p"
  by (simp add: pod_security_def)

lemma found_other [put_simps]:
  "m \<noteq> n \<Longrightarrow> found_or_empty n (delete_func (\<lambda>c. c_Name c = m) cs) = found_or_empty n cs"
  "keeps_name f \<Longrightarrow> m \<noteq> n \<Longrightarrow> found_or_empty n (put m f cs) = found_or_empty n cs"
  by (simp_all add: found_or_empty_def put_simps)

lemma named_main:
  "named agentContainerName (main_containers r agent cs) =
     Some (agent_writes r agent (found_or_empty agentContainerName cs))"
  "named workspaceContainerName (main_containers r agent cs) =
     (if rc_WorkspaceImage r = [] then None
      else Some (write_workspace r (found_or_empty workspaceContainerName cs)))"
  by (simp_all add: main_containers_def Let_def put_simps)

lemma named_init:
  "named credentialsContainerName (init_containers r agent file cs) =
     Some (write_credentials r (found_or_empty credentialsContainerName cs))"
  "named configContainerName (init_containers r agent file cs) =
     (if ats_Pins (as_Tools (ag_Spec agent)) = [] then None
      else Some (write_config r file (found_or_empty configContainerName cs)))"
  by (simp_all add: init_containers_def Let_def put_simps)

lemma main_containers_idem: "main_containers r agent (main_containers r agent cs) = main_containers r agent cs"
proof -
  have a: "put agentContainerName (agent_writes r agent) (main_containers r agent cs) = main_containers r agent cs"
    by (rule put_fixpoint [OF named_main(1)]) (simp add: put_simps)
  have w: "put workspaceContainerName (write_workspace r) (main_containers r agent cs) = main_containers r agent cs"
    if "rc_WorkspaceImage r \<noteq> []"
    using that by (intro put_fixpoint [OF trans [OF named_main(2) if_not_P]]) (simp_all add: put_simps)
  have d: "delete_func (\<lambda>c. c_Name c = workspaceContainerName) (main_containers r agent cs) = main_containers r agent cs"
    if "rc_WorkspaceImage r = []"
    using that by (simp add: main_containers_def Let_def)
  show ?thesis
    unfolding main_containers_def [of r agent "main_containers r agent cs"] Let_def a using w d by simp
qed

lemma init_containers_idem: "init_containers r agent file (init_containers r agent file cs) = init_containers r agent file cs"
proof -
  have a: "put credentialsContainerName (write_credentials r) (init_containers r agent file cs) = init_containers r agent file cs"
    by (rule put_fixpoint [OF named_init(1)]) (simp add: put_simps)
  have w: "put configContainerName (write_config r file) (init_containers r agent file cs) = init_containers r agent file cs"
    if "ats_Pins (as_Tools (ag_Spec agent)) \<noteq> []"
    using that by (intro put_fixpoint [OF trans [OF named_init(2) if_not_P]]) (simp_all add: put_simps)
  have d: "delete_func (\<lambda>c. c_Name c = configContainerName) (init_containers r agent file cs) = init_containers r agent file cs"
    if "ats_Pins (as_Tools (ag_Spec agent)) = []"
    using that by (simp add: init_containers_def Let_def)
  show ?thesis
    unfolding init_containers_def [of r agent "file" "init_containers r agent file cs"] Let_def a using w d by simp
qed

text \<open>Taking out what a reconciler no longer names gives what it would have written without it.\<close>

lemma main_containers_forgets:
  "rc_WorkspaceImage r' = [] \<Longrightarrow> main_containers r' agent' (main_containers r agent cs) = main_containers r' agent' cs"
  by (simp add: main_containers_def Let_def put_simps o_def)

lemma init_containers_forgets:
  "ats_Pins (as_Tools (ag_Spec agent')) = [] \<Longrightarrow>
     init_containers r' agent' file' (init_containers r agent file cs) = init_containers r' agent' file' cs"
  by (simp add: init_containers_def Let_def put_simps o_def)

text \<open>
  What \<^verbatim>\<open>controllerutil.SetControllerReference\<close> documents: it sets the controller reference among the
  owner references, touches nothing else, and setting it again changes nothing.
\<close>

definition owner_reference_laws :: "'a lib_scheme \<Rightarrow> bool" where
  "owner_reference_laws lib \<longleftrightarrow>
     (\<forall>owner m m'. setControllerReference lib owner m = Inr m' \<longrightarrow>
        m' = m\<lparr>om_OwnerReferences := om_OwnerReferences m'\<rparr> \<and> setControllerReference lib owner m' = Inr m')"

lemma owner_reference_keeps:
  "owner_reference_laws lib \<Longrightarrow> setControllerReference lib owner m = Inr m' \<Longrightarrow>
     om_CreationTimestamp m' = om_CreationTimestamp m \<and> om_Labels m' = om_Labels m
     \<and> setControllerReference lib owner m' = Inr m'"
  unfolding owner_reference_laws_def by (metis ObjectMeta.select_convs(5,6) ObjectMeta.surjective ObjectMeta.update_convs(7))

lemma applyAgent_cases:
  assumes "applyAgent lib r agent ss = Inr ss'"
  obtains ct owned where "config_text lib agent = Inr ct"
    "setControllerReference lib (ag_Meta agent) (ss_Meta (at_creation agent ss)) = Inr owned"
    "ss' = written lib r agent ct owned ss"
  using assms by (auto simp: applyAgent_written split: sum.splits)

lemma main_containers_others:
  "{agentContainerName, workspaceContainerName} \<subseteq> N \<Longrightarrow>
     filter (\<lambda>c. c_Name c \<notin> N) (main_containers r agent cs) = filter (\<lambda>c. c_Name c \<notin> N) cs"
  by (simp add: main_containers_def Let_def put_simps)

lemma init_containers_others:
  "{credentialsContainerName, configContainerName} \<subseteq> N \<Longrightarrow>
     filter (\<lambda>c. c_Name c \<notin> N) (init_containers r agent file cs) = filter (\<lambda>c. c_Name c \<notin> N) cs"
  by (simp add: init_containers_def Let_def put_simps)

lemma named_main_other:
  "n \<noteq> agentContainerName \<Longrightarrow> n \<noteq> workspaceContainerName \<Longrightarrow>
     named n (main_containers r agent cs) = named n cs"
  by (simp add: main_containers_def Let_def put_simps)

lemma main_containers_keeps:
  assumes "named n cs = Some c" and "named n (main_containers r agent cs) = Some c'"
  shows "c_other c' = c_other c \<and> c_Command c' = c_Command c"
proof -
  have "found_or_empty n cs = c" using assms(1) by (simp add: found_or_empty_def)
  then show ?thesis
    using assms
    by (cases "n = agentContainerName"; cases "n = workspaceContainerName")
      (auto simp: named_main named_main_other agent_writes_def write_agent_def write_workspace_def
        point_at_tools_def point_at_workspace_def point_at_config_def Let_def split: if_splits)
qed

subsection \<open>Properties\<close>


text \<open>C12: An unchanged Agent produces an unchanged object: writing an Agent onto the StatefulSet the last
  writing produced gives that StatefulSet again, field for field.\<close>

theorem applyAgent_idempotent:
  assumes "owner_reference_laws lib" and "applyAgent lib r agent ss = Inr ss'"
  shows "applyAgent lib r agent ss' = Inr ss'"
  using assms(2)
proof (rule applyAgent_cases)
  fix ct owned
  assume ct: "config_text lib agent = Inr ct"
    and owned: "setControllerReference lib (ag_Meta agent) (ss_Meta (at_creation agent ss)) = Inr owned"
    and ss': "ss' = written lib r agent ct owned ss"
  note keeps = owner_reference_keeps [OF assms(1) owned]
  have same: "at_creation agent ss' = ss'"
    using keeps ss' by (auto simp: at_creation_def written_def IsZero_def)
  have "ss_Meta ss' = owned" using ss' by (simp add: written_def)
  moreover have "written lib r agent ct owned ss' = ss'"
    using ss' same unfolding written_def [of lib r agent ct owned ss']
    by (simp add: written_def main_containers_idem init_containers_idem)
  ultimately show ?thesis
    using ct keeps same by (simp add: applyAgent_written)
qed

definition demo_agent :: Agent where
  "demo_agent = \<lparr>ag_Meta = object_meta ''ns'' ''a'',
     ag_Spec = \<lparr>as_Image = ''img'', as_CredentialsSecretName = ''a-credentials'',
       as_StorageSize = Quantity ''1Gi'', as_StorageClassName = None, as_Resources = [],
       as_Tools = \<lparr>ats_Pins = [(''grep'', ''sha256:1'')]\<rparr>\<rparr>,
     ag_Status = empty_status\<rparr>"

definition demo_reconciler :: AgentReconciler where
  "demo_reconciler = \<lparr>rc_CopyImage = ''copy'', rc_ToolsImage = ''tools'', rc_WorkspaceImage = ''ws''\<rparr>"

definition demo_fresh :: StatefulSet where
  "demo_fresh = empty_statefulset (object_meta ''ns'' ''a'')"

lemma demo_laws: "owner_reference_laws refusing_env"
  by (simp add: owner_reference_laws_def refusing_env_def)

lemma demo_config_text: "config_text refusing_env demo_agent = Inr ''grepsha256:1''"
  by (simp add: config_text_def demo_agent_def renderAgentConfig_def refusing_env_def)

lemma demo_applies: "\<exists>ss'. applyAgent refusing_env demo_reconciler demo_agent demo_fresh = Inr ss'"
  unfolding applyAgent_written demo_config_text by (simp add: refusing_env_def)

theorem applyAgent_idempotent_witness:
  "\<exists>ss'. applyAgent refusing_env demo_reconciler demo_agent demo_fresh = Inr ss'
     \<and> applyAgent refusing_env demo_reconciler demo_agent ss' = Inr ss'"
  using demo_applies applyAgent_idempotent [OF demo_laws] by blast


definition demo_existing :: StatefulSet where
  "demo_existing = empty_statefulset ((object_meta ''ns'' ''a'')\<lparr>om_CreationTimestamp := 5\<rparr>)
     \<lparr>ss_Containers := [(empty_container ''sidecar'')\<lparr>c_Image := ''x''\<rparr>]\<rparr>"

lemma demo_applies_existing: "\<exists>ss'. applyAgent refusing_env demo_reconciler demo_agent demo_existing = Inr ss'"
  unfolding applyAgent_written demo_config_text by (simp add: refusing_env_def)


text \<open>The containers a pass wrote: the ones of its result that it did not find.\<close>

definition wrote :: "StatefulSet \<Rightarrow> StatefulSet \<Rightarrow> Container \<Rightarrow> bool" where
  "wrote ss ss' c \<longleftrightarrow>
     c \<in> set (ss_InitContainers ss') \<and> c \<notin> set (ss_InitContainers ss)
     \<or> c \<in> set (ss_Containers ss') \<and> c \<notin> set (ss_Containers ss)"

lemma found_or_empty_name [simp]: "c_Name (found_or_empty n cs) = n"
  by (auto simp: found_or_empty_def named_def find_Some_iff split: option.splits)

lemma set_delete_func: "c \<in> set (delete_func P cs) \<Longrightarrow> c \<in> set cs"
  by (simp add: delete_func_def)

lemma wrote_cases:
  assumes "wrote ss (written lib r agent file owned ss) c"
  obtains (credentials) c0 where "c = write_credentials r c0" "c_Name c0 = credentialsContainerName"
  | (config) c0 where "c = write_config r file c0" "c_Name c0 = configContainerName"
      "ats_Pins (as_Tools (ag_Spec agent)) \<noteq> []"
  | (agent) c0 where "c = agent_writes r agent c0" "c_Name c0 = agentContainerName"
  | (workspace) c0 where "c = write_workspace r c0" "c_Name c0 = workspaceContainerName"
proof -
  consider "c \<in> set (init_containers r agent file (ss_InitContainers ss))" "c \<notin> set (ss_InitContainers ss)"
    | "c \<in> set (main_containers r agent (ss_Containers ss))" "c \<notin> set (ss_Containers ss)"
    using assms by (auto simp: wrote_def written_def)
  then show thesis
  proof cases
    case 1
    then show ?thesis
      by (auto simp: init_containers_def Let_def split: if_splits
          dest!: set_put set_delete_func intro: credentials config found_or_empty_name)
  next
    case 2
    then show ?thesis
      by (auto simp: main_containers_def Let_def split: if_splits
          dest!: set_put set_delete_func intro: agent workspace found_or_empty_name)
  qed
qed

lemmas write_defs = write_credentials_def write_config_def agent_writes_def write_agent_def
  write_workspace_def point_at_tools_def point_at_workspace_def point_at_config_def Let_def

text \<open>C24: Every Pod this operator describes meets the restricted standard it is admitted under and runs one
  replica: the Pod runs as a user that is not root under the runtime's default seccomp profile, and every
  container a pass writes refuses privilege escalation, drops every capability and is pulled at each start.\<close>

theorem applyAgent_restricted:
  assumes "applyAgent lib r agent ss = Inr ss'"
  shows "ss_Replicas ss' = Some 1
    \<and> (\<exists>p. ss_PodSecurity ss' = Some p \<and> psc_RunAsNonRoot p = Some True \<and> psc_RunAsUser p = Some 65532
          \<and> psc_FSGroup p = Some 65532 \<and> psc_SeccompProfile p = Some ''RuntimeDefault'')
    \<and> (\<forall>c. wrote ss ss' c \<longrightarrow>
         (\<exists>s. c_SecurityContext c = Some s \<and> sc_AllowPrivilegeEscalation s = Some False
            \<and> sc_CapabilitiesDrop s = Some [''ALL'']) \<and> c_ImagePullPolicy c = ''Always'')"
  using assms
proof (rule applyAgent_cases)
  fix ct owned
  assume ss': "ss' = written lib r agent ct owned ss"
  have "(\<exists>s. c_SecurityContext c = Some s \<and> sc_AllowPrivilegeEscalation s = Some False
      \<and> sc_CapabilitiesDrop s = Some [''ALL'']) \<and> c_ImagePullPolicy c = ''Always''" if "wrote ss ss' c" for c
    using that unfolding ss'
    by (rule wrote_cases) (simp_all add: write_defs containerSecurityContext_def PullAlways_def)
  then show ?thesis
    by (simp add: ss' written_def pod_security_def agentRunAsUser_def agentFSGroup_def
        SeccompProfileTypeRuntimeDefault_def)
qed

theorem applyAgent_restricted_witness:
  "\<exists>ss'. applyAgent refusing_env demo_reconciler demo_agent demo_fresh = Inr ss' \<and> ss_Replicas ss' = Some 1"
  using demo_applies applyAgent_restricted by blast


lemma demo_wrote:
  assumes "applyAgent refusing_env demo_reconciler demo_agent demo_fresh = Inr ss'"
  shows "\<exists>c. wrote demo_fresh ss' c"
proof -
  obtain ct owned where "ss' = written refusing_env demo_reconciler demo_agent ct owned demo_fresh"
    using assms by (rule applyAgent_cases)
  then have "\<exists>c. named agentContainerName (ss_Containers ss') = Some c" by (simp add: written_def named_main)
  then have "\<exists>c. c \<in> set (ss_Containers ss')" unfolding named_def find_Some_iff by (auto dest: nth_mem)
  then show ?thesis by (auto simp: wrote_def demo_fresh_def empty_statefulset_def)
qed


text \<open>Every volume a written container mounts exists: it is one of the Pod's volumes or the volume of
  the state claim, which is written when the StatefulSet is created. No two volumes share a name, and no
  container mounts two volumes at one path.\<close>

theorem applyAgent_mounts_exist:
  assumes "applyAgent lib r agent ss = Inr ss'" and "wrote ss ss' c"
    and "IsZero (om_CreationTimestamp (ss_Meta ss)) \<or> ''state'' \<in> pvc_Name ` set (ss_VolumeClaimTemplates ss)"
  shows "(\<forall>m\<in>set (c_VolumeMounts c).
       vm_Name m \<in> vol_Name ` set (ss_Volumes ss') \<union> pvc_Name ` set (ss_VolumeClaimTemplates ss'))
    \<and> distinct (map vol_Name (ss_Volumes ss')) \<and> distinct (map vm_MountPath (c_VolumeMounts c))"
  using assms(1)
proof (rule applyAgent_cases)
  fix ct owned
  assume ss': "ss' = written lib r agent ct owned ss"
  have state: "''state'' \<in> pvc_Name ` set (ss_VolumeClaimTemplates ss')"
    using assms(3) by (auto simp: ss' written_def at_creation_def stateClaim_def stateVolumeName_def)
  have vols: "ss_Volumes ss' = pod_volumes lib r agent" by (simp add: ss' written_def)
  have "distinct (map vol_Name (pod_volumes lib r agent))"
    by (simp add: pod_volumes_def credential_volumes_def tools_volume_def volume_names)
  moreover have "(\<forall>m\<in>set (c_VolumeMounts c). vm_Name m \<in> vol_Name ` set (pod_volumes lib r agent) \<union> {''state''})
      \<and> distinct (map vm_MountPath (c_VolumeMounts c))"
    using assms(2) unfolding ss'
    by (rule wrote_cases)
      (auto simp: write_defs mount_defs volume_names pod_volumes_def credential_volumes_def tools_volume_def
        credentialsMountPath_def credentialsSecretMountPath_def stateMountPath_def toolsMountPath_def configMountPath_def)
  ultimately show ?thesis using state vols by auto
qed

theorem applyAgent_mounts_exist_witness:
  "\<exists>ss' c. applyAgent refusing_env demo_reconciler demo_agent demo_fresh = Inr ss' \<and> wrote demo_fresh ss' c
     \<and> distinct (map vm_MountPath (c_VolumeMounts c))"
proof -
  obtain ss' where ss': "applyAgent refusing_env demo_reconciler demo_agent demo_fresh = Inr ss'"
    using demo_applies by blast
  then obtain c where "wrote demo_fresh ss' c" using demo_wrote by blast
  moreover have "IsZero (om_CreationTimestamp (ss_Meta demo_fresh))"
    by (simp add: demo_fresh_def empty_statefulset_def object_meta_def IsZero_def)
  ultimately show ?thesis using applyAgent_mounts_exist [OF ss'] ss' by blast
qed


definition demo_plain_agent :: Agent where
  "demo_plain_agent = demo_agent\<lparr>ag_Spec := (ag_Spec demo_agent)\<lparr>as_Tools := \<lparr>ats_Pins = []\<rparr>\<rparr>\<rparr>"

definition demo_plain_reconciler :: AgentReconciler where
  "demo_plain_reconciler = \<lparr>rc_CopyImage = ''copy'', rc_ToolsImage = [], rc_WorkspaceImage = []\<rparr>"


text \<open>A StatefulSet is created claiming the storage the Agent asks for: what the size of the claim is
  read back as is the size in the Agent's spec, and its selector selects the labels of its own Pods.\<close>

theorem applyAgent_creates_claim:
  assumes "applyAgent lib r agent ss = Inr ss'" and "IsZero (om_CreationTimestamp (ss_Meta ss))"
  shows "claimedStorageSize ss' = as_StorageSize (ag_Spec agent) \<and> ss_Selector ss' = Some (ss_TemplateLabels ss')
    \<and> map_of (ss_TemplateLabels ss') =
        [''app.kubernetes.io/name'' \<mapsto> ''agent'', ''app.kubernetes.io/instance'' \<mapsto> om_Name (ag_Meta agent)]"
  using assms(1)
proof (rule applyAgent_cases)
  fix ct owned
  assume ss': "ss' = written lib r agent ct owned ss"
  have "map_of (workloadLabels agent) =
      [''app.kubernetes.io/name'' \<mapsto> ''agent'', ''app.kubernetes.io/instance'' \<mapsto> om_Name (ag_Meta agent)]"
    by (simp add: workloadLabels_def map_of_map_put map_put_wf agentContainerName_def del: map_put.simps)
  then show ?thesis
    using assms(2) by (simp add: ss' written_def at_creation_def claimedStorageSize_def stateClaim_def)
qed

theorem applyAgent_creates_claim_witness:
  "\<exists>ss'. applyAgent refusing_env demo_reconciler demo_agent demo_fresh = Inr ss' \<and> claimedStorageSize ss' = Quantity ''1Gi''"
proof -
  obtain ss' where ss': "applyAgent refusing_env demo_reconciler demo_agent demo_fresh = Inr ss'"
    using demo_applies by blast
  have "IsZero (om_CreationTimestamp (ss_Meta demo_fresh))"
    by (simp add: demo_fresh_def empty_statefulset_def object_meta_def IsZero_def)
  from applyAgent_creates_claim [OF ss' this] ss' show ?thesis by (simp add: demo_agent_def)
qed

end
