(* ===== verification/Controller.thy ===== *)
theory Controller
  imports Workload
begin

text \<open>
  The reconciler of the Agent resource (\<^verbatim>\<open>src/internal/controller/agent_controller.go\<close>) and the status
  it writes (\<^verbatim>\<open>agent_status.go\<close>). \<^verbatim>\<open>meta.SetStatusCondition\<close> stamps the time a condition last changed,
  so it reads the clock: it is a function of the history that appends nothing to it.
\<close>

subsection \<open>Text\<close>

text \<open>
  The verb \<^verbatim>\<open>%q\<close>: a string between double quotes, with the quote, the backslash and control bytes
  escaped. Bytes from \<^verbatim>\<open>0x80\<close> up are the encodings of printable runes and stand as they are.
\<close>

definition quote_byte :: "char \<Rightarrow> string" where
  "quote_byte c =
     (let n = of_char c :: nat in
      if c = CHR 0x22 then [CHR 0x5C, CHR 0x22]
      else if c = CHR 0x5C then [CHR 0x5C, CHR 0x5C]
      else if n = 7 then CHR 0x5C # ''a'' else if n = 8 then CHR 0x5C # ''b''
      else if n = 9 then CHR 0x5C # ''t'' else if n = 10 then CHR 0x5C # ''n''
      else if n = 11 then CHR 0x5C # ''v'' else if n = 12 then CHR 0x5C # ''f''
      else if n = 13 then CHR 0x5C # ''r''
      else if n < 32 \<or> n = 127 then [CHR 0x5C, CHR ''x'', hex_digit (n div 16), hex_digit n]
      else [c])"

definition quoted :: "string \<Rightarrow> string" where
  "quoted s = quote_char @ concat (map quote_byte s) @ quote_char"

subsection \<open>Conditions\<close>

definition condition :: "Agent \<Rightarrow> string \<Rightarrow> ConditionStatus \<Rightarrow> string \<Rightarrow> string \<Rightarrow> Condition" where
  "condition agent type st reason message =
     \<lparr>cond_Type = type, cond_Status = st, cond_ObservedGeneration = om_Generation (ag_Meta agent),
      cond_LastTransitionTime = 0, cond_Reason = reason, cond_Message = message\<rparr>"

definition set_condition :: "env \<Rightarrow> Agent \<Rightarrow> Condition \<Rightarrow> (history, Agent) state" where
  "set_condition env agent c =
     State (\<lambda>h. (agent\<lparr>ag_Status := (ag_Status agent)
       \<lparr>st_Conditions := setStatusCondition env h (st_Conditions (ag_Status agent)) c\<rparr>\<rparr>, h))"

definition setSynced :: "env \<Rightarrow> Agent \<Rightarrow> ConditionStatus \<Rightarrow> string \<Rightarrow> string \<Rightarrow> (history, Agent) state" where
  "setSynced env agent st reason message =
     set_condition env agent (condition agent ConditionSynced st reason message)"

definition setAvailable :: "env \<Rightarrow> Agent \<Rightarrow> ConditionStatus \<Rightarrow> string \<Rightarrow> string \<Rightarrow> (history, Agent) state" where
  "setAvailable env agent st reason message =
     set_condition env agent (condition agent ConditionAvailable st reason message)"

definition setAvailableFromWorkload :: "env \<Rightarrow> Agent \<Rightarrow> StatefulSet \<Rightarrow> (history, Agent) state" where
  "setAvailableFromWorkload env agent ss =
     (if ss_ReadyReplicas ss > 0
      then setAvailable env agent ConditionTrue ReasonReplicaReady
        (''StatefulSet '' @ quoted (om_Name (ss_Meta ss)) @ '' reports its replica ready. The workload carries no readiness probe, ''
         @ ''so this says the agent's containers are running and nothing about whether the agent inside them works'')
      else setAvailable env agent ConditionFalse ReasonReplicaNotReady
        (''StatefulSet '' @ quoted (om_Name (ss_Meta ss)) @ '' reports no ready replica. This covers a replica still starting as ''
         @ ''much as one that cannot start, and does not say which''))"

definition status_text :: "ConditionStatus \<Rightarrow> string" where
  "status_text st =
     (case st of ConditionTrue \<Rightarrow> ''True'' | ConditionFalse \<Rightarrow> ''False'' | ConditionUnknown \<Rightarrow> ''Unknown''
      | ConditionOther s \<Rightarrow> s)"

definition condition_values ::
  "env \<Rightarrow> Agent \<Rightarrow> string \<Rightarrow> string \<Rightarrow> string \<Rightarrow> (string \<times> log_value) list" where
  "condition_values env agent type k kreason =
     (case findStatusCondition env (st_Conditions (ag_Status agent)) type of
        None \<Rightarrow> []
      | Some c \<Rightarrow> [(k, LvStr (status_text (cond_Status c))), (kreason, LvStr (cond_Reason c))])"

definition writeStatus :: "env \<Rightarrow> Agent \<Rightarrow> Agent \<Rightarrow> (history, error + unit) state" where
  "writeStatus env agent held =
     (if statusDeepEqual env (ag_Status held) (ag_Status agent) then State_Monad.return (Inr ())
      else do {
        r \<leftarrow> call (\<lambda>h. mergeAgentStatus env h agent held) (MergeAgentStatus agent held);
        (case r of
           Inl e \<Rightarrow> State_Monad.return (Inl (Wrapped ''patch agent status'' e))
         | Inr answered \<Rightarrow> do {
             log LogInfo ''Reported on the Agent''
               (condition_values env answered ConditionSynced ''synced'' ''syncedReason''
                @ condition_values env answered ConditionAvailable ''available'' ''availableReason'');
             State_Monad.return (Inr ())
           })
      })"

subsection \<open>Reconcile\<close>

definition credentialsExist :: "env \<Rightarrow> object_key \<Rightarrow> (history, error + unit) state" where
  "credentialsExist env key = call (\<lambda>h. getSecretMeta env h key) (GetSecretMeta key)"

definition credentials_key :: "Agent \<Rightarrow> object_key" where
  "credentials_key agent = (om_Namespace (ag_Meta agent), as_CredentialsSecretName (ag_Spec agent))"

definition reconcileWorkload :: "env \<Rightarrow> AgentReconciler \<Rightarrow> Agent \<Rightarrow> (history, error + Agent) state" where
  "reconcileWorkload env r agent = do {
     e \<leftarrow> credentialsExist env (credentials_key agent);
     (case e of
        Inl err \<Rightarrow>
          if IsNotFound err then do {
            agent \<leftarrow> setSynced env agent ConditionFalse ReasonCredentialsSecretMissing
              (''Secret '' @ quoted (snd (credentials_key agent))
               @ '' does not exist, and the workload is not built until it does'');
            agent \<leftarrow> setAvailable env agent ConditionUnknown ReasonWorkloadNotObserved
              (''The workload was not reconciled, so its readiness was not observed. ''
               @ ''The Synced condition says why'');
            State_Monad.return (Inr agent)
          }
          else State_Monad.return (Inl (Wrapped ''get credentials secret'' err))
      | Inr u \<Rightarrow> do {
          s \<leftarrow> reconcileStatefulSet env r agent;
          (case s of
             Inl err \<Rightarrow> State_Monad.return (Inl err)
           | Inr ss \<Rightarrow> do {
               agent \<leftarrow>
                 (if quantityCmp env (claimedStorageSize ss) (as_StorageSize (ag_Spec agent)) \<noteq> 0
                  then setSynced env agent ConditionFalse ReasonStorageSizeImmutable
                    (''The volume was claimed at '' @ quantityString env (claimedStorageSize ss)
                     @ '' and spec.storageSize now asks for '' @ quantityString env (as_StorageSize (ag_Spec agent))
                     @ '', which a StatefulSet's claim template cannot be changed to'')
                  else setSynced env agent ConditionTrue ReasonWorkloadReconciled
                    (''StatefulSet '' @ quoted (om_Name (ss_Meta ss)) @ '' carries what this Agent's spec asks for''));
               agent \<leftarrow> setAvailableFromWorkload env agent ss;
               State_Monad.return (Inr agent)
             })
        })
   }"

definition Reconcile :: "env \<Rightarrow> AgentReconciler \<Rightarrow> object_key \<Rightarrow> (history, error + unit) state" where
  "Reconcile env r req = do {
     g \<leftarrow> call (\<lambda>h. getAgent env h req) (GetAgent req);
     (case g of
        Inl e \<Rightarrow>
          if IsNotFound e then State_Monad.return (Inr ())
          else State_Monad.return (Inl (Wrapped ''get agent'' e))
      | Inr held \<Rightarrow> do {
          w \<leftarrow> reconcileWorkload env r held;
          (case w of
             Inl e \<Rightarrow> State_Monad.return (Inl e)
           | Inr agent \<Rightarrow>
               writeStatus env
                 (agent\<lparr>ag_Status := (ag_Status agent)\<lparr>st_ObservedGeneration := om_Generation (ag_Meta agent)\<rparr>\<rparr>)
                 held)
        })
   }"

fun requests_naming :: "string \<Rightarrow> Agent list \<Rightarrow> object_key list" where
  "requests_naming name [] = []"
| "requests_naming name (x # xs) =
     (if as_CredentialsSecretName (ag_Spec x) = name then [key_of (ag_Meta x)] else []) @ requests_naming name xs"

definition agentsNamingSecret :: "env \<Rightarrow> object_key \<Rightarrow> (history, object_key list) state" where
  "agentsNamingSecret env secret = do {
     r \<leftarrow> call (\<lambda>h. listAgents env h (fst secret)) (ListAgents (fst secret));
     (case r of
        Inl e \<Rightarrow> do {
          log LogError ''Failed to list Agents for a Secret'' [(''error'', LvErr e), (''secret'', LvStr (snd secret))];
          State_Monad.return []
        }
      | Inr agents \<Rightarrow> State_Monad.return (requests_naming (snd secret) agents))
   }"

text \<open>
  What wakes a reconcile. \<^verbatim>\<open>SetupWithManager\<close> registers three watches: an Agent enqueues itself, a
  StatefulSet the Agent that owns it as its controller, and a Secret the Agents that name it. The two
  handlers of the library do what they document; the third is \<^verbatim>\<open>agentsNamingSecret\<close>.
\<close>

datatype watch_event = AgentChanged ObjectMeta | StatefulSetChanged ObjectMeta | SecretChanged ObjectMeta

definition owner_requests :: "ObjectMeta \<Rightarrow> object_key list" where
  "owner_requests m =
     map (\<lambda>o'. (om_Namespace m, or_Name o'))
       (filter (\<lambda>o'. or_Controller o' \<and> or_Kind o' = ''Agent'') (om_OwnerReferences m))"

definition SetupWithManager :: "env \<Rightarrow> watch_event \<Rightarrow> (history, object_key list) state" where
  "SetupWithManager env ev =
     (case ev of
        AgentChanged m \<Rightarrow> State_Monad.return [key_of m]
      | StatefulSetChanged m \<Rightarrow> State_Monad.return (owner_requests m)
      | SecretChanged m \<Rightarrow> agentsNamingSecret env (key_of m))"

subsection \<open>What a reconcile changes and observes\<close>

lemma run_set_condition [run_simps]:
  "run_state (set_condition env agent c) h =
     (agent\<lparr>ag_Status := (ag_Status agent)
        \<lparr>st_Conditions := setStatusCondition env h (st_Conditions (ag_Status agent)) c\<rparr>\<rparr>, h)"
  by (simp add: set_condition_def)

lemmas condition_setters = setSynced_def setAvailable_def setAvailableFromWorkload_def

lemma reconcileWorkload_conditions_only:
  assumes "run_state (reconcileWorkload env r agent) h = (Inr agent', t)"
  shows "\<exists>cs. agent' = agent\<lparr>ag_Status := (ag_Status agent)\<lparr>st_Conditions := cs\<rparr>\<rparr>"
  using assms
  by (auto simp: reconcileWorkload_def credentialsExist_def reconcileStatefulSet_def condition_setters run_simps
      Let_def split: sum.splits prod.splits if_splits)

text \<open>
  What \<^verbatim>\<open>meta.SetStatusCondition\<close> and \<^verbatim>\<open>FindStatusCondition\<close> document: after setting a condition the
  one found of its type is that one, up to the time it last changed, and the others are as before.
\<close>

definition condition_laws :: "env \<Rightarrow> bool" where
  "condition_laws env \<longleftrightarrow>
     (\<forall>h cs c. (\<exists>lt. findStatusCondition env (setStatusCondition env h cs c) (cond_Type c)
                   = Some (c\<lparr>cond_LastTransitionTime := lt\<rparr>))
        \<and> (\<forall>t. t \<noteq> cond_Type c \<longrightarrow>
             findStatusCondition env (setStatusCondition env h cs c) t = findStatusCondition env cs t))"

definition reported :: "env \<Rightarrow> Agent \<Rightarrow> string \<Rightarrow> (ConditionStatus \<times> string \<times> int) option" where
  "reported env agent type =
     map_option (\<lambda>c. (cond_Status c, cond_Reason c, cond_ObservedGeneration c))
       (findStatusCondition env (st_Conditions (ag_Status agent)) type)"

lemma reported_set:
  assumes "condition_laws env"
  shows "reported env (agent\<lparr>ag_Status := st\<lparr>st_Conditions := setStatusCondition env h cs (condition x type s reason m)\<rparr>\<rparr>) t =
    (if t = type then Some (s, reason, om_Generation (ag_Meta x))
     else reported env (agent\<lparr>ag_Status := st\<lparr>st_Conditions := cs\<rparr>\<rparr>) t)"
proof -
  let ?c = "condition x type s reason m"
  have "cond_Type ?c = type" by (simp add: condition_def)
  with assms obtain lt where "findStatusCondition env (setStatusCondition env h cs ?c) type
      = Some (?c\<lparr>cond_LastTransitionTime := lt\<rparr>)"
    and "\<forall>t. t \<noteq> type \<longrightarrow> findStatusCondition env (setStatusCondition env h cs ?c) t = findStatusCondition env cs t"
    unfolding condition_laws_def by metis
  then show ?thesis by (auto simp: reported_def condition_def)
qed

lemma conditions_differ: "ConditionSynced \<noteq> ConditionAvailable"
  by (simp add: condition_constants)

text \<open>The calls of a reconcile, in order: the Secret, then the StatefulSet if the Secret is there.\<close>

lemma reconcileWorkload_trace:
  "\<exists>res ls. snd (run_state (reconcileWorkload env r agent) h) =
       h @ GetSecretMeta (credentials_key agent) (getSecretMeta env h (credentials_key agent))
         # (if isl (getSecretMeta env h (credentials_key agent)) then []
            else CreateOrUpdate (key_of (ag_Meta agent)) res # ls)
     \<and> (\<forall>e\<in>set ls. is_log e)"
proof (cases "getSecretMeta env h (credentials_key agent)")
  case (Inl e)
  then show ?thesis
    by (auto simp: reconcileWorkload_def credentialsExist_def run_simps condition_setters intro: exI [of _ "[]"])
next
  case (Inr u)
  let ?h = "h @ [GetSecretMeta (credentials_key agent) (Inr ())]"
  obtain s t where s: "run_state (reconcileStatefulSet env r agent) ?h = (s, t)" by fastforce
  then have "\<exists>res ls. t = ?h @ CreateOrUpdate (key_of (ag_Meta agent)) res # ls \<and> (\<forall>e\<in>set ls. is_log e)"
    by (auto simp: reconcileStatefulSet_def run_simps Let_def key_of_def
        split: sum.splits prod.splits if_splits intro: exI [of _ "[]"])
  moreover have "snd (run_state (reconcileWorkload env r agent) h) = t"
    using Inr s by (cases s) (simp_all add: reconcileWorkload_def credentialsExist_def run_simps condition_setters)
  ultimately show ?thesis using Inr by simp
qed

lemma writeStatus_emits:
  "emits (\<lambda>e. is_log e \<or> (\<exists>res. e = MergeAgentStatus agent held res)) (writeStatus env agent held)"
  by (auto simp: writeStatus_def intro!: emits_intros emits_call emits_log)

text \<open>A reconcile of an Agent that was read: the workload, then at most the status.\<close>

lemma Reconcile_trace:
  assumes "getAgent env h req = Inr held"
  obtains w t es where "run_state (reconcileWorkload env r held) (h @ [GetAgent req (Inr held)]) = (w, t)"
    and "snd (run_state (Reconcile env r req) h) = t @ es"
    and "\<forall>e\<in>set es. is_log e \<or> (\<exists>agent' res. w = Inr agent' \<and> e = MergeAgentStatus
      (agent'\<lparr>ag_Status := (ag_Status agent')\<lparr>st_ObservedGeneration := om_Generation (ag_Meta agent')\<rparr>\<rparr>) held res)"
proof -
  obtain w t where w: "run_state (reconcileWorkload env r held) (h @ [GetAgent req (Inr held)]) = (w, t)" by fastforce
  show thesis
  proof (cases w)
    case (Inl e)
    with w assms that [of w t "[]"] show ?thesis by (simp add: Reconcile_def run_simps)
  next
    case (Inr agent')
    let ?a = "agent'\<lparr>ag_Status := (ag_Status agent')\<lparr>st_ObservedGeneration := om_Generation (ag_Meta agent')\<rparr>\<rparr>"
    obtain x u where u: "run_state (writeStatus env ?a held) t = (x, u)" by fastforce
    obtain es where "u = t @ es" "\<forall>e\<in>set es. is_log e \<or> (\<exists>res. e = MergeAgentStatus ?a held res)"
      using writeStatus_emits u by (rule emitsE)
    with w assms u Inr that [of w t es] show ?thesis by (simp add: Reconcile_def run_simps)
  qed
qed

subsection \<open>Properties\<close>

text \<open>C9: No workload is built for an Agent whose credential is not there: every create or update of a
  StatefulSet comes right after the Agent was read and the Secret its spec names was answered to exist,
  and it is the StatefulSet of that Agent's own name.\<close>

theorem workload_needs_credential:
  assumes "appended (Reconcile env r req) h = xs @ CreateOrUpdate k res # ys"
  shows "\<exists>held. xs = [GetAgent req (Inr held), GetSecretMeta (credentials_key held) (Inr ())]
    \<and> k = key_of (ag_Meta held)"
proof (cases "getAgent env h req")
  case (Inl e)
  then show ?thesis using assms
    by (auto simp: appended_def Reconcile_def run_simps Cons_eq_append_conv split: if_splits)
next
  case (Inr held)
  let ?h1 = "h @ [GetAgent req (Inr held)]" and ?s = "getSecretMeta env (h @ [GetAgent req (Inr held)]) (credentials_key held)"
  obtain w t es where w: "run_state (reconcileWorkload env r held) ?h1 = (w, t)"
    and run: "snd (run_state (Reconcile env r req) h) = t @ es"
    and "\<forall>e\<in>set es. is_log e \<or> (\<exists>a res. w = Inr a \<and> e = MergeAgentStatus
      (a\<lparr>ag_Status := (ag_Status a)\<lparr>st_ObservedGeneration := om_Generation (ag_Meta a)\<rparr>\<rparr>) held res)"
    using Reconcile_trace [OF Inr] by blast
  then have es: "CreateOrUpdate k res \<notin> set es" by auto
  obtain res' ls where t: "t = ?h1 @ GetSecretMeta (credentials_key held) ?s
      # (if isl ?s then [] else CreateOrUpdate (key_of (ag_Meta held)) res' # ls)" and ls: "\<forall>e\<in>set ls. is_log e"
    using reconcileWorkload_trace [of env r held ?h1] w by auto
  have "CreateOrUpdate k res \<notin> set ls" using ls by auto
  moreover have "xs @ CreateOrUpdate k res # ys = drop (length h) (t @ es)" using assms run by (simp add: appended_def)
  ultimately show ?thesis
    using t es by (cases ?s) (auto simp: Cons_eq_append_conv append_eq_append_conv2 append_eq_Cons_conv)
qed

text \<open>A cluster holding one Agent whose Secret is there, with a StatefulSet that is up to date and ready.\<close>

definition demo_ready :: StatefulSet where
  "demo_ready = (projr (applyAgent refusing_env demo_reconciler demo_agent demo_fresh))\<lparr>ss_ReadyReplicas := 1\<rparr>"

definition demo_find :: "Condition list \<Rightarrow> string \<Rightarrow> Condition option" where
  "demo_find cs t = find (\<lambda>c. cond_Type c = t) cs"

definition demo_set :: "history \<Rightarrow> Condition list \<Rightarrow> Condition \<Rightarrow> Condition list" where
  "demo_set h cs c = c # filter (\<lambda>x. cond_Type x \<noteq> cond_Type c) cs"

definition demo_reconcile_env :: env where
  "demo_reconcile_env = refusing_env\<lparr>getAgent := (\<lambda>h k. Inr demo_agent), getSecretMeta := (\<lambda>h k. Inr ()),
     createOrUpdate := (\<lambda>h k f. Inr (OperationResultNone, demo_ready)),
     mergeAgentStatus := (\<lambda>h a b. Inr a), setStatusCondition := demo_set, findStatusCondition := demo_find\<rparr>"

lemma demo_condition_laws: "condition_laws demo_reconcile_env"
proof -
  have "find (\<lambda>x. cond_Type x = t) (filter (\<lambda>x. cond_Type x \<noteq> u) cs) = find (\<lambda>x. cond_Type x = t) cs"
    if "t \<noteq> u" for t u and cs :: "Condition list"
    using that by (induction cs) auto
  moreover have "\<exists>lt. c = c\<lparr>cond_LastTransitionTime := lt\<rparr>" for c :: Condition
    by (rule exI [of _ "cond_LastTransitionTime c"]) simp
  ultimately show ?thesis
    by (auto simp: condition_laws_def demo_reconcile_env_def demo_find_def demo_set_def)
qed

lemma demo_reconcile_answers:
  "getAgent demo_reconcile_env h k = Inr demo_agent" "getSecretMeta demo_reconcile_env h k = Inr ()"
  "createOrUpdate demo_reconcile_env h k f = Inr (OperationResultNone, demo_ready)"
  "mergeAgentStatus demo_reconcile_env h a b = Inr a"
  "statusDeepEqual demo_reconcile_env s t = (s = t)"
  by (simp_all add: demo_reconcile_env_def refusing_env_def)

lemma demo_reconcile_trace:
  "\<exists>res ys. appended (Reconcile demo_reconcile_env demo_reconciler (''ns'', ''a'')) [] =
     [GetAgent (''ns'', ''a'') (Inr demo_agent), GetSecretMeta (credentials_key demo_agent) (Inr ())]
     @ CreateOrUpdate (key_of (ag_Meta demo_agent)) res # ys"
proof -
  let ?m = "Reconcile demo_reconcile_env demo_reconciler (''ns'', ''a'')"
  obtain w t es where "run_state (reconcileWorkload demo_reconcile_env demo_reconciler demo_agent)
      ([] @ [GetAgent (''ns'', ''a'') (Inr demo_agent)]) = (w, t)" and m: "snd (run_state ?m []) = t @ es"
    using demo_reconcile_answers(1) Reconcile_trace by metis
  moreover obtain res ls where "snd (run_state (reconcileWorkload demo_reconcile_env demo_reconciler demo_agent)
      [GetAgent (''ns'', ''a'') (Inr demo_agent)]) = [GetAgent (''ns'', ''a'') (Inr demo_agent)]
      @ GetSecretMeta (credentials_key demo_agent) (Inr ()) # CreateOrUpdate (key_of (ag_Meta demo_agent)) res # ls"
    using reconcileWorkload_trace [of demo_reconcile_env demo_reconciler demo_agent "[GetAgent (''ns'', ''a'') (Inr demo_agent)]"]
    unfolding demo_reconcile_answers by auto
  ultimately have "appended ?m [] = [GetAgent (''ns'', ''a'') (Inr demo_agent),
      GetSecretMeta (credentials_key demo_agent) (Inr ())] @ CreateOrUpdate (key_of (ag_Meta demo_agent)) res # (ls @ es)"
    by (simp add: appended_def)
  then show ?thesis by blast
qed

theorem workload_needs_credential_witness:
  "\<exists>xs k res ys held. appended (Reconcile demo_reconcile_env demo_reconciler (''ns'', ''a'')) [] = xs @ CreateOrUpdate k res # ys
     \<and> xs = [GetAgent (''ns'', ''a'') (Inr held), GetSecretMeta (credentials_key held) (Inr ())]
     \<and> k = key_of (ag_Meta held)"
proof -
  from demo_reconcile_trace obtain res ys where run:
    "appended (Reconcile demo_reconcile_env demo_reconciler (''ns'', ''a'')) [] =
      [GetAgent (''ns'', ''a'') (Inr demo_agent), GetSecretMeta (credentials_key demo_agent) (Inr ())]
      @ CreateOrUpdate (key_of (ag_Meta demo_agent)) res # ys" by blast
  from workload_needs_credential [OF run] run show ?thesis by blast
qed

text \<open>The two writers of an Agent's status write disjoint fields: every status patch of a reconcile is
  computed between the Agent it read and one that differs from it in the conditions and the observed
  generation alone, so the GRN and the epoch the poller recorded are never part of it, nor is the spec.\<close>

theorem status_writers_disjoint:
  assumes "MergeAgentStatus a b res \<in> set (appended (Reconcile env r req) h)"
  shows "getAgent env h req = Inr b \<and> ag_Meta a = ag_Meta b \<and> ag_Spec a = ag_Spec b
    \<and> st_Agent (ag_Status a) = st_Agent (ag_Status b) \<and> st_Epoch (ag_Status a) = st_Epoch (ag_Status b)
    \<and> st_ObservedGeneration (ag_Status a) = om_Generation (ag_Meta b)"
proof (cases "getAgent env h req")
  case (Inl e)
  then show ?thesis using assms by (auto simp: appended_def Reconcile_def run_simps split: if_splits)
next
  case (Inr held)
  let ?h1 = "h @ [GetAgent req (Inr held)]"
  obtain w t es where w: "run_state (reconcileWorkload env r held) ?h1 = (w, t)"
    and run: "snd (run_state (Reconcile env r req) h) = t @ es"
    and es: "\<forall>e\<in>set es. is_log e \<or> (\<exists>a res. w = Inr a \<and> e = MergeAgentStatus
      (a\<lparr>ag_Status := (ag_Status a)\<lparr>st_ObservedGeneration := om_Generation (ag_Meta a)\<rparr>\<rparr>) held res)"
    using Reconcile_trace [OF Inr] by blast
  have "MergeAgentStatus a b res \<notin> set (drop (length h) t)"
    using reconcileWorkload_trace [of env r held ?h1] w by (fastforce split: if_splits)
  then have "MergeAgentStatus a b res \<in> set es" using assms run by (auto simp: appended_def dest: in_set_dropD)
  with es obtain x where "w = Inr x" "b = held"
    "a = x\<lparr>ag_Status := (ag_Status x)\<lparr>st_ObservedGeneration := om_Generation (ag_Meta x)\<rparr>\<rparr>" by auto
  moreover from this w obtain cs where "x = held\<lparr>ag_Status := (ag_Status held)\<lparr>st_Conditions := cs\<rparr>\<rparr>"
    using reconcileWorkload_conditions_only by blast
  ultimately show ?thesis using Inr by simp
qed

lemma writeStatus_differs:
  assumes "\<not> statusDeepEqual env (ag_Status held) (ag_Status agent)"
  shows "\<exists>res. MergeAgentStatus agent held res \<in> set (drop (length h) (snd (run_state (writeStatus env agent held) h)))"
  using assms by (auto simp: writeStatus_def run_simps split: sum.splits)

lemma demo_reconciled:
  "\<exists>a' t. run_state (reconcileWorkload demo_reconcile_env demo_reconciler demo_agent) h = (Inr a', h @ t)
     \<and> st_Conditions (ag_Status a') \<noteq> []"
proof -
  have set: "setStatusCondition demo_reconcile_env h cs c \<noteq> []" for h cs c
    by (simp add: demo_reconcile_env_def demo_set_def)
  show ?thesis
    by (auto simp: reconcileWorkload_def credentialsExist_def reconcileStatefulSet_def condition_setters run_simps
        demo_reconcile_answers set Let_def)
qed

theorem status_writers_disjoint_witness:
  "\<exists>a res. MergeAgentStatus a demo_agent res
       \<in> set (appended (Reconcile demo_reconcile_env demo_reconciler (''ns'', ''a'')) [])
     \<and> a \<noteq> demo_agent \<and> ag_Spec a = ag_Spec demo_agent \<and> st_Epoch (ag_Status a) = st_Epoch (ag_Status demo_agent)"
proof -
  let ?m = "Reconcile demo_reconcile_env demo_reconciler (''ns'', ''a'')"
  obtain a' t where w: "run_state (reconcileWorkload demo_reconcile_env demo_reconciler demo_agent)
      [GetAgent (''ns'', ''a'') (Inr demo_agent)] = (Inr a', [GetAgent (''ns'', ''a'') (Inr demo_agent)] @ t)"
    and ne: "st_Conditions (ag_Status a') \<noteq> []"
    using demo_reconciled by blast
  let ?a = "a'\<lparr>ag_Status := (ag_Status a')\<lparr>st_ObservedGeneration := om_Generation (ag_Meta a')\<rparr>\<rparr>"
  have none: "st_Conditions (ag_Status demo_agent) = []" by (simp add: demo_agent_def empty_status_def)
  then have "\<not> statusDeepEqual demo_reconcile_env (ag_Status demo_agent) (ag_Status ?a)"
    using ne by (auto simp: demo_reconcile_answers)
  from writeStatus_differs [OF this, of "[GetAgent (''ns'', ''a'') (Inr demo_agent)] @ t"]
  obtain res where wrote: "MergeAgentStatus ?a demo_agent res \<in> set (appended ?m [])"
    using w by (auto simp: appended_def Reconcile_def run_simps demo_reconcile_answers dest!: in_set_dropD)
  note written = status_writers_disjoint [OF wrote]
  have "?a \<noteq> demo_agent"
  proof
    assume "?a = demo_agent"
    then have "st_Conditions (ag_Status ?a) = []" using none by simp
    with ne show False by simp
  qed
  with written wrote show ?thesis by blast
qed

text \<open>C21: The conditions say what was observed. With the Secret missing, Synced is false for that reason and
  Available is unknown, not false. With a StatefulSet in hand, Synced is true exactly when the storage
  claimed is the storage asked for, and Available is true exactly when a replica is ready. Each carries
  the generation of the Agent that was read.\<close>

theorem conditions_say_what_was_observed:
  assumes "condition_laws env" and "run_state (reconcileWorkload env r agent) h = (Inr agent', t)"
  shows "case getSecretMeta env h (credentials_key agent) of
      Inl e \<Rightarrow> IsNotFound e
        \<and> reported env agent' ''Synced'' = Some (ConditionFalse, ''CredentialsSecretMissing'', om_Generation (ag_Meta agent))
        \<and> reported env agent' ''Available'' = Some (ConditionUnknown, ''WorkloadNotObserved'', om_Generation (ag_Meta agent))
    | Inr u \<Rightarrow> \<exists>op ss.
        createOrUpdate env (h @ [GetSecretMeta (credentials_key agent) (Inr u)]) (key_of (ag_Meta agent)) (applyAgent env r agent)
          = Inr (op, ss)
        \<and> reported env agent' ''Synced'' =
            (if quantityCmp env (claimedStorageSize ss) (as_StorageSize (ag_Spec agent)) = 0
             then Some (ConditionTrue, ''WorkloadReconciled'', om_Generation (ag_Meta agent))
             else Some (ConditionFalse, ''StorageSizeImmutable'', om_Generation (ag_Meta agent)))
        \<and> reported env agent' ''Available'' =
            (if ss_ReadyReplicas ss > 0
             then Some (ConditionTrue, ''ReplicaReady'', om_Generation (ag_Meta agent))
             else Some (ConditionFalse, ''ReplicaNotReady'', om_Generation (ag_Meta agent)))"
proof (cases "getSecretMeta env h (credentials_key agent)")
  case (Inl e)
  then show ?thesis
    using assms
    by (auto simp: reconcileWorkload_def credentialsExist_def condition_setters run_simps reported_set
        condition_constants split: if_splits)
next
  case (Inr u)
  show ?thesis
  proof (cases "createOrUpdate env (h @ [GetSecretMeta (credentials_key agent) (Inr u)]) (key_of (ag_Meta agent))
      (applyAgent env r agent)")
    case (Inl e)
    then show ?thesis using assms Inr
      by (simp add: reconcileWorkload_def credentialsExist_def reconcileStatefulSet_def run_simps Let_def key_of_def)
  next
    case ss: (Inr p)
    obtain op ss where p: "p = (op, ss)" by fastforce
    obtain t' where "run_state (reconcileStatefulSet env r agent) (h @ [GetSecretMeta (credentials_key agent) (Inr u)]) = (Inr ss, t')"
      using ss p by (cases op) (auto simp: reconcileStatefulSet_def run_simps Let_def key_of_def)
    then show ?thesis
      using assms Inr ss p
      by (cases "ss_ReadyReplicas ss > 0";
          cases "quantityCmp env (claimedStorageSize ss) (as_StorageSize (ag_Spec agent)) = 0")
        (auto simp: reconcileWorkload_def credentialsExist_def condition_setters run_simps reported_set
          condition_constants)
  qed
qed

theorem conditions_say_what_was_observed_witness:
  "\<exists>agent' t. run_state (reconcileWorkload demo_reconcile_env demo_reconciler demo_agent) [] = (Inr agent', t)
     \<and> reported demo_reconcile_env agent' ''Available'' = Some (ConditionTrue, ''ReplicaReady'', 0)"
proof -
  obtain a' t where run: "run_state (reconcileWorkload demo_reconcile_env demo_reconciler demo_agent) [] = (Inr a', t)"
    using demo_reconciled [of "[]"] by auto
  have "ss_ReadyReplicas demo_ready > 0" "om_Generation (ag_Meta demo_agent) = 0"
    by (simp_all add: demo_ready_def demo_agent_def object_meta_def)
  with conditions_say_what_was_observed [OF demo_condition_laws run] run show ?thesis
    by (auto simp: demo_reconcile_answers)
qed

lemma reconcileWorkload_error:
  assumes "run_state (reconcileWorkload env r agent) h = (Inl e, t)"
  shows "\<exists>m e0. e = Wrapped m e0 \<and>
    (\<not> IsNotFound e0 \<and> last t = GetSecretMeta (credentials_key agent) (Inl e0)
     \<or> last t = CreateOrUpdate (key_of (ag_Meta agent)) (Inl e0))"
proof (cases "getSecretMeta env h (credentials_key agent)")
  case (Inl x)
  then show ?thesis using assms
    by (auto simp: reconcileWorkload_def credentialsExist_def condition_setters run_simps split: if_splits)
next
  case (Inr u)
  let ?h = "h @ [GetSecretMeta (credentials_key agent) (Inr ())]"
  obtain s t' where s: "run_state (reconcileStatefulSet env r agent) ?h = (s, t')" by fastforce
  show ?thesis
  proof (cases s)
    case (Inl x)
    then show ?thesis using assms Inr s
      by (auto simp: reconcileWorkload_def credentialsExist_def reconcileStatefulSet_def run_simps Let_def key_of_def
          split: sum.splits prod.splits)
  next
    case ss: (Inr ss)
    then show ?thesis using assms Inr s
      by (auto simp: reconcileWorkload_def credentialsExist_def condition_setters run_simps split: if_splits)
  qed
qed



text \<open>A status that already says what was observed is not written again: where the computed status equals
  the one the API server holds, a reconcile patches nothing.\<close>

theorem unchanged_status_not_written:
  assumes "getAgent env h req = Inr held"
    and "run_state (reconcileWorkload env r held) (h @ [GetAgent req (Inr held)]) = (Inr agent, t)"
    and "statusDeepEqual env (ag_Status held)
      ((ag_Status agent)\<lparr>st_ObservedGeneration := om_Generation (ag_Meta agent)\<rparr>)"
  shows "run_state (Reconcile env r req) h = (Inr (), t)"
  using assms by (simp add: Reconcile_def writeStatus_def run_simps)

theorem unchanged_status_not_written_witness:
  "\<exists>t. run_state (Reconcile (demo_reconcile_env\<lparr>statusDeepEqual := (\<lambda>a b. True)\<rparr>) demo_reconciler (''ns'', ''a'')) [] = (Inr (), t)"
proof -
  let ?env = "demo_reconcile_env\<lparr>statusDeepEqual := (\<lambda>a b. True)\<rparr>"
  have "\<exists>a t. run_state (reconcileWorkload ?env demo_reconciler demo_agent) ([] @ [GetAgent (''ns'', ''a'') (Inr demo_agent)]) = (Inr a, t)"
    by (auto simp: reconcileWorkload_def credentialsExist_def reconcileStatefulSet_def condition_setters run_simps
        demo_reconcile_answers Let_def)
  then obtain a t where w: "run_state (reconcileWorkload ?env demo_reconciler demo_agent)
      ([] @ [GetAgent (''ns'', ''a'') (Inr demo_agent)]) = (Inr a, t)" by blast
  have "getAgent ?env [] (''ns'', ''a'') = Inr demo_agent" by (simp add: demo_reconcile_answers)
  from unchanged_status_not_written [OF this w] show ?thesis by auto
qed

text \<open>The arrival of a Secret wakes exactly the Agents that name it: of the Agents in the Secret's
  namespace the ones whose spec names it are enqueued, each once for each time it is listed, and no other.\<close>

theorem agentsNamingSecret_exact:
  "run_state (agentsNamingSecret env (ns, name)) h =
     (case listAgents env h ns of
        Inl e \<Rightarrow> ([], h @ [ListAgents ns (Inl e), Log LogError ''Failed to list Agents for a Secret''
                     [(''error'', LvErr e), (''secret'', LvStr name)]])
      | Inr agents \<Rightarrow>
          (map (\<lambda>x. key_of (ag_Meta x)) (filter (\<lambda>x. as_CredentialsSecretName (ag_Spec x) = name) agents),
           h @ [ListAgents ns (Inr agents)]))"
proof -
  have "requests_naming name agents =
      map (\<lambda>x. key_of (ag_Meta x)) (filter (\<lambda>x. as_CredentialsSecretName (ag_Spec x) = name) agents)" for agents
    by (induction agents) auto
  then show ?thesis by (simp add: agentsNamingSecret_def run_simps split: sum.splits)
qed

end
