(* ===== verification/Startup.thy ===== *)
theory Startup
  imports Poller Reporter Renewer Enroller Controller
begin

text \<open>
  The process (\<^verbatim>\<open>src/cmd/main.go\<close>): what it refuses to start without, which of the four runnables and
  the controller it hands the manager, and with which clients and stores. The parsed flags are an
  argument. Kubernetes' manager is a parameter: whether each call on it fails. An \<^verbatim>\<open>os.Exit\<close> is the
  value \<open>Inl\<close> of the exit code; \<open>Inr\<close> is a manager that ran, with what it ran.
\<close>

record flags =
  fl_metricsAddr :: string
  fl_probeAddr :: string
  fl_enableLeaderElection :: bool
  fl_secureMetrics :: bool
  fl_webhookCertPath :: string
  fl_webhookCertName :: string
  fl_webhookCertKey :: string
  fl_metricsCertPath :: string
  fl_metricsCertName :: string
  fl_metricsCertKey :: string
  fl_enableHTTP2 :: bool
  fl_garamAddress :: string
  fl_garamCertificateFile :: string
  fl_garamKeyFile :: string
  fl_garamTrustFile :: string
  fl_garamPollInterval :: int
  fl_garamReportInterval :: int
  fl_garamCredentialSecret :: string
  fl_garamRenewalInterval :: int
  fl_garamEnrollmentTokenFile :: string
  fl_agentImage :: string
  fl_agentStorageSize :: string
  fl_agentCopyImage :: string
  fl_agentToolsImage :: string
  fl_agentWorkspaceImage :: string

definition second :: int where
  "second = 1000000000"

definition default_flags :: flags where
  "default_flags =
     \<lparr>fl_metricsAddr = ''0'', fl_probeAddr = '':8081'', fl_enableLeaderElection = False, fl_secureMetrics = True,
      fl_webhookCertPath = [], fl_webhookCertName = ''tls.crt'', fl_webhookCertKey = ''tls.key'',
      fl_metricsCertPath = [], fl_metricsCertName = ''tls.crt'', fl_metricsCertKey = ''tls.key'',
      fl_enableHTTP2 = False, fl_garamAddress = [], fl_garamCertificateFile = [], fl_garamKeyFile = [],
      fl_garamTrustFile = [], fl_garamPollInterval = 60 * second, fl_garamReportInterval = 60 * second,
      fl_garamCredentialSecret = [], fl_garamRenewalInterval = 3600 * second, fl_garamEnrollmentTokenFile = [],
      fl_agentImage = [], fl_agentStorageSize = [], fl_agentCopyImage = [], fl_agentToolsImage = [],
      fl_agentWorkspaceImage = []\<rparr>"

subsection \<open>The two servers\<close>

text \<open>A webhook server has no address of its own here and always serves TLS.\<close>

datatype tls_option = DisableHTTP2

record server_options =
  so_BindAddress :: string
  so_SecureServing :: bool
  so_TLSOpts :: "tls_option list"
  so_Filtered :: bool
  so_CertDir :: string
  so_CertName :: string
  so_KeyName :: string

definition tlsOpts :: "flags \<Rightarrow> tls_option list" where
  "tlsOpts fl = (if \<not> fl_enableHTTP2 fl then [DisableHTTP2] else [])"

text \<open>What the option sets: the protocols offered, \<open>None\<close> where the server's own default stands.\<close>

fun next_protos :: "tls_option list \<Rightarrow> string list option" where
  "next_protos [] = None"
| "next_protos (DisableHTTP2 # os) = (case next_protos os of None \<Rightarrow> Some [''http/1.1''] | Some ps \<Rightarrow> Some ps)"

definition webhookServerOptions :: "flags \<Rightarrow> server_options" where
  "webhookServerOptions fl =
     (let so = \<lparr>so_BindAddress = [], so_SecureServing = True, so_TLSOpts = tlsOpts fl, so_Filtered = False,
                so_CertDir = [], so_CertName = [], so_KeyName = []\<rparr>
      in if fl_webhookCertPath fl \<noteq> []
         then so\<lparr>so_CertDir := fl_webhookCertPath fl, so_CertName := fl_webhookCertName fl,
                 so_KeyName := fl_webhookCertKey fl\<rparr>
         else so)"

definition metricsServerOptions :: "flags \<Rightarrow> server_options" where
  "metricsServerOptions fl =
     (let so = \<lparr>so_BindAddress = fl_metricsAddr fl, so_SecureServing = fl_secureMetrics fl,
                so_TLSOpts = tlsOpts fl, so_Filtered = False, so_CertDir = [], so_CertName = [], so_KeyName = []\<rparr>;
          so = (if fl_secureMetrics fl then so\<lparr>so_Filtered := True\<rparr> else so)
      in if fl_metricsCertPath fl \<noteq> []
         then so\<lparr>so_CertDir := fl_metricsCertPath fl, so_CertName := fl_metricsCertName fl,
                 so_KeyName := fl_metricsCertKey fl\<rparr>
         else so)"

subsection \<open>The manager\<close>

record manager_options =
  mo_Metrics :: server_options
  mo_WebhookServer :: server_options
  mo_HealthProbeBindAddress :: string
  mo_LeaderElection :: bool
  mo_LeaderElectionID :: string

definition managerOptions :: "flags \<Rightarrow> manager_options" where
  "managerOptions fl =
     \<lparr>mo_Metrics = metricsServerOptions fl, mo_WebhookServer = webhookServerOptions fl,
      mo_HealthProbeBindAddress = fl_probeAddr fl, mo_LeaderElection = fl_enableLeaderElection fl,
      mo_LeaderElectionID = ''b97af7b3.garam.sh''\<rparr>"

record manager =
  mg_New :: "manager_options \<Rightarrow> error option"
  mg_Setup :: "AgentReconciler \<Rightarrow> error option"
  mg_AddPoller :: "error option"
  mg_AddReporter :: "error option"
  mg_AddRenewer :: "error option"
  mg_AddEnroller :: "error option"
  mg_Healthz :: "error option"
  mg_Readyz :: "error option"
  mg_Start :: "error option"

record launched =
  la_Reconciler :: AgentReconciler
  la_Poller :: "Poller option"
  la_Reporter :: "Reporter option"
  la_Renewer :: "Renewer option"
  la_Enroller :: "Enroller option"

text \<open>The shape \<^verbatim>\<open>if err != nil { setupLog.Error(...); os.Exit(1) }\<close>, and what follows it.\<close>

definition require ::
  "error option \<Rightarrow> string \<Rightarrow> (string \<times> log_value) list \<Rightarrow> (history, int + 'a) state \<Rightarrow> (history, int + 'a) state" where
  "require err msg kvs k =
     (case err of
        None \<Rightarrow> k
      | Some e \<Rightarrow> do { log LogError msg ((''error'', LvErr e) # kvs); State_Monad.return (Inl 1) })"

text \<open>A line said at startup where a condition holds.\<close>

definition notice :: "bool \<Rightarrow> string \<Rightarrow> (string \<times> log_value) list \<Rightarrow> (history, unit) state" where
  "notice b msg kvs = (if b then log LogInfo msg kvs else State_Monad.return ())"

definition failed :: "error + 'a \<Rightarrow> error option" where
  "failed r = (case r of Inl e \<Rightarrow> Some e | Inr x \<Rightarrow> None)"

definition missing :: "bool \<Rightarrow> string \<Rightarrow> error option" where
  "missing absent msg = (if absent then Some (New msg) else None)"

definition podNamespaceVariable :: string where
  "podNamespaceVariable = ''POD_NAMESPACE''"

definition enrolling :: "flags \<Rightarrow> bool" where
  "enrolling fl \<longleftrightarrow> fl_garamEnrollmentTokenFile fl \<noteq> [] \<and> fl_garamCredentialSecret fl \<noteq> []"

definition operator_store :: "flags \<Rightarrow> string \<Rightarrow> SecretStore" where
  "operator_store fl namespace =
     NewSecret (namespace, fl_garamCredentialSecret fl)
       (filepath_base (fl_garamCertificateFile fl)) (filepath_base (fl_garamKeyFile fl))"

text \<open>The renewer and, where a token is named, the enroller.\<close>

definition credential_setup ::
  "env \<Rightarrow> manager \<Rightarrow> flags \<Rightarrow> string \<Rightarrow> Client \<Rightarrow> (history, int + (Renewer option \<times> Enroller option)) state" where
  "credential_setup env mgr fl namespace garamClient =
     (if fl_garamCredentialSecret fl = [] then do {
        log LogInfo ''Renewing nothing and enrolling nothing: garam-credential-secret is unset'' [];
        State_Monad.return (Inr (None, None))
      }
      else
        (let store = Secret_ReplaceCredential env (operator_store fl namespace);
             renewer = NewRenewer garamClient store (fl_garamRenewalInterval fl) in
         require (mg_AddRenewer mgr) ''Failed to add the garam renewer'' [(''secret'', LvStr (fl_garamCredentialSecret fl))]
           (if \<not> enrolling fl then State_Monad.return (Inr (Some renewer, None))
            else do {
              enrollmentTLS \<leftarrow> EnrollmentTLS env (fl_garamTrustFile fl);
              require (failed enrollmentTLS) ''Failed to configure the connection this operator enrolls over'' []
                (let enroller = NewEnroller (NewClient (fl_garamAddress fl) (projr enrollmentTLS)) store
                       (fl_garamEnrollmentTokenFile fl) (fl_garamCertificateFile fl) (fl_garamKeyFile fl)
                       (fl_garamTrustFile fl) in
                 require (mg_AddEnroller mgr) ''Failed to add the garam enroller''
                   [(''file'', LvStr (fl_garamEnrollmentTokenFile fl))]
                   (State_Monad.return (Inr (Some renewer, Some enroller))))
            })))"

definition garam_setup ::
  "env \<Rightarrow> manager \<Rightarrow> (string \<Rightarrow> string) \<Rightarrow> (string \<Rightarrow> error + quantity) \<Rightarrow> flags \<Rightarrow> AgentReconciler
     \<Rightarrow> (history, int + launched) state" where
  "garam_setup env mgr getenv parseQuantity fl reconciler = do {
     tlsConfig \<leftarrow> (if enrolling fl then EnrollingMutualTLS env else MutualTLS env)
                    (fl_garamCertificateFile fl) (fl_garamKeyFile fl) (fl_garamTrustFile fl);
     require (failed tlsConfig) ''Failed to configure the connection to garam'' []
       (let namespace = getenv podNamespaceVariable in
        require (missing (namespace = []) (podNamespaceVariable @ '' is unset''))
          ''Failed to name the namespace this operator writes in'' []
        (require (missing (fl_agentImage fl = []) ''agent-image is required where garam-address is set'')
          ''Failed to construct agents'' []
        (let storageSize = parseQuantity (fl_agentStorageSize fl) in
         require (failed storageSize) ''Failed to read agent-storage-size, which is required where garam-address is set''
           [(''agent-storage-size'', LvStr (fl_agentStorageSize fl))]
         (let garamClient = NewClient (fl_garamAddress fl) (projr tlsConfig);
              builder = NewAgent namespace (fl_agentImage fl) (projr storageSize);
              poller = NewPoller garamClient (agent_constructor env builder) (fl_garamPollInterval fl);
              reporter = NewReporter garamClient (Observations env builder) (fl_garamReportInterval fl) in
          require (mg_AddPoller mgr) ''Failed to add the garam poller'' [(''address'', LvStr (fl_garamAddress fl))]
          (require (mg_AddReporter mgr) ''Failed to add the garam reporter'' [(''address'', LvStr (fl_garamAddress fl))]
          (do {
             c \<leftarrow> credential_setup env mgr fl namespace garamClient;
             State_Monad.return
               (case c of
                  Inl code \<Rightarrow> Inl code
                | Inr (renewer, enroller) \<Rightarrow> Inr
                    \<lparr>la_Reconciler = reconciler, la_Poller = Some poller, la_Reporter = Some reporter,
                     la_Renewer = renewer, la_Enroller = enroller\<rparr>)
           }))))))
   }"

text \<open>The part of \<^verbatim>\<open>main\<close> after the controller is set up: garam's runnables, the checks and the manager's run.\<close>

definition garam_runnables ::
  "env \<Rightarrow> manager \<Rightarrow> (string \<Rightarrow> string) \<Rightarrow> (string \<Rightarrow> error + quantity) \<Rightarrow> flags \<Rightarrow> AgentReconciler
     \<Rightarrow> (history, int + launched) state" where
  "garam_runnables env mgr getenv parseQuantity fl reconciler =
     (if fl_garamAddress fl \<noteq> [] then garam_setup env mgr getenv parseQuantity fl reconciler
      else do {
        log LogInfo ''Reading no definitions and reporting nothing: garam-address is unset'' [];
        State_Monad.return (Inr \<lparr>la_Reconciler = reconciler, la_Poller = None, la_Reporter = None,
          la_Renewer = None, la_Enroller = None\<rparr>)
      })"

definition run_manager :: "manager \<Rightarrow> int + launched \<Rightarrow> (history, int + launched) state" where
  "run_manager mgr g =
     (case g of
        Inl code \<Rightarrow> State_Monad.return (Inl code)
      | Inr l \<Rightarrow>
          require (mg_Healthz mgr) ''Failed to set up health check'' []
          (require (mg_Readyz mgr) ''Failed to set up ready check'' []
          (do {
             log LogInfo ''Starting manager'' [];
             require (mg_Start mgr) ''Failed to run manager'' [] (State_Monad.return (Inr l))
           })))"

definition reconciler_of :: "flags \<Rightarrow> AgentReconciler" where
  "reconciler_of fl =
     \<lparr>rc_CopyImage = fl_agentCopyImage fl, rc_ToolsImage = fl_agentToolsImage fl,
      rc_WorkspaceImage = fl_agentWorkspaceImage fl\<rparr>"

definition startup ::
  "env \<Rightarrow> manager \<Rightarrow> (string \<Rightarrow> string) \<Rightarrow> (string \<Rightarrow> error + quantity) \<Rightarrow> flags
     \<Rightarrow> (history, int + launched) state" where
  "startup env mgr getenv parseQuantity fl = do {
     notice (fl_webhookCertPath fl \<noteq> []) ''Initializing webhook certificate watcher using provided certificates''
       [(''webhook-cert-path'', LvStr (fl_webhookCertPath fl)), (''webhook-cert-name'', LvStr (fl_webhookCertName fl)),
        (''webhook-cert-key'', LvStr (fl_webhookCertKey fl))];
     notice (fl_metricsCertPath fl \<noteq> []) ''Initializing metrics certificate watcher using provided certificates''
       [(''metrics-cert-path'', LvStr (fl_metricsCertPath fl)), (''metrics-cert-name'', LvStr (fl_metricsCertName fl)),
        (''metrics-cert-key'', LvStr (fl_metricsCertKey fl))];
     require (mg_New mgr (managerOptions fl)) ''Failed to start manager'' []
     (require (missing (fl_agentCopyImage fl = []) ''agent-copy-image is required'')
        ''Failed to configure the workload an Agent is built into'' []
     (do {
        notice (fl_agentToolsImage fl = []) ''Building agents with no tool tree: agent-tools-image is unset'' [];
        notice (fl_agentWorkspaceImage fl = [])
          (''Building agents with no workspace: agent-workspace-image is unset, ''
           @ ''so their file and exec tools will fail on a connection error'') [];
        require (mg_Setup mgr (reconciler_of fl)) ''Failed to create controller'' [(''controller'', LvStr ''agent'')]
          (do {
             g \<leftarrow> garam_runnables env mgr getenv parseQuantity fl (reconciler_of fl);
             run_manager mgr g
           })
      }))
   }"

subsection \<open>What a started process runs\<close>

lemma run_require:
  "run_state (require err msg kvs k) h = (Inr x, t) \<longleftrightarrow> err = None \<and> run_state k h = (Inr x, t)"
  by (cases err) (simp_all add: require_def run_simps)

lemma failed_None: "failed r = None \<longleftrightarrow> (\<exists>x. r = Inr x)"
  by (cases r) (simp_all add: failed_def)

lemma missing_None: "missing absent msg = None \<longleftrightarrow> \<not> absent"
  by (simp add: missing_def)

lemmas require_simps = run_require failed_None missing_None

lemma run_notice [run_simps]:
  "run_state (notice b msg kvs) h = ((), if b then h @ [Log LogInfo msg kvs] else h)"
  by (simp add: notice_def run_simps)

lemma credential_setup_runs:
  assumes "run_state (credential_setup env mgr fl ns c) h = (Inr (rn, en), t)"
  shows "rn = (if fl_garamCredentialSecret fl = [] then None
      else Some (NewRenewer c (Secret_ReplaceCredential env (operator_store fl ns)) (fl_garamRenewalInterval fl)))
    \<and> (if enrolling fl then \<exists>cfg u. run_state (EnrollmentTLS env (fl_garamTrustFile fl)) h = (Inr cfg, u)
         \<and> en = Some (NewEnroller (NewClient (fl_garamAddress fl) cfg) (Secret_ReplaceCredential env (operator_store fl ns))
               (fl_garamEnrollmentTokenFile fl) (fl_garamCertificateFile fl) (fl_garamKeyFile fl) (fl_garamTrustFile fl))
       else en = None)"
  using assms
  by (auto simp: credential_setup_def Let_def require_simps run_simps enrolling_def split: if_splits prod.splits)

lemma garam_setup_runs:
  assumes "run_state (garam_setup env mgr getenv pq fl rec) h = (Inr l, t)"
  shows "\<exists>cfg u ns size. ns = getenv podNamespaceVariable \<and> ns \<noteq> [] \<and> fl_agentImage fl \<noteq> []
    \<and> pq (fl_agentStorageSize fl) = Inr size
    \<and> run_state ((if enrolling fl then EnrollingMutualTLS env else MutualTLS env)
        (fl_garamCertificateFile fl) (fl_garamKeyFile fl) (fl_garamTrustFile fl)) h = (Inr cfg, u)
    \<and> la_Reconciler l = rec
    \<and> la_Poller l = Some (NewPoller (NewClient (fl_garamAddress fl) cfg)
        (agent_constructor env (NewAgent ns (fl_agentImage fl) size)) (fl_garamPollInterval fl))
    \<and> la_Reporter l = Some (NewReporter (NewClient (fl_garamAddress fl) cfg)
        (Observations env (NewAgent ns (fl_agentImage fl) size)) (fl_garamReportInterval fl))
    \<and> run_state (credential_setup env mgr fl ns (NewClient (fl_garamAddress fl) cfg)) u
        = (Inr (la_Renewer l, la_Enroller l), t)"
proof -
  let ?tls = "(if enrolling fl then EnrollingMutualTLS env else MutualTLS env)
      (fl_garamCertificateFile fl) (fl_garamKeyFile fl) (fl_garamTrustFile fl)"
  obtain c u where c: "run_state ?tls h = (c, u)" by fastforce
  with assms obtain cfg where cfg: "c = Inr cfg"
    by (auto simp: garam_setup_def run_simps require_simps)
  let ?ns = "getenv podNamespaceVariable"
  obtain size where size: "pq (fl_agentStorageSize fl) = Inr size" "?ns \<noteq> []" "fl_agentImage fl \<noteq> []"
    using assms c cfg by (auto simp: garam_setup_def run_simps require_simps Let_def)
  obtain s t' where s: "run_state (credential_setup env mgr fl ?ns (NewClient (fl_garamAddress fl) cfg)) u = (s, t')"
    by fastforce
  then obtain rn en where "s = Inr (rn, en)"
    using assms c cfg size
    by (cases s) (auto simp: garam_setup_def run_simps require_simps Let_def)
  with s assms c cfg size show ?thesis
    by (auto simp: garam_setup_def run_simps require_simps Let_def)
qed

lemma run_manager_runs: "run_state (run_manager mgr g) h = (Inr l, t) \<Longrightarrow> g = Inr l"
  by (cases g) (auto simp: run_manager_def require_simps run_simps)

lemma startup_reaches:
  assumes "run_state (startup env mgr getenv pq fl) h = (Inr l, t)"
  shows "fl_agentCopyImage fl \<noteq> []
    \<and> (\<exists>h' t'. run_state (garam_runnables env mgr getenv pq fl (reconciler_of fl)) h' = (Inr l, t'))"
  using assms
  by (auto simp: startup_def require_simps run_simps dest!: run_manager_runs split: prod.splits)

lemma startup_runs:
  assumes "run_state (startup env mgr getenv pq fl) h = (Inr l, t)"
  shows "fl_agentCopyImage fl \<noteq> [] \<and> la_Reconciler l = reconciler_of fl
    \<and> (if fl_garamAddress fl = []
       then la_Poller l = None \<and> la_Reporter l = None \<and> la_Renewer l = None \<and> la_Enroller l = None
       else \<exists>h' t'. run_state (garam_setup env mgr getenv pq fl (reconciler_of fl)) h' = (Inr l, t'))"
proof -
  from startup_reaches [OF assms] obtain h' t' where copy: "fl_agentCopyImage fl \<noteq> []"
    and run: "run_state (garam_runnables env mgr getenv pq fl (reconciler_of fl)) h' = (Inr l, t')" by blast
  show ?thesis
  proof (cases "fl_garamAddress fl = []")
    case True
    then show ?thesis using copy run by (auto simp: garam_runnables_def run_simps)
  next
    case False
    then have g: "run_state (garam_setup env mgr getenv pq fl (reconciler_of fl)) h' = (Inr l, t')"
      using run by (simp add: garam_runnables_def)
    from garam_setup_runs [OF g] have "la_Reconciler l = reconciler_of fl" by blast
    then show ?thesis using copy False g by auto
  qed
qed

lemma credential_runnables:
  assumes "run_state (credential_setup env mgr fl ns c) h = (Inr (rn, en), t)"
  shows "(rn \<noteq> None \<longleftrightarrow> fl_garamCredentialSecret fl \<noteq> []) \<and> (en \<noteq> None \<longleftrightarrow> enrolling fl)"
  using credential_setup_runs [OF assms] by (auto split: if_splits)

lemma startup_enrolls:
  assumes "run_state (startup env mgr getenv pq fl) h = (Inr l, t)" and "fl_garamAddress fl \<noteq> []" and "enrolling fl"
  shows "\<exists>e. la_Enroller l = Some e"
proof -
  obtain h' t' where "run_state (garam_setup env mgr getenv pq fl (reconciler_of fl)) h' = (Inr l, t')"
    using startup_runs [OF assms(1)] assms(2) by auto
  from garam_setup_runs [OF this] credential_runnables assms(3) show ?thesis by blast
qed

subsection \<open>Properties\<close>

text \<open>What runs is decided by the flags alone. A process that started has an image to copy credentials
  with; it polls and reports exactly where garam's address is set, and then it has a namespace, an agent
  image and a storage size; it renews exactly where the credential's Secret is named too, and enrolls
  exactly where a token file is named besides.\<close>

theorem startup_decides_runnables:
  assumes "run_state (startup env mgr getenv pq fl) h = (Inr l, t)"
  shows "fl_agentCopyImage fl \<noteq> [] \<and> la_Reconciler l = reconciler_of fl
    \<and> (la_Poller l \<noteq> None \<longleftrightarrow> fl_garamAddress fl \<noteq> []) \<and> (la_Reporter l \<noteq> None \<longleftrightarrow> fl_garamAddress fl \<noteq> [])
    \<and> (fl_garamAddress fl \<noteq> [] \<longrightarrow> getenv ''POD_NAMESPACE'' \<noteq> [] \<and> fl_agentImage fl \<noteq> []
         \<and> (\<exists>size. pq (fl_agentStorageSize fl) = Inr size))
    \<and> (la_Renewer l \<noteq> None \<longleftrightarrow> fl_garamAddress fl \<noteq> [] \<and> fl_garamCredentialSecret fl \<noteq> [])
    \<and> (la_Enroller l \<noteq> None \<longleftrightarrow> fl_garamAddress fl \<noteq> [] \<and> fl_garamCredentialSecret fl \<noteq> []
         \<and> fl_garamEnrollmentTokenFile fl \<noteq> [])"
proof (cases "fl_garamAddress fl = []")
  case True
  then show ?thesis using startup_runs [OF assms] by simp
next
  case False
  with startup_runs [OF assms] obtain h' t' where
    s: "fl_agentCopyImage fl \<noteq> []" "la_Reconciler l = reconciler_of fl"
    and g: "run_state (garam_setup env mgr getenv pq fl (reconciler_of fl)) h' = (Inr l, t')" by auto
  from garam_setup_runs [OF g] obtain cfg u ns size where
    n: "ns = getenv podNamespaceVariable" "ns \<noteq> []" "fl_agentImage fl \<noteq> []" "pq (fl_agentStorageSize fl) = Inr size"
    and runs: "la_Poller l \<noteq> None" "la_Reporter l \<noteq> None"
    and c: "run_state (credential_setup env mgr fl ns (NewClient (fl_garamAddress fl) cfg)) u
        = (Inr (la_Renewer l, la_Enroller l), t')" by auto
  show ?thesis using False s n runs credential_runnables [OF c] by (auto simp: podNamespaceVariable_def enrolling_def)
qed

definition demo_flags :: flags where
  "demo_flags = default_flags\<lparr>fl_garamAddress := ''garam:8443'', fl_garamCertificateFile := ''/c/tls.crt'',
     fl_garamKeyFile := ''/c/tls.key'', fl_garamTrustFile := ''/t/ca.pem'', fl_garamCredentialSecret := ''garam'',
     fl_garamEnrollmentTokenFile := ''/c/token'', fl_agentImage := ''img'', fl_agentStorageSize := ''1Gi'',
     fl_agentCopyImage := ''copy''\<rparr>"

definition demo_manager :: manager where
  "demo_manager = \<lparr>mg_New = (\<lambda>o'. None), mg_Setup = (\<lambda>r. None), mg_AddPoller = None, mg_AddReporter = None,
     mg_AddRenewer = None, mg_AddEnroller = None, mg_Healthz = None, mg_Readyz = None, mg_Start = None\<rparr>"

definition demo_startup_env :: env where
  "demo_startup_env = refusing_env\<lparr>readFile := (\<lambda>h f. Inr ''root''), certsFromPEM := (\<lambda>s. [s])\<rparr>"

lemma demo_startup:
  "\<exists>l t. run_state (startup demo_startup_env demo_manager (\<lambda>v. ''ns'') (\<lambda>s. Inr (Quantity s)) demo_flags) [] = (Inr l, t)"
proof -
  have tls: "\<exists>t. run_state (trustedRoots demo_startup_env f) h = (Inr [''root''], t)" for f h
    by (simp add: trustedRoots_def run_simps demo_startup_env_def)
  obtain cfg t where roots: "\<And>f h. run_state (trustedRoots demo_startup_env f) h = (Inr [''root''], t f h)"
    using tls by metis
  show ?thesis
    by (simp add: startup_def require_def notice_def missing_def failed_def garam_runnables_def garam_setup_def
        credential_setup_def run_manager_def enrolling_def EnrollingMutualTLS_def EnrollmentTLS_def run_simps roots
        demo_manager_def demo_flags_def default_flags_def Let_def)
qed

theorem startup_decides_runnables_witness:
  "\<exists>l t. run_state (startup demo_startup_env demo_manager (\<lambda>v. ''ns'') (\<lambda>s. Inr (Quantity s)) demo_flags) [] = (Inr l, t)
     \<and> la_Enroller l \<noteq> None"
proof -
  obtain l t where run: "run_state (startup demo_startup_env demo_manager (\<lambda>v. ''ns'') (\<lambda>s. Inr (Quantity s)) demo_flags) []
      = (Inr l, t)" using demo_startup by blast
  with startup_decides_runnables [OF run] show ?thesis by (auto simp: demo_flags_def)
qed

text \<open>C33: Every client the process makes verifies garam by the trust file over TLS 1.3. The one that polls,
  reports and renews presents the certificate in the two named files; the one that enrolls presents none.
  The renewer and the enroller write one store, the Secret the flags name in the Pod's own namespace, under
  the names the two files have in the mounted volume.\<close>

theorem startup_clients_and_store:
  assumes "run_state (startup env mgr getenv pq fl) h = (Inr l, t)"
  shows "(\<forall>p. la_Poller l = Some p \<longrightarrow> (\<exists>h' cfg. po_client p = NewClient (fl_garamAddress fl) cfg
         \<and> verifies_garam env h' (fl_garamTrustFile fl) cfg
         \<and> tls_ClientCertificateFiles cfg = Some (fl_garamCertificateFile fl, fl_garamKeyFile fl)
         \<and> (\<forall>r. la_Reporter l = Some r \<longrightarrow> rp_client r = po_client p)
         \<and> (\<forall>r. la_Renewer l = Some r \<longrightarrow> rn_client r = po_client p)))
    \<and> (\<forall>e. la_Enroller l = Some e \<longrightarrow> (\<exists>h' cfg. en_client e = NewClient (fl_garamAddress fl) cfg
         \<and> verifies_garam env h' (fl_garamTrustFile fl) cfg \<and> tls_ClientCertificateFiles cfg = None
         \<and> en_store e = Secret_ReplaceCredential env (operator_store fl (getenv ''POD_NAMESPACE''))))
    \<and> (\<forall>r. la_Renewer l = Some r \<longrightarrow>
         rn_store r = Secret_ReplaceCredential env (operator_store fl (getenv ''POD_NAMESPACE'')))"
proof (cases "fl_garamAddress fl = []")
  case True
  then show ?thesis using startup_runs [OF assms] by simp
next
  case False
  with startup_runs [OF assms] obtain h' t' where
    g: "run_state (garam_setup env mgr getenv pq fl (reconciler_of fl)) h' = (Inr l, t')" by auto
  from garam_setup_runs [OF g] obtain cfg u ns size where
    ns: "ns = getenv podNamespaceVariable"
    and tls: "run_state ((if enrolling fl then EnrollingMutualTLS env else MutualTLS env)
        (fl_garamCertificateFile fl) (fl_garamKeyFile fl) (fl_garamTrustFile fl)) h' = (Inr cfg, u)"
    and p: "la_Poller l = Some (NewPoller (NewClient (fl_garamAddress fl) cfg)
        (agent_constructor env (NewAgent ns (fl_agentImage fl) size)) (fl_garamPollInterval fl))"
    and r: "la_Reporter l = Some (NewReporter (NewClient (fl_garamAddress fl) cfg)
        (Observations env (NewAgent ns (fl_agentImage fl) size)) (fl_garamReportInterval fl))"
    and c: "run_state (credential_setup env mgr fl ns (NewClient (fl_garamAddress fl) cfg)) u
        = (Inr (la_Renewer l, la_Enroller l), t')" by blast
  have cfg: "verifies_garam env h' (fl_garamTrustFile fl) cfg
      \<and> tls_ClientCertificateFiles cfg = Some (fl_garamCertificateFile fl, fl_garamKeyFile fl)"
    using tls by (auto simp: tls_defs run_simps verifies_garam_def split: sum.splits if_splits)
  have en: "verifies_garam env u (fl_garamTrustFile fl) cfg' \<and> tls_ClientCertificateFiles cfg' = None"
    if "run_state (EnrollmentTLS env (fl_garamTrustFile fl)) u = (Inr cfg', v)" for cfg' v
    using that by (auto simp: tls_defs run_simps verifies_garam_def split: sum.splits if_splits)
  show ?thesis
    using credential_setup_runs [OF c] p r cfg en ns
    by (fastforce simp: NewPoller_def NewReporter_def NewRenewer_def NewEnroller_def podNamespaceVariable_def
        split: if_splits)
qed

theorem startup_clients_and_store_witness:
  "\<exists>l t e cfg. run_state (startup demo_startup_env demo_manager (\<lambda>v. ''ns'') (\<lambda>s. Inr (Quantity s)) demo_flags) []
       = (Inr l, t) \<and> la_Enroller l = Some e
     \<and> en_client e = NewClient ''garam:8443'' cfg \<and> tls_ClientCertificateFiles cfg = None"
proof -
  obtain l t where run: "run_state (startup demo_startup_env demo_manager (\<lambda>v. ''ns'') (\<lambda>s. Inr (Quantity s)) demo_flags) []
      = (Inr l, t)" using demo_startup by blast
  have "fl_garamAddress demo_flags \<noteq> []" "enrolling demo_flags" by (simp_all add: demo_flags_def enrolling_def)
  then obtain e where e: "la_Enroller l = Some e" using startup_enrolls [OF run] by blast
  with startup_clients_and_store [OF run] obtain cfg where
    "en_client e = NewClient (fl_garamAddress demo_flags) cfg" "tls_ClientCertificateFiles cfg = None" by blast
  with run e show ?thesis by (auto simp: demo_flags_def)
qed

text \<open>
  A process that does not start says why: its exit code is 1 and the last line it wrote is the error.
\<close>

definition exits_loudly :: "(history, int + 'a) state \<Rightarrow> bool" where
  "exits_loudly m \<longleftrightarrow>
     (\<forall>h c t. run_state m h = (Inl c, t) \<longrightarrow> c = 1 \<and> (\<exists>msg kvs. last t = Log LogError msg kvs))"

lemma exits_return: "exits_loudly (State_Monad.return (Inr x))"
  by (simp add: exits_loudly_def run_simps)

lemma exits_require: "exits_loudly k \<Longrightarrow> exits_loudly (require err msg kvs k)"
  by (auto simp: exits_loudly_def require_def run_simps split: option.splits)

lemma exits_bind: "(\<And>a. exits_loudly (f a)) \<Longrightarrow> exits_loudly (State_Monad.bind m f)"
  by (auto simp: exits_loudly_def run_simps split: prod.splits)

lemma exits_bind_sum:
  assumes "exits_loudly m" and "\<And>x. exits_loudly (f (Inr x))" and "\<And>c. f (Inl c) = State_Monad.return (Inl c)"
  shows "exits_loudly (State_Monad.bind m f)"
  unfolding exits_loudly_def
proof (intro allI impI)
  fix h c t
  assume run: "run_state (State_Monad.bind m f) h = (Inl c, t)"
  obtain a u where a: "run_state m h = (a, u)" by fastforce
  show "c = 1 \<and> (\<exists>msg kvs. last t = Log LogError msg kvs)"
  proof (cases a)
    case (Inl x)
    then show ?thesis using assms(1,3) run a by (simp add: exits_loudly_def run_simps)
  next
    case (Inr x)
    then have "run_state (f (Inr x)) u = (Inl c, t)" using run a by (simp add: run_simps)
    then show ?thesis using assms(2) by (simp add: exits_loudly_def)
  qed
qed

lemma exits_credential_setup: "exits_loudly (credential_setup env mgr fl ns c)"
  unfolding credential_setup_def Let_def
  by (auto intro!: exits_require exits_bind exits_return)

lemma exits_garam_setup: "exits_loudly (garam_setup env mgr getenv pq fl rec)"
proof -
  have inner: "exits_loudly (State_Monad.bind (credential_setup env mgr fl ns c) (\<lambda>c. State_Monad.return
      (case c of Inl code \<Rightarrow> Inl code | Inr (renewer, enroller) \<Rightarrow> Inr (F renewer enroller))))" for ns c and F :: "_ \<Rightarrow> _ \<Rightarrow> launched"
    by (rule exits_bind_sum [OF exits_credential_setup]) (auto simp: exits_return split: prod.splits)
  show ?thesis
    unfolding garam_setup_def Let_def by (rule exits_bind, intro exits_require inner)
qed

lemma exits_garam_runnables: "exits_loudly (garam_runnables env mgr getenv pq fl rec)"
  unfolding garam_runnables_def by (auto intro: exits_garam_setup exits_bind exits_return)

lemma exits_startup: "exits_loudly (startup env mgr getenv pq fl)"
proof -
  have inner: "exits_loudly (State_Monad.bind (garam_runnables env mgr getenv pq fl rec) (run_manager mgr))" for rec
    by (rule exits_bind_sum [OF exits_garam_runnables])
      (auto simp: run_manager_def intro!: exits_require exits_bind exits_return)
  show ?thesis
    unfolding startup_def
    by (rule exits_bind, rule exits_bind, intro exits_require, rule exits_bind, rule exits_bind,
        intro exits_require inner)
qed

end
