(* ===== verification/Operator.thy ===== *)
theory Operator
  imports Startup
begin

text \<open>
  The running process: the goroutines the manager starts (\<^verbatim>\<open>src/cmd/main.go\<close>), interleaved call by
  call. A thread runs the code of the component it belongs to. What it is answered may depend on
  everything the others do meanwhile, so a thread is allowed every trace its code has in some world;
  the operator's history is any interleaving of such traces, built one
  event at a time by the step relation \<open>operator_step\<close>. What is proved of \<open>reachable\<close> histories is
  proved by rule induction and holds under every schedule and every world.
\<close>

subsection \<open>Threads\<close>

datatype thread = Polling | Reporting | Renewing | Enrolling | Reconciling | Watching

record deployment =
  dp_client :: Client
  dp_enrollmentClient :: Client
  dp_builder :: AgentConstructor
  dp_reconciler :: AgentReconciler
  dp_store :: SecretStore
  dp_flags :: flags

definition poller_of :: "env \<Rightarrow> deployment \<Rightarrow> Poller" where
  "poller_of env d =
     NewPoller (dp_client d) (agent_constructor env (dp_builder d)) (fl_garamPollInterval (dp_flags d))"

definition reporter_of :: "env \<Rightarrow> deployment \<Rightarrow> Reporter" where
  "reporter_of env d =
     NewReporter (dp_client d) (Observations env (dp_builder d)) (fl_garamReportInterval (dp_flags d))"

definition renewer_of :: "env \<Rightarrow> deployment \<Rightarrow> Renewer" where
  "renewer_of env d =
     NewRenewer (dp_client d) (Secret_ReplaceCredential env (dp_store d)) (fl_garamRenewalInterval (dp_flags d))"

definition enroller_of :: "env \<Rightarrow> deployment \<Rightarrow> Enroller" where
  "enroller_of env d =
     NewEnroller (dp_enrollmentClient d) (Secret_ReplaceCredential env (dp_store d))
       (fl_garamEnrollmentTokenFile (dp_flags d)) (fl_garamCertificateFile (dp_flags d))
       (fl_garamKeyFile (dp_flags d)) (fl_garamTrustFile (dp_flags d))"

lemmas runnable_defs = poller_of_def reporter_of_def renewer_of_def enroller_of_def

definition discard :: "('s, 'a) state \<Rightarrow> ('s, unit) state" where
  "discard m = do { _ \<leftarrow> m; State_Monad.return () }"

text \<open>
  The controller reconciles one request after another, and a Secret that changes is mapped to
  requests on the watch's own goroutine; \<open>reqs\<close> are the keys the work queue and the watch hand out.
\<close>

definition thread_code :: "env \<Rightarrow> deployment \<Rightarrow> thread \<Rightarrow> nat \<Rightarrow> object_key list \<Rightarrow> (history, unit) state" where
  "thread_code env d th n reqs =
     (case th of
        Polling \<Rightarrow> Poller_Start n env (poller_of env d)
      | Reporting \<Rightarrow> Reporter_Start n env (reporter_of env d)
      | Renewing \<Rightarrow> Renewer_Start n env (renewer_of env d)
      | Enrolling \<Rightarrow> discard (Enroller_Start n env (enroller_of env d))
      | Reconciling \<Rightarrow> for_each reqs (\<lambda>req. discard (Reconcile env (dp_reconciler d) req))
      | Watching \<Rightarrow> for_each reqs (\<lambda>(ns, name). discard (SetupWithManager env (SecretChanged (object_meta ns name)))))"

subsection \<open>Interleavings\<close>

type_synonym schedule = "(thread \<times> event) list"

definition local_trace :: "thread \<Rightarrow> schedule \<Rightarrow> history" where
  "local_trace th g = map snd (filter (\<lambda>x. fst x = th) g)"

lemma local_trace_simps [simp]:
  "local_trace th [] = []"
  "local_trace th ((t, e) # g) = (if t = th then e # local_trace th g else local_trace th g)"
  "local_trace th (g @ g') = local_trace th g @ local_trace th g'"
  by (simp_all add: local_trace_def)

lemma set_local_trace: "e \<in> set (local_trace th g) \<longleftrightarrow> (th, e) \<in> set g"
  by (force simp: local_trace_def)

definition may_show :: "deployment \<Rightarrow> thread \<Rightarrow> history \<Rightarrow> bool" where
  "may_show d th t \<longleftrightarrow>
     (\<exists>env n reqs h rest. appended (thread_code env d th n reqs) h = t @ rest)"

inductive operator_step :: "deployment \<Rightarrow> schedule \<Rightarrow> schedule \<Rightarrow> bool" for d where
  call: "may_show d th (local_trace th g @ [e]) \<Longrightarrow> operator_step d g (g @ [(th, e)])"

inductive reachable :: "deployment \<Rightarrow> schedule \<Rightarrow> bool" for d where
  started: "reachable d []"
| stepped: "reachable d g \<Longrightarrow> operator_step d g g' \<Longrightarrow> reachable d g'"

inductive_cases operator_stepE: "operator_step d g g'"

lemma may_show_nothing: "may_show d th []"
  unfolding may_show_def by simp

lemma reachable_local: "reachable d g \<Longrightarrow> may_show d th (local_trace th g)"
proof (induction rule: reachable.induct)
  case started
  show ?case by (simp add: may_show_nothing)
next
  case (stepped g g')
  from stepped.hyps(2) obtain t e where "may_show d t (local_trace t g @ [e])" and "g' = g @ [(t, e)]"
    by (rule operator_stepE)
  then show ?case using stepped.IH by auto
qed

text \<open>A thread that keeps a property of its events keeps it in every interleaving.\<close>

lemma reachable_emits:
  assumes "reachable d g" and "(th, e) \<in> set g"
    and "\<And>env n reqs. emits P (thread_code env d th n reqs)"
  shows "P e"
proof -
  from reachable_local [OF assms(1)] obtain env n reqs h rest where t: "appended (thread_code env d th n reqs) h = local_trace th g @ rest"
    unfolding may_show_def by blast
  have "e \<in> set (appended (thread_code env d th n reqs) h)"
    using assms(2) t by (simp add: set_local_trace)
  with assms(3) show ?thesis by (rule appended_emits)
qed

subsection \<open>Who writes what\<close>

text \<open>What a thread may ask of garam and of the API server; reading, logging and the machine's own files are anyone's.\<close>

definition permitted :: "deployment \<Rightarrow> thread \<Rightarrow> event \<Rightarrow> bool" where
  "permitted d th e \<longleftrightarrow>
     (case e of
        Http q r \<Rightarrow>
          (case th of
             Polling \<Rightarrow> q = request_for (dp_client d) ''GET'' ''/definitions'' None
               \<or> (\<exists>g. q = request_for (dp_client d) ''POST'' (claim_path g) None
                    \<or> q = request_for (dp_client d) ''POST'' (certificate_path g) None)
           | Reporting \<Rightarrow> (\<exists>g epoch st. q = request_for (dp_client d) ''POST'' (provisioning_path g)
               (Some (provisioningStateReport epoch st)))
           | Renewing \<Rightarrow> q = request_for (dp_client d) ''POST'' ''/identity/certificate'' None
           | Enrolling \<Rightarrow> (\<exists>tok csr. q = request_for (dp_enrollmentClient d) ''POST'' ''/enrollment''
               (Some (enrollment tok csr)))
           | _ \<Rightarrow> False)
      | CreateAgent a r \<Rightarrow> th = Polling \<and> om_Namespace (ag_Meta a) = ctor_namespace (dp_builder d)
      | PatchAgent k p r \<Rightarrow> th = Polling \<and> p = image_patch (ctor_image (dp_builder d))
      | PatchAgentStatus k p r \<Rightarrow> th = Polling \<and> (\<exists>g epoch. p = status_patch g epoch)
      | MergeAgentStatus a b r \<Rightarrow> th = Reconciling \<and> ag_Spec a = ag_Spec b
          \<and> st_Agent (ag_Status a) = st_Agent (ag_Status b) \<and> st_Epoch (ag_Status a) = st_Epoch (ag_Status b)
      | CreateSecret s r \<Rightarrow> th = Polling
      | PatchSecret k p r \<Rightarrow> th \<in> {Renewing, Enrolling} \<and> k = css_secret (dp_store d)
          \<and> (\<exists>cr. p = credential_patch (dp_store d) cr)
      | CreateOrUpdate k r \<Rightarrow> th = Reconciling
      | _ \<Rightarrow> True)"

lemma permitted_simps [simp]:
  "permitted d th (Log l m kvs)" "permitted d th (GetAgent k ra)" "permitted d th (ListAgents ns rs)"
  "permitted d th (GetSecretMeta k ru)" "permitted d th (ReadFile f rf)" "permitted d th (TimeNow t)"
  "permitted d th (LoadX509KeyPair cf kf rc)" "permitted d th (GenerateKey rk)"
  "permitted d th (CreateCertificateRequest ek rq)"
  by (simp_all add: permitted_def)

lemma permitted_quiet: "\<not> is_http e \<and> \<not> is_kube_write e \<Longrightarrow> permitted d th e"
  by (cases e) (simp_all add: permitted_def)

text \<open>The poller.\<close>

lemma permitted_writes:
  "permitted d Polling (CreateAgent (constructed_agent (dp_builder d) df) ra)"
  "permitted d Polling (PatchAgent k (image_patch (ctor_image (dp_builder d))) ra)"
  "permitted d Polling (PatchAgentStatus k (status_patch g epoch) ra)"
  "permitted d Polling (CreateSecret s ru)"
  by (auto simp: permitted_def constructed_agent_def object_meta_def)

lemma constructor_permitted:
  "emits (permitted d Polling) (Agent_HasCredential env (dp_builder d) g)"
  "emits (permitted d Polling) (Agent_Construct env (dp_builder d) df epoch credential)"
  "emits (permitted d Polling) (Agent_CorrectImage env (dp_builder d) g)"
  by (auto simp: Agent_HasCredential_def Agent_Construct_def Agent_CorrectImage_def ensureAgent_def
      createOrGetAgent_def placeCredential_def permitted_writes
      intro!: emits_intros emits_call)

lemma poll_permitted: "emits (permitted d Polling) (poll env (poller_of env d))"
proof -
  have "emits (permitted d Polling) (poll_definition env (poller_of env d) df)" for df
    unfolding poll_definition_def poller_claim_def poller_correct_def poller_construct_def poller_place_def
      poller_of_def NewPoller_def agent_constructor_def Poller.simps Constructor.simps
    by (intro emits_intros emits_log emits_routes) (auto simp: constructor_permitted permitted_def)
  then show ?thesis
    unfolding poll_def
    by (intro emits_intros emits_log emits_routes) (simp_all add: permitted_def poller_of_def NewPoller_def)
qed

text \<open>The reporter and the renewer.\<close>

lemma report_permitted: "emits (permitted d Reporting) (report env (reporter_of env d))"
proof -
  have "emits (permitted d Reporting) (Observations env (dp_builder d))"
    by (auto simp: Observations_def intro!: emits_intros emits_call)
  moreover have "emits (permitted d Reporting) (report_one env (reporter_of env d) x)" for x
    unfolding report_one_def reporter_send_def reporter_of_def NewReporter_def Reporter.simps
    by (intro emits_intros emits_log emits_routes) (auto simp: permitted_def)
  ultimately show ?thesis
    unfolding report_def by (intro emits_intros emits_log) (simp_all add: reporter_of_def NewReporter_def)
qed

lemma store_permitted:
  "th \<in> {Renewing, Enrolling} \<Longrightarrow> emits (permitted d th) (Secret_ReplaceCredential env (dp_store d) cr)"
  by (auto simp: Secret_ReplaceCredential_def permitted_def intro!: emits_intros emits_call)

lemma renew_permitted: "emits (permitted d Renewing) (renew env (renewer_of env d))"
  unfolding renew_def renewer_of_def NewRenewer_def Renewer.simps
  by (intro emits_intros emits_log emits_routes store_permitted) (auto simp: permitted_def)

text \<open>The enroller: whatever an attempt records, it goes on with the client and the store it was made with.\<close>

definition enroller_like :: "Enroller \<Rightarrow> Enroller \<Rightarrow> bool" where
  "enroller_like e e' \<longleftrightarrow> en_client e' = en_client e \<and> en_store e' = en_store e"

lemma attempt_like: "run_state (attempt env e) h = ((over, e'), t) \<Longrightarrow> enroller_like e e'"
  by (auto simp: attempt_def attempt_token_def enroll_def run_simps Let_def enroller_like_def
      split: option.splits sum.splits if_splits prod.splits)

lemma attempt_permitted:
  assumes "enroller_like (enroller_of env d) e"
  shows "emits (permitted d Enrolling) (attempt env e)"
proof -
  have keep: "emits (permitted d Enrolling) (keep_enrolled env (e\<lparr>en_spent := sp\<rparr>) q enrolled)" for sp q enrolled
  proof -
    have "emits (permitted d Enrolling) (reportServerRoot env x pem)" for x pem
      by (auto simp: reportServerRoot_def readFileOrNothing_def intro!: emits_intros emits_call emits_log)
    moreover have "en_store (e\<lparr>en_spent := sp\<rparr>) = Secret_ReplaceCredential env (dp_store d)"
      using assms by (simp add: enroller_like_def enroller_of_def NewEnroller_def)
    ultimately show ?thesis
      unfolding keep_enrolled_def by (intro emits_intros emits_log) (simp_all add: store_permitted)
  qed
  have request: "emits (permitted d Enrolling) (NewCertificateRequest env)"
    by (auto simp: NewCertificateRequest_def intro!: emits_intros emits_call)
  have presents: "emits (permitted d Enrolling) (Enroll env (en_client (e\<lparr>en_spent := sp\<rparr>)) t q)" for sp t q
    using assms by (intro emits_routes) (auto simp: permitted_def enroller_like_def enroller_of_def NewEnroller_def)
  have expiry: "emits (permitted d Enrolling) (operatorCertificateExpiry env c k)" for c k
    by (auto simp: operatorCertificateExpiry_def operatorCertificate_def intro!: emits_intros emits_call)
  show ?thesis
    unfolding attempt_def attempt_token_def enroll_def
    by (intro emits_intros emits_log emits_call keep request presents expiry) simp_all
qed

lemma enroll_poll_permitted:
  "enroller_like (enroller_of env d) e \<Longrightarrow> emits (permitted d Enrolling) (enroll_poll n env e)"
proof (induction n arbitrary: e)
  case (Suc n)
  have "emits (permitted d Enrolling) (case r of (over, e') \<Rightarrow>
      if over then State_Monad.return e' else enroll_poll n env e')"
    if "run_state (attempt env e) h = (r, t)" for r h t
    using Suc attempt_like [of env e h "fst r" "snd r" t] that
    by (intro emits_intros) (auto simp: enroller_like_def)
  then show ?case
    unfolding enroll_poll.simps by (intro emits_bind_result attempt_permitted Suc.prems)
qed (simp add: emits_rules)

lemma start_enroller_permitted: "emits (permitted d Enrolling) (Enroller_Start n env (enroller_of env d))"
proof -
  let ?e = "enroller_of env d"
  have like: "enroller_like ?e ?e" by (simp add: enroller_like_def)
  have "emits (permitted d Enrolling) (case r of (over, e') \<Rightarrow> if over then State_Monad.return e' else do {
      log LogInfo ''Enrolling this operator when a token is placed'' [(''file'', LvStr (en_tokenFile e'))];
      enroll_poll n env e' })" if "run_state (attempt env ?e) h = (r, t)" for r h t
    using attempt_like [of env ?e h "fst r" "snd r" t] that
    by (intro emits_intros emits_log enroll_poll_permitted) auto
  then show ?thesis
    unfolding Enroller_Start_def by (intro emits_bind_result attempt_permitted like)
qed

text \<open>The controller.\<close>

lemma Reconcile_permitted: "emits (permitted d Reconciling) (Reconcile env r req)"
  unfolding emits_def traces_def
proof
  fix h
  show "\<exists>es. snd (run_state (Reconcile env r req) h) = h @ es \<and> every (permitted d Reconciling) es"
  proof (cases "getAgent env h req")
    case (Inl e)
    then show ?thesis by (auto simp: Reconcile_def run_simps every_def)
  next
    case (Inr held)
    let ?h = "h @ [GetAgent req (Inr held)]"
    obtain w t es where w: "run_state (reconcileWorkload env r held) ?h = (w, t)"
      and s: "snd (run_state (Reconcile env r req) h) = t @ es"
      and es: "\<forall>e\<in>set es. is_log e \<or> (\<exists>a res. w = Inr a \<and> e = MergeAgentStatus
          (a\<lparr>ag_Status := (ag_Status a)\<lparr>st_ObservedGeneration := om_Generation (ag_Meta a)\<rparr>\<rparr>) held res)"
      using Reconcile_trace [OF Inr] by blast
    obtain res ls where t: "t = ?h @ GetSecretMeta (credentials_key held) (getSecretMeta env ?h (credentials_key held))
        # (if isl (getSecretMeta env ?h (credentials_key held)) then []
           else CreateOrUpdate (key_of (ag_Meta held)) res # ls)" and ls: "\<forall>e\<in>set ls. is_log e"
      using reconcileWorkload_trace [of env r held ?h] w by auto
    have "permitted d Reconciling e" if "is_log e" for e
      using that by (cases e) simp_all
    moreover have "permitted d Reconciling (MergeAgentStatus
        (a\<lparr>ag_Status := (ag_Status a)\<lparr>st_ObservedGeneration := om_Generation (ag_Meta a)\<rparr>\<rparr>) held res)"
      if "w = Inr a" for a res
      using reconcileWorkload_conditions_only [of env r held "?h" a t] w that by (auto simp: permitted_def)
    ultimately have "every (permitted d Reconciling) es" "every (permitted d Reconciling) ls"
      using es ls by (auto simp: every_def)
    then show ?thesis using s t by (auto simp: every_def permitted_def)
  qed
qed

lemma thread_permitted: "emits (permitted d th) (thread_code env d th n reqs)"
proof (cases th)
  case Polling
  then show ?thesis
    by (auto simp: thread_code_def Poller_Start_def intro!: emits_intros emits_log poll_permitted)
next
  case Reporting
  then show ?thesis
    by (auto simp: thread_code_def Reporter_Start_def intro!: emits_intros emits_log report_permitted)
next
  case Renewing
  then show ?thesis
    by (auto simp: thread_code_def Renewer_Start_def intro!: emits_intros emits_log renew_permitted)
next
  case Enrolling
  then show ?thesis
    by (auto simp: thread_code_def discard_def intro!: emits_intros start_enroller_permitted)
next
  case Reconciling
  then show ?thesis
    by (auto simp: thread_code_def discard_def intro!: emits_intros Reconcile_permitted)
next
  case Watching
  then show ?thesis
    by (auto simp: thread_code_def discard_def SetupWithManager_def agentsNamingSecret_def
        intro!: emits_intros emits_call emits_log)
qed

lemma reachable_permitted: "reachable d g \<Longrightarrow> (th, e) \<in> set g \<Longrightarrow> permitted d th e"
  by (rule reachable_emits) (auto intro: thread_permitted)

subsection \<open>Traces of one thread in an interleaving\<close>

lemma reachable_thread:
  assumes "appended (thread_code env d th n reqs) h = t @ rest"
  shows "reachable d (map (Pair th) t)"
  using assms
proof (induction t arbitrary: rest rule: rev_induct)
  case (snoc e t)
  have "local_trace th (map (Pair th) t) = t" by (induction t) simp_all
  then have "may_show d th (local_trace th (map (Pair th) t) @ [e])"
    using snoc.prems unfolding may_show_def by fastforce
  then show ?case using snoc by (auto intro: reachable.stepped operator_step.call)
qed (simp add: reachable.started)

lemma local_trace_split:
  "local_trace th g = xs @ e # ys \<Longrightarrow>
     \<exists>us vs. g = us @ (th, e) # vs \<and> local_trace th us = xs \<and> local_trace th vs = ys"
proof (induction g arbitrary: xs)
  case (Cons a g)
  obtain t f where a: "a = (t, f)" by fastforce
  show ?case
  proof (cases "t = th \<and> xs = []")
    case True
    then show ?thesis using Cons.prems a by (intro exI [of _ "[]"] exI [of _ g]) auto
  next
    case False
    then obtain zs where zs: "local_trace th g = zs @ e # ys" "xs = (if t = th then [f] else []) @ zs"
      using Cons.prems a by (cases xs) (auto split: if_splits)
    from Cons.IH [OF zs(1)] obtain us vs where
      "g = us @ (th, e) # vs" "local_trace th us = zs" "local_trace th vs = ys" by blast
    then show ?thesis using a zs(2) by (intro exI [of _ "a # us"] exI [of _ vs]) auto
  qed
qed simp

lemma secrets_persist_local: "secrets_persist (map snd g) \<Longrightarrow> secrets_persist (local_trace th g)"
  unfolding secrets_persist_def
proof (intro allI impI)
  fix xs s r ys err
  assume persist: "\<forall>xs s r ys err. map snd g = xs @ CreateSecret s r # ys \<longrightarrow> secret_placed r
      \<longrightarrow> GetSecretMeta (key_of (sec_Meta s)) (Inl err) \<in> set ys \<longrightarrow> \<not> IsNotFound err"
    and "local_trace th g = xs @ CreateSecret s r # ys" and placed: "secret_placed r"
    and get: "GetSecretMeta (key_of (sec_Meta s)) (Inl err) \<in> set ys"
  then obtain us vs where "g = us @ (th, CreateSecret s r) # vs" and vs: "local_trace th vs = ys"
    by (auto dest: local_trace_split)
  then have "map snd g = map snd us @ CreateSecret s r # map snd vs" by simp
  moreover have "GetSecretMeta (key_of (sec_Meta s)) (Inl err) \<in> set (map snd vs)"
    using get vs by (auto simp: local_trace_def)
  ultimately show "\<not> IsNotFound err" using persist placed by blast
qed

lemma cert_guarded_prefix: "cert_guarded c absent (t @ rest) \<Longrightarrow> cert_guarded c absent t"
  unfolding cert_guarded_def by fastforce

lemma reachable_guarded:
  assumes "reachable d g"
  shows "cert_guarded (dp_client d) (secret_absent (dp_builder d)) (local_trace Polling g)"
proof -
  from reachable_local [OF assms, of Polling] obtain env n h rest where
    t: "appended (Poller_Start n env (poller_of env d)) h = local_trace Polling g @ rest"
    unfolding may_show_def by (auto simp: thread_code_def)
  have "cert_guarded (dp_client d) (secret_absent (dp_builder d)) (appended (Poller_Start n env (poller_of env d)) h)"
    using appended_traces [OF built.start_guarded [of "poller_of env d" env "dp_builder d" n env], of h]
    by (simp add: poller_of_def NewPoller_def)
  then show ?thesis
    using t by (auto dest: cert_guarded_prefix)
qed

lemma asks_certificate_polls:
  "permitted d th e \<Longrightarrow> asks_certificate (dp_client d) g e \<Longrightarrow> th = Polling"
  by (cases th) (auto simp: permitted_def asks_certificate_def request_for_def certificate_path_def provisioning_path_def)

text \<open>Only the enroller's requests carry a token.\<close>

lemma permitted_token: "permitted d th e \<Longrightarrow> th \<noteq> Enrolling \<Longrightarrow> event_token e = None"
  by (cases e; cases th)
    (auto simp: permitted_def event_token.simps(1) request_for_def provisioningStateReport_def json_member_def)

lemma tokens_local:
  "\<forall>(th, e)\<in>set g. permitted d th e \<Longrightarrow> tokens (map snd g) = tokens (local_trace Enrolling g)"
  by (induction g) (auto dest: permitted_token split: option.splits)

lemma reachable_tokens:
  assumes "reachable d g"
  shows "distinct (map tokenDigest (tokens (map snd g)))"
proof -
  from reachable_local [OF assms, of Enrolling] obtain env n h rest where
    t: "appended (discard (Enroller_Start n env (enroller_of env d))) h = local_trace Enrolling g @ rest"
    unfolding may_show_def by (auto simp: thread_code_def)
  have "appended (discard (Enroller_Start n env (enroller_of env d))) h = appended (Enroller_Start n env (enroller_of env d)) h"
    by (simp add: appended_def discard_def run_simps split: prod.splits)
  then have "distinct (map tokenDigest (tokens (local_trace Enrolling g @ rest)))"
    using secret_store.start_fresh [of "enroller_of env d" env "dp_store d" env n h] t
    by (simp add: fresh_tokens_def enroller_of_def NewEnroller_def)
  moreover have "tokens (map snd g) = tokens (local_trace Enrolling g)"
    using reachable_permitted [OF assms] by (intro tokens_local) auto
  ultimately show ?thesis by auto
qed

subsection \<open>A concrete deployment\<close>

definition demo_deployment :: deployment where
  "demo_deployment =
     \<lparr>dp_client = demo_client, dp_enrollmentClient = demo_client, dp_builder = demo_constructor,
      dp_reconciler = \<lparr>rc_CopyImage = ''copy'', rc_ToolsImage = [], rc_WorkspaceImage = []\<rparr>,
      dp_store = NewSecret (''ns'', ''garam'') ''tls.crt'' ''tls.key'',
      dp_flags = default_flags\<lparr>fl_garamPollInterval := 5\<rparr>\<rparr>"

definition demo_renewing_env :: env where
  "demo_renewing_env = refusing_env\<lparr>httpDo := answering 200 (Document demo_renewal), patchSecret := (\<lambda>h k p. Inr ())\<rparr>"

definition demo_renewed_credential :: Credential where
  "demo_renewed_credential = \<lparr>cr_CertificatePEM = ''C'', cr_KeyPEM = ''K''\<rparr>"

definition demo_patch :: event where
  "demo_patch = PatchSecret (css_secret (dp_store demo_deployment))
     (credential_patch (dp_store demo_deployment) demo_renewed_credential) (Inr ())"

lemma demo_renewal_reachable:
  "\<exists>a b. reachable demo_deployment (map (Pair Renewing) [a, b, demo_patch])"
proof -
  have "\<exists>a b c. appended (thread_code demo_renewing_env demo_deployment Renewing 1 []) [] = [a, b, demo_patch] @ [c]"
    by (simp add: appended_def thread_code_def Renewer_Start_def renewer_of_def renew_def NewRenewer_def
        Secret_ReplaceCredential_def RenewIdentity_def demo_renewing_env_def demo_answers into_def
        demo_renewal_decodes payload_credential_def demo_patch_def demo_renewed_credential_def demo_deployment_def)
  then show ?thesis using reachable_thread by metis
qed

lemma demo_polling_reachable:
  "\<exists>xs ys. reachable demo_deployment
       (map (Pair Polling) (xs @ CreateSecret demo_secret (Inr ()) # ys)) \<and> demo_get \<in> set ys
     \<and> (\<forall>e\<in>set xs. \<not> creates_secret e) \<and> (\<forall>k err. GetSecretMeta k (Inl err) \<notin> set ys)"
proof -
  have "poller_of demo_keeping_env demo_deployment = demo_keeping_poller"
    by (simp add: poller_of_def demo_deployment_def demo_keeping_poller_def)
  then have code: "thread_code demo_keeping_env demo_deployment Polling 2 [] = Poller_Start 2 demo_keeping_env demo_keeping_poller"
    by (simp add: thread_code_def)
  obtain xs ys where run: "appended (Poller_Start 2 demo_keeping_env demo_keeping_poller) [] =
      xs @ CreateSecret demo_secret (Inr ()) # ys"
    and "demo_get \<in> set ys \<and> (\<forall>e\<in>set xs. \<not> creates_secret e) \<and> (\<forall>k err. GetSecretMeta k (Inl err) \<notin> set ys)"
    using demo_two_passes by blast
  moreover have "reachable demo_deployment
      (map (Pair Polling) (xs @ CreateSecret demo_secret (Inr ()) # ys))"
    by (rule reachable_thread [of demo_keeping_env _ _ 2 "[]" "[]" _ "[]"]) (simp only: code run append_Nil2)
  ultimately show ?thesis by blast
qed

subsection \<open>Properties\<close>

text \<open>C5: Under every schedule each object has one writer. Only the poller creates Agents, corrects their
  images and creates the Secrets of agents' credentials; only the reconciler creates or updates
  workloads; the operator's own Secret is patched by the renewer and the enroller alone, always with a
  whole credential; and of the two writers of an Agent's status the poller patches the GRN and the epoch
  and the reconciler never changes either.\<close>

theorem operator_single_writers:
  assumes "reachable d g" and "(th, e) \<in> set g"
  shows "case e of
      CreateAgent a r \<Rightarrow> th = Polling \<and> om_Namespace (ag_Meta a) = ctor_namespace (dp_builder d)
    | PatchAgent k p r \<Rightarrow> th = Polling \<and> p = image_patch (ctor_image (dp_builder d))
    | CreateSecret s r \<Rightarrow> th = Polling
    | CreateOrUpdate k r \<Rightarrow> th = Reconciling
    | PatchSecret k p r \<Rightarrow> th \<in> {Renewing, Enrolling} \<and> k = css_secret (dp_store d)
        \<and> (\<exists>cr. p = credential_patch (dp_store d) cr)
    | PatchAgentStatus k p r \<Rightarrow> th = Polling \<and> (\<exists>g epoch. p = status_patch g epoch)
    | MergeAgentStatus a b r \<Rightarrow> th = Reconciling \<and> ag_Spec a = ag_Spec b
        \<and> st_Agent (ag_Status a) = st_Agent (ag_Status b) \<and> st_Epoch (ag_Status a) = st_Epoch (ag_Status b)
    | _ \<Rightarrow> True"
  using reachable_permitted [OF assms] by (cases e) (simp_all add: permitted_def)

theorem operator_single_writers_witness:
  "\<exists>g. reachable demo_deployment g \<and> (Renewing, demo_patch) \<in> set g
     \<and> (case demo_patch of
          PatchSecret k p r \<Rightarrow> k = (''ns'', ''garam'') \<and> (\<exists>cr. p = credential_patch (dp_store demo_deployment) cr)
        | _ \<Rightarrow> False)"
proof -
  obtain a b where r: "reachable demo_deployment (map (Pair Renewing) [a, b, demo_patch])"
    using demo_renewal_reachable by blast
  have e: "(Renewing, demo_patch) \<in> set (map (Pair Renewing) [a, b, demo_patch])" by simp
  have "css_secret (dp_store demo_deployment) = (''ns'', ''garam'')" by (simp add: demo_deployment_def NewSecret_def)
  with operator_single_writers [OF r e]
  have "case demo_patch of
      PatchSecret k p r \<Rightarrow> k = (''ns'', ''garam'') \<and> (\<exists>cr. p = credential_patch (dp_store demo_deployment) cr)
    | _ \<Rightarrow> False" by (simp add: demo_patch_def)
  with r e show ?thesis by blast
qed

text \<open>C1: Under every schedule an agent is certified once: once its credential's Secret is placed, and as long
  as nobody deletes it, no goroutine asks garam for another certificate for that agent, whatever the
  others do in between.\<close>

theorem operator_certifies_once:
  assumes "reachable d (xs @ (th, CreateSecret s r) # ys)"
    and "secrets_persist (map snd (xs @ (th, CreateSecret s r) # ys))"
    and "secret_placed r" and "key_of (sec_Meta s) = credentialsKey (dp_builder d) g"
    and "(th', e) \<in> set ys"
  shows "\<not> asks_certificate (dp_client d) g e"
proof
  let ?g = "xs @ (th, CreateSecret s r) # ys"
  assume asks: "asks_certificate (dp_client d) g e"
  have "th = Polling"
    using reachable_permitted [OF assms(1), of th "CreateSecret s r"] by (simp add: permitted_def)
  moreover have "th' = Polling"
    using reachable_permitted [OF assms(1), of th' e] assms(5) asks_certificate_polls [OF _ asks] by auto
  ultimately have l: "local_trace Polling ?g = local_trace Polling xs @ CreateSecret s r # local_trace Polling ys"
    and e: "e \<in> set (local_trace Polling ys)"
    using assms(5) by (simp_all add: set_local_trace)
  show False
    using persisting_secret_not_asked [OF _ _ assms(3,4) e] asks l
      reachable_guarded [OF assms(1)] secrets_persist_local [OF assms(2), of Polling] by simp
qed

theorem operator_certifies_once_witness:
  "\<exists>xs ys. reachable demo_deployment (map (Pair Polling) (xs @ CreateSecret demo_secret (Inr ()) # ys))
     \<and> demo_get \<in> set ys \<and> \<not> asks_certificate demo_client ''grn:a'' demo_get"
proof -
  obtain xs ys where run: "reachable demo_deployment
       (map (Pair Polling) (xs @ CreateSecret demo_secret (Inr ()) # ys))" and get: "demo_get \<in> set ys"
    and quiet: "\<forall>e\<in>set xs. \<not> creates_secret e" "\<forall>k err. GetSecretMeta k (Inl err) \<notin> set ys"
    using demo_polling_reachable by blast
  have key: "key_of (sec_Meta demo_secret) = credentialsKey (dp_builder demo_deployment) ''grn:a''"
    by (simp add: demo_secret_def key_of_def object_meta_def credentialsKey_def demo_constructor_def NewAgent_def
        demo_deployment_def)
  have "\<not> asks_certificate (dp_client demo_deployment) ''grn:a'' demo_get"
    by (rule operator_certifies_once [OF _ _ _ key, of "map (Pair Polling) xs" Polling "Inr ()" "map (Pair Polling) ys" Polling])
      (use run get secrets_persistI [OF quiet] in \<open>simp_all add: secret_placed_def comp_def\<close>)
  then have "\<not> asks_certificate demo_client ''grn:a'' demo_get" by (simp add: demo_deployment_def)
  with run get show ?thesis by blast
qed

text \<open>C3: Under every schedule each token is presented once: the tokens in all the requests of the whole
  process are different, and so are their digests.\<close>

theorem operator_presents_tokens_once:
  assumes "reachable d g"
  shows "distinct (tokens (map snd g)) \<and> distinct (map tokenDigest (tokens (map snd g)))"
  using reachable_tokens [OF assms] by (auto simp: distinct_map)

lemma demo_token: "trim_space ''tok'' = ''tok''"
  by code_simp

lemma demo_enrolling_reachable:
  "\<exists>g. reachable demo_deployment g \<and> tokens (map snd g) = [''tok'']"
proof -
  let ?t = "appended (thread_code demo_enrolling_env demo_deployment Enrolling 0 []) []"
  have "tokens ?t = [''tok'']"
    by (simp add: appended_def thread_code_def discard_def Enroller_Start_def enroller_of_def demo_deployment_def
        attempt_def attempt_token_def operatorCertificateExpiry_def operatorCertificate_def demo_token tokenDigest_def
        enroll_def NewEnroller_def demo_enrolling_env_def NewCertificateRequest_def
        Enroll_def checkSignature_def demo_answers into_def demo_enrolled_decodes payload_enrolledCertificate_def
        keep_enrolled_def reportServerRoot_def certificateFingerprints_def Secret_ReplaceCredential_def)
  moreover have "reachable demo_deployment (map (Pair Enrolling) ?t)"
    by (rule reachable_thread [of demo_enrolling_env _ _ 0 "[]" "[]" _ "[]"]) simp
  moreover have "map snd (map (Pair Enrolling) ?t) = ?t" by (simp add: comp_def)
  ultimately show ?thesis by (metis (no_types, lifting))
qed

theorem operator_presents_tokens_once_witness:
  "\<exists>g. reachable demo_deployment g \<and> tokens (map snd g) = [''tok''] \<and> distinct (map tokenDigest (tokens (map snd g)))"
  using demo_enrolling_reachable operator_presents_tokens_once by blast

text \<open>What the patches of the operator's own Secret leave in it, whichever of them are applied.\<close>

lemma apply_credential_patches:
  assumes "css_certificateKey s \<noteq> css_keyKey s"
    and "\<forall>k p r. PatchSecret k p r \<in> set ps \<longrightarrow> k = css_secret s \<and> (\<exists>cr. p = credential_patch s cr)"
  shows "apply_patches (css_secret s) m ps = m
    \<or> (\<exists>cr r. PatchSecret (css_secret s) (credential_patch s cr) r \<in> set ps
        \<and> apply_patches (css_secret s) m ps =
            m(css_certificateKey s \<mapsto> cr_CertificatePEM cr, css_keyKey s \<mapsto> cr_KeyPEM cr))"
  using assms(2)
proof (induction ps rule: rev_induct)
  case (snoc e ps)
  have "\<forall>k p r. PatchSecret k p r \<in> set ps \<longrightarrow> k = css_secret s \<and> (\<exists>cr. p = credential_patch s cr)"
    using snoc.prems by (simp only: set_append Un_iff) blast
  note ih = snoc.IH [OF this]
  show ?case
  proof (cases "\<exists>k p r. e = PatchSecret k p r")
    case True
    then obtain k p r where "e = PatchSecret k p r" by blast
    moreover from this have "PatchSecret k p r \<in> set (ps @ [e])" by simp
    ultimately obtain cr where e: "e = PatchSecret (css_secret s) (credential_patch s cr) r"
      using snoc.prems by blast
    have "apply_patch (css_secret s) m' e =
        m'(css_certificateKey s \<mapsto> cr_CertificatePEM cr, css_keyKey s \<mapsto> cr_KeyPEM cr)" for m'
      by (simp add: e apply_patch_def patched_entry_credential [OF assms(1)])
    moreover have "apply_patches (css_secret s) m ps = m \<or> (\<exists>cr :: Credential. apply_patches (css_secret s) m ps =
        m(css_certificateKey s \<mapsto> cr_CertificatePEM cr, css_keyKey s \<mapsto> cr_KeyPEM cr))"
      using ih by blast
    ultimately have "apply_patches (css_secret s) m (ps @ [e]) =
        m(css_certificateKey s \<mapsto> cr_CertificatePEM cr, css_keyKey s \<mapsto> cr_KeyPEM cr)"
      using assms(1) by (auto simp: fun_upd_twist)
    moreover have "PatchSecret (css_secret s) (credential_patch s cr) r \<in> set (ps @ [e])" using e by simp
    ultimately show ?thesis by blast
  next
    case False
    then have "apply_patch (css_secret s) m' e = m'" for m' by (cases e) (simp_all add: apply_patch_def)
    then show ?thesis using ih by auto
  qed
qed simp



text \<open>What startup adds to the manager are the runnables of one deployment.\<close>

lemma startup_runs_deployment:
  assumes "run_state (startup env mgr getenv pq fl) h = (Inr l, t)"
  shows "\<exists>d. dp_flags d = fl \<and> dp_reconciler d = la_Reconciler l
    \<and> la_Poller l \<in> {None, Some (poller_of env d)} \<and> la_Reporter l \<in> {None, Some (reporter_of env d)}
    \<and> la_Renewer l \<in> {None, Some (renewer_of env d)} \<and> la_Enroller l \<in> {None, Some (enroller_of env d)}
    \<and> dp_store d = operator_store fl (getenv ''POD_NAMESPACE'')
    \<and> (la_Poller l \<noteq> None \<longrightarrow> ctor_namespace (dp_builder d) = getenv ''POD_NAMESPACE''
         \<and> ctor_image (dp_builder d) = fl_agentImage fl)"
proof (cases "fl_garamAddress fl = []")
  case True
  then show ?thesis
    using startup_runs [OF assms]
    by (intro exI [of _ "demo_deployment\<lparr>dp_flags := fl, dp_reconciler := la_Reconciler l,
          dp_store := operator_store fl (getenv ''POD_NAMESPACE'')\<rparr>"]) simp
next
  case False
  then obtain h' t' where g: "run_state (garam_setup env mgr getenv pq fl (reconciler_of fl)) h' = (Inr l, t')"
    using startup_runs [OF assms] by auto
  from garam_setup_runs [OF g] obtain cfg u ns size where ns: "ns = getenv ''POD_NAMESPACE''"
    and runs: "la_Poller l = Some (NewPoller (NewClient (fl_garamAddress fl) cfg)
        (agent_constructor env (NewAgent ns (fl_agentImage fl) size)) (fl_garamPollInterval fl))"
      "la_Reporter l = Some (NewReporter (NewClient (fl_garamAddress fl) cfg)
        (Observations env (NewAgent ns (fl_agentImage fl) size)) (fl_garamReportInterval fl))"
    and c: "run_state (credential_setup env mgr fl ns (NewClient (fl_garamAddress fl) cfg)) u
        = (Inr (la_Renewer l, la_Enroller l), t')"
    unfolding podNamespaceVariable_def by auto
  from credential_setup_runs [OF c] obtain ecfg where rn: "la_Renewer l \<in> {None,
        Some (NewRenewer (NewClient (fl_garamAddress fl) cfg) (Secret_ReplaceCredential env (operator_store fl ns))
          (fl_garamRenewalInterval fl))}"
    and en: "la_Enroller l \<in> {None, Some (NewEnroller (NewClient (fl_garamAddress fl) ecfg)
          (Secret_ReplaceCredential env (operator_store fl ns)) (fl_garamEnrollmentTokenFile fl)
          (fl_garamCertificateFile fl) (fl_garamKeyFile fl) (fl_garamTrustFile fl))}"
    by (auto split: if_splits)
  let ?d = "\<lparr>dp_client = NewClient (fl_garamAddress fl) cfg, dp_enrollmentClient = NewClient (fl_garamAddress fl) ecfg,
      dp_builder = NewAgent ns (fl_agentImage fl) size, dp_reconciler = la_Reconciler l,
      dp_store = operator_store fl ns, dp_flags = fl\<rparr>"
  show ?thesis
    by (intro exI [of _ ?d]) (use ns runs rn en in \<open>simp add: runnable_defs NewAgent_def\<close>)
qed

end
