(* ===== verification/Epochs.thy ===== *)
theory Epochs
  imports Operator
begin

text \<open>
  Where an epoch comes from. An agent's assignment epoch is stated by garam, recorded on the Agent's status by the
  poller once the certificate route answered for the agent (\<^verbatim>\<open>poller.go\<close>, \<^verbatim>\<open>constructor/agent.go\<close>), listed by
  the reporter (\<^verbatim>\<open>observation.go\<close>) and sent with every report (\<^verbatim>\<open>reporter.go\<close>). The comments say that
  nowhere else is it written and that it is never refreshed; here that is proved of every interleaving of
  the goroutines. \<open>caused R A es\<close> says of a trace that every event of it has what \<open>R\<close> asks among the events
  before it, those of the set \<open>A\<close> included; the locale \<open>causal\<close> gives its rules, which follow an operation's
  structure and carry what a call was answered into the code behind it.
\<close>

definition caused :: "(event set \<Rightarrow> event \<Rightarrow> bool) \<Rightarrow> event set \<Rightarrow> history \<Rightarrow> bool" where
  "caused R A es \<longleftrightarrow> (\<forall>xs e ys. es = xs @ e # ys \<longrightarrow> R (A \<union> set xs) e)"

lemma causedD: "caused R A (xs @ e # ys) \<Longrightarrow> R (A \<union> set xs) e"
  by (simp add: caused_def)

lemma caused_prefix: "caused R A (es @ fs) \<Longrightarrow> caused R A es"
  by (auto simp: caused_def)

locale causal =
  fixes R :: "event set \<Rightarrow> event \<Rightarrow> bool"
  assumes mono: "R S e \<Longrightarrow> S \<subseteq> T \<Longrightarrow> R T e"
begin

lemma caused_append:
  assumes "caused R A es" and "caused R (A \<union> set es) fs"
  shows "caused R A (es @ fs)"
  unfolding caused_def
proof (intro allI impI)
  fix xs e ys
  assume "es @ fs = xs @ e # ys"
  then consider zs where "es = xs @ e # zs" | zs where "fs = zs @ e # ys" and "xs = es @ zs"
    by (auto simp: append_eq_append_conv2 append_eq_Cons_conv Cons_eq_append_conv)
  then show "R (A \<union> set xs) e"
    using assms by cases (auto dest!: causedD simp: Un_assoc)
qed

lemma caused_more: "caused R A es \<Longrightarrow> A \<subseteq> B \<Longrightarrow> caused R B es"
  unfolding caused_def using mono by (metis Un_mono order_refl)

lemma caused_composes: "trace_property (caused R A)"
  by unfold_locales (auto simp: caused_def [of R A "[]"] intro!: caused_append elim: caused_more)

lemmas caused_rules = trace_property.traces_rules [OF caused_composes]

text \<open>What was answered is among the causes of what follows.\<close>

lemma caused_bind:
  assumes "traces (caused R A) m"
    and "\<And>h a es. run_state m h = (a, h @ es) \<Longrightarrow> traces (caused R (A \<union> set es)) (f a)"
  shows "traces (caused R A) (State_Monad.bind m f)"
  unfolding traces_def
proof
  fix h
  obtain a t where m: "run_state m h = (a, t)" by fastforce
  obtain es where es: "t = h @ es" "caused R A es" using assms(1) m by (rule tracesE)
  with assms(2) m have "traces (caused R (A \<union> set es)) (f a)" by blast
  then obtain fs where "snd (run_state (f a) t) = t @ fs" "caused R (A \<union> set es) fs" unfolding traces_def by blast
  with es m show "\<exists>es. snd (run_state (State_Monad.bind m f) h) = h @ es \<and> caused R A es"
    by (intro exI [of _ "es @ fs"]) (simp add: run_simps caused_append)
qed

lemma caused_emits:
  assumes "emits P m" and "\<And>e. P e \<Longrightarrow> R A e"
  shows "traces (caused R A) m"
proof -
  have "caused R A es" if "every P es" for es
    unfolding caused_def
  proof (intro allI impI)
    fix xs e ys
    assume "es = xs @ e # ys"
    with that have "P e" by (simp add: every_def)
    from mono [OF assms(2) [OF this]] show "R (A \<union> set xs) e" by simp
  qed
  with assms(1) show ?thesis unfolding emits_def by (rule traces_mono)
qed

end

text \<open>In an interleaving, the causes of a thread's event are earlier events of that thread.\<close>

lemma reachable_caused:
  assumes "reachable d g" and "g = us @ (th, e) # vs"
    and "\<And>env n reqs. traces (caused R {}) (thread_code env d th n reqs)"
  shows "R (set (local_trace th us)) e"
proof -
  from reachable_local [OF assms(1), of th] obtain env n reqs h rest where
    "appended (thread_code env d th n reqs) h = local_trace th g @ rest" unfolding may_show_def by blast
  with appended_traces [OF assms(3), of env n reqs h] have "caused R {} (local_trace th us @ e # (local_trace th vs @ rest))"
    using assms(2) by simp
  then show ?thesis by (auto dest: causedD)
qed

lemma local_trace_subset: "set (local_trace th us) \<subseteq> set (map snd us)"
  by (auto simp: local_trace_def)

subsection \<open>What garam stated and proved\<close>

definition answered_definitions :: "error + http_response \<Rightarrow> error + Definition list" where
  "answered_definitions r =
     (case read_response (into (dec_slice (dec_struct dec_definition_fields))) r of
        Inl e \<Rightarrow> Inl e | Inr ps \<Rightarrow> definitions_of ps)"

definition answered_assignment :: "error + http_response \<Rightarrow> error + Assignment" where
  "answered_assignment r =
     (case read_response (into (dec_struct dec_assignment_fields)) r of Inl e \<Rightarrow> Inl e | Inr p \<Rightarrow> payload_assignment p)"

text \<open>garam stated that it holds the agent at an epoch: in the definitions it answered, or by answering the claim.\<close>

definition epoch_stated :: "Client \<Rightarrow> GRN \<Rightarrow> int \<Rightarrow> event \<Rightarrow> bool" where
  "epoch_stated c g epoch e \<longleftrightarrow>
     (\<exists>r ds d. e = Http (request_for c ''GET'' ''/definitions'' None) r \<and> answered_definitions r = Inr ds \<and> d \<in> set ds
        \<and> def_Agent d = g \<and> def_Claim d = Some \<lparr>claim_Epoch = epoch\<rparr>)
     \<or> (\<exists>r asg. e = Http (request_for c ''POST'' (claim_path g) None) r \<and> answered_assignment r = Inr asg
        \<and> asg_Epoch asg = epoch)"

text \<open>garam answered the agent's certificate route and did not refuse.\<close>

definition certificate_answered :: "Client \<Rightarrow> GRN \<Rightarrow> event \<Rightarrow> bool" where
  "certificate_answered c g e \<longleftrightarrow>
     (\<exists>resp. e = Http (request_for c ''POST'' (certificate_path g) None) (Inr resp) \<and> resp_Status resp < 400)"

definition epoch_proved :: "Client \<Rightarrow> GRN \<Rightarrow> int \<Rightarrow> event set \<Rightarrow> bool" where
  "epoch_proved c g epoch S \<longleftrightarrow> (\<exists>e\<in>S. epoch_stated c g epoch e) \<and> (\<exists>e\<in>S. certificate_answered c g e)"

lemma epoch_proved_mono: "epoch_proved c g epoch S \<Longrightarrow> S \<subseteq> T \<Longrightarrow> epoch_proved c g epoch T"
  by (auto simp: epoch_proved_def)

definition records_proved :: "Client \<Rightarrow> event set \<Rightarrow> event \<Rightarrow> bool" where
  "records_proved c S e \<longleftrightarrow>
     (\<forall>k g epoch r. e = PatchAgentStatus k (status_patch g epoch) r \<longrightarrow> epoch_proved c g epoch S)"

interpretation recording: causal "records_proved c" for c
  by unfold_locales (unfold records_proved_def, blast intro: epoch_proved_mono)

subsection \<open>The poller records only what was proved\<close>

lemma status_patch_inj: "status_patch g epoch = status_patch g' epoch' \<longleftrightarrow> g = g' \<and> epoch = epoch'"
  by (simp add: status_patch_def)

definition no_record :: "event \<Rightarrow> bool" where
  "no_record e \<longleftrightarrow> (\<forall>k p r. e \<noteq> PatchAgentStatus k p r)"

lemma no_record_caused: "emits no_record m \<Longrightarrow> traces (caused (records_proved c) A) m"
  by (erule recording.caused_emits) (auto simp: records_proved_def no_record_def)

lemma no_record_log: "traces (caused (records_proved c) A) (log l msg kvs)"
  by (rule no_record_caused) (simp add: emits_log no_record_def)

lemma no_record_routes:
  "traces (caused (records_proved c) A) (ListDefinitions env c')"
  "traces (caused (records_proved c) A) (ClaimDefinition env c' g)"
  "traces (caused (records_proved c) A) (IssueAgentCertificate env c' g)"
  by (intro no_record_caused emits_routes; simp add: no_record_def)+

lemma no_record_constructor:
  "emits no_record (Agent_HasCredential env a g)" "emits no_record (Agent_CorrectImage env a g)"
  by (auto simp: Agent_HasCredential_def Agent_CorrectImage_def no_record_def intro!: emits_intros emits_call)

lemma construct_records:
  "emits (\<lambda>e. no_record e \<or> (\<exists>k r. e = PatchAgentStatus k (status_patch (def_Agent d) epoch) r))
     (Agent_Construct env a d epoch credential)"
  by (auto simp: Agent_Construct_def ensureAgent_def createOrGetAgent_def placeCredential_def no_record_def
      intro!: emits_intros emits_call)

lemma constructor_operations:
  "HasCredential (agent_constructor env a) = Agent_HasCredential env a"
  "Construct (agent_constructor env a) = Agent_Construct env a"
  "CorrectImage (agent_constructor env a) = Agent_CorrectImage env a"
  by (simp_all add: agent_constructor_def)

lemma place_records:
  assumes "epoch_proved c (def_Agent d) epoch A" and "po_constructor p = agent_constructor env a"
  shows "traces (caused (records_proved c) A) (poller_place p d epoch (Inr credential))"
proof -
  have "traces (caused (records_proved c) A) (Agent_Construct env a d epoch credential)"
    by (rule recording.caused_emits [OF construct_records])
      (use assms(1) in \<open>auto simp: records_proved_def no_record_def status_patch_inj\<close>)
  then show ?thesis
    unfolding poller_place_def assms(2) constructor_operations sum.case
    by (intro recording.caused_rules no_record_log; simp)
qed

lemma issue_answered:
  assumes "run_state (IssueAgentCertificate env c g) h = (Inr credential, h @ es)"
  shows "\<exists>e\<in>set es. certificate_answered c g e"
  using assms
  by (auto simp: IssueAgentCertificate_def run_simps run_send Let_def certificate_answered_def read_response_def
      split: prod.splits option.splits sum.splits if_splits)

lemma construct_proved:
  assumes "\<exists>e\<in>A. epoch_stated (po_client p) (def_Agent d) epoch e" and "po_constructor p = agent_constructor env a"
  shows "traces (caused (records_proved (po_client p)) A) (poller_construct env p d epoch)"
proof -
  let ?c = "po_client p"
  have place: "traces (caused (records_proved ?c) (B \<union> set es)) (poller_place p d epoch issued)"
    if "run_state (IssueAgentCertificate env ?c (def_Agent d)) h = (issued, h @ es)" "A \<subseteq> B" for issued h es B
  proof (cases issued)
    case (Inl e)
    then show ?thesis unfolding poller_place_def by (auto intro!: recording.caused_rules no_record_log)
  next
    case (Inr credential)
    with that issue_answered [of env ?c "def_Agent d" h credential es] assms(1)
    have "epoch_proved ?c (def_Agent d) epoch (B \<union> set es)" by (auto simp: epoch_proved_def)
    with Inr show ?thesis using place_records assms(2) by simp
  qed
  have issue: "traces (caused (records_proved ?c) B) (do {
      issued \<leftarrow> IssueAgentCertificate env ?c (def_Agent d); poller_place p d epoch issued })" if "A \<subseteq> B" for B
    by (rule recording.caused_bind [OF no_record_routes(3)]) (rule place [OF _ that])
  show ?thesis
    unfolding poller_construct_def assms(2) constructor_operations
    by (rule recording.caused_bind [OF no_record_caused [OF no_record_constructor(1)]])
      (auto intro!: recording.caused_rules no_record_log issue split: sum.split)
qed

lemma claim_states:
  assumes "run_state (poller_claim env p g) h = (Some asg, h @ es)"
  shows "\<exists>e\<in>set es. epoch_stated (po_client p) g (asg_Epoch asg) e"
proof -
  obtain r t where claim: "run_state (ClaimDefinition env (po_client p) g) h = (r, t)" by fastforce
  with assms have r: "r = Inr asg"
    by (auto simp: poller_claim_def run_simps split: sum.splits if_splits)
  obtain q where q: "t = h @ [Http (request_for (po_client p) ''POST'' (claim_path g) None) q]" "answered_assignment q = Inr asg"
    using claim r
    by (auto simp: ClaimDefinition_def run_simps run_send Let_def answered_assignment_def
        split: prod.splits option.splits sum.splits if_splits)
  have "h @ es = t @ [Log LogInfo ''Claimed a definition''
      [(''agent'', LvStr (asg_Agent asg)), (''epoch'', LvInt (asg_Epoch asg))]]"
    using assms claim r by (auto simp: poller_claim_def run_simps)
  with q show ?thesis by (auto simp: epoch_stated_def)
qed

lemma poll_definition_proved:
  assumes stated: "\<And>cl. def_Claim d = Some cl \<Longrightarrow> \<exists>e\<in>A. epoch_stated (po_client p) (def_Agent d) (claim_Epoch cl) e"
    and p: "po_constructor p = agent_constructor env a"
  shows "traces (caused (records_proved (po_client p)) A) (poll_definition env p d)"
proof -
  let ?c = "po_client p" and ?g = "def_Agent d"
  let ?claim = "case def_Claim d of Some c \<Rightarrow> State_Monad.return (Some c)
     | None \<Rightarrow> do { assignment \<leftarrow> poller_claim env p ?g;
         State_Monad.return (map_option (\<lambda>a. \<lparr>claim_Epoch = asg_Epoch a\<rparr>) assignment) }"
  have claim: "traces (caused (records_proved ?c) A) ?claim"
    unfolding poller_claim_def by (intro recording.caused_rules no_record_log no_record_routes; simp)
  have known: "\<exists>e\<in>A \<union> set es. epoch_stated ?c ?g (claim_Epoch cl) e"
    if "run_state ?claim h = (Some cl, h @ es)" for h es cl
  proof (cases "def_Claim d")
    case (Some cl')
    then show ?thesis using that stated by (auto simp: run_simps)
  next
    case None
    with that obtain asg where "run_state (poller_claim env p ?g) h = (Some asg, h @ es)" "claim_Epoch cl = asg_Epoch asg"
      by (auto simp: run_simps split: prod.splits)
    with claim_states show ?thesis by fastforce
  qed
  have correct: "traces (caused (records_proved ?c) B) (poller_correct p ?g)" for B
    unfolding poller_correct_def p constructor_operations
    by (intro recording.caused_rules no_record_log no_record_caused [OF no_record_constructor(2)]; simp)
  have body: "traces (caused (records_proved ?c) B) (do {
      (if def_Ignored d \<noteq> [] then log LogDebug msg kvs else State_Monad.return ());
      poller_correct p ?g;
      poller_construct env p d (claim_Epoch cl) })"
    if "\<exists>e\<in>B. epoch_stated ?c ?g (claim_Epoch cl) e" for B cl msg kvs
    by (intro recording.caused_rules no_record_log correct construct_proved [OF that p]; simp)
  show ?thesis
    unfolding poll_definition_def
  proof (rule recording.caused_bind [OF claim])
    fix h r es
    assume run: "run_state ?claim h = (r, h @ es)"
    show "traces (caused (records_proved ?c) (A \<union> set es)) (case r of None \<Rightarrow> State_Monad.return ()
       | Some cl \<Rightarrow> do {
          (if def_Ignored d \<noteq> []
           then log LogDebug ''Ignored the values of a definition this operator holds no contract for''
                  [(''agent'', LvStr ?g), (''keys'', LvStrs (def_Ignored d))]
           else State_Monad.return ());
          poller_correct p ?g;
          poller_construct env p d (claim_Epoch cl) })"
    proof (cases r)
      case None
      then show ?thesis by (simp add: recording.caused_rules)
    next
      case (Some cl)
      then show ?thesis unfolding Some option.case by (intro body known [OF run [unfolded Some]])
    qed
  qed
qed

lemma list_states:
  assumes "run_state (ListDefinitions env c) h = (Inr ds, h @ es)" and "d \<in> set ds" and "def_Claim d = Some cl"
  shows "\<exists>e\<in>set es. epoch_stated c (def_Agent d) (claim_Epoch cl) e"
proof -
  obtain r where "h @ es = h @ [Http (request_for c ''GET'' ''/definitions'' None) r]" "answered_definitions r = Inr ds"
    using assms(1)
    by (auto simp: ListDefinitions_def run_simps run_send Let_def answered_definitions_def
        split: prod.splits option.splits sum.splits)
  moreover have "cl = \<lparr>claim_Epoch = claim_Epoch cl\<rparr>" by simp
  ultimately show ?thesis using assms(2,3) by (auto simp: epoch_stated_def)
qed

lemma poll_proved:
  assumes "po_constructor p = agent_constructor env a"
  shows "traces (caused (records_proved (po_client p)) {}) (poll env p)"
  unfolding poll_def
proof (rule recording.caused_bind [OF no_record_routes(1)])
  fix h r es
  assume run: "run_state (ListDefinitions env (po_client p)) h = (r, h @ es)"
  have each: "traces (caused (records_proved (po_client p)) (set es)) (poll_definition env p d)" if "r = Inr ds" "d \<in> set ds" for ds d
    using list_states [of env "po_client p" h ds es d] run that by (intro poll_definition_proved [OF _ assms]) auto
  show "traces (caused (records_proved (po_client p)) ({} \<union> set es)) (case r of
        Inl e \<Rightarrow> log LogError ''Failed to read the definitions garam holds for this operator'' [(''error'', LvErr e)]
      | Inr definitions \<Rightarrow> do {
          log LogDebug ''Read the definitions garam holds for this operator'' [(''count'', LvInt (int (length definitions)))];
          for_each definitions (poll_definition env p)
        })"
    unfolding Un_empty_left by (intro recording.caused_rules no_record_log each; simp)
qed

lemma polling_proved: "traces (caused (records_proved (dp_client d)) {}) (thread_code env d Polling n reqs)"
proof -
  have "traces (caused (records_proved (dp_client d)) {}) (poll env (poller_of env d))"
    using poll_proved [of "poller_of env d" env "dp_builder d"] by (simp add: poller_of_def NewPoller_def)
  then show ?thesis
    unfolding thread_code_def thread.case Poller_Start_def by (intro recording.caused_rules no_record_log)
qed

subsection \<open>The reporter sends only what is recorded\<close>

definition listed :: "GRN \<Rightarrow> int \<Rightarrow> event \<Rightarrow> bool" where
  "listed g epoch e \<longleftrightarrow>
     (\<exists>ns xs x. e = ListAgents ns (Inr xs) \<and> x \<in> set xs \<and> st_Agent (ag_Status x) = g \<and> st_Epoch (ag_Status x) = epoch
        \<and> g \<noteq> [] \<and> epoch \<noteq> 0)"

definition is_report :: "Client \<Rightarrow> GRN \<Rightarrow> int \<Rightarrow> event \<Rightarrow> bool" where
  "is_report c g epoch e \<longleftrightarrow>
     (\<exists>st r. e = Http (request_for c ''POST'' (provisioning_path g) (Some (provisioningStateReport epoch st))) r)"

definition reports_listed :: "Client \<Rightarrow> event set \<Rightarrow> event \<Rightarrow> bool" where
  "reports_listed c S e \<longleftrightarrow> (\<forall>g epoch. is_report c g epoch e \<longrightarrow> (\<exists>f\<in>S. listed g epoch f))"

interpretation reporting: causal "reports_listed c" for c
  by unfold_locales (unfold reports_listed_def, blast)

lemma is_report_inj: "is_report c g epoch e \<Longrightarrow> is_report c g' epoch' e \<Longrightarrow> g = g' \<and> epoch = epoch'"
  by (auto simp: is_report_def request_for_def provisioning_path_def provisioningStateReport_def path_escape_inj)

lemma no_report_log: "traces (caused (reports_listed c) A) (log l msg kvs)"
  by (rule reporting.caused_emits [OF emits_log [of "\<lambda>e. is_log e"]]) (auto simp: reports_listed_def is_report_def)

lemma report_one_listed:
  assumes "\<exists>f\<in>A. listed (obs_Agent x) (obs_Epoch x) f"
  shows "traces (caused (reports_listed (rp_client r)) A) (report_one env r x)"
proof -
  have "traces (caused (reports_listed (rp_client r)) A)
      (ReportProvisioningState env (rp_client r) (obs_Agent x) (obs_Epoch x) st)" for st
  proof (rule reporting.caused_emits)
    show "emits (\<lambda>e. is_report (rp_client r) (obs_Agent x) (obs_Epoch x) e)
        (ReportProvisioningState env (rp_client r) (obs_Agent x) (obs_Epoch x) st)"
      by (intro emits_routes) (auto simp: is_report_def)
    show "reports_listed (rp_client r) A e" if "is_report (rp_client r) (obs_Agent x) (obs_Epoch x) e" for e
      using that assms is_report_inj unfolding reports_listed_def by blast
  qed
  then show ?thesis
    unfolding report_one_def reporter_send_def by (intro reporting.caused_rules no_report_log; simp)
qed

lemma report_listed:
  assumes "rp_observer r = Observations env a"
  shows "traces (caused (reports_listed (rp_client r)) {}) (report env r)"
  unfolding report_def assms
proof (rule reporting.caused_bind)
  have quiet: "emits (\<lambda>e. \<not> is_http e) (Observations env a)"
    by (rule emits_mono [OF observed.observing_reads]) simp
  show "traces (caused (reports_listed (rp_client r)) {}) (Observations env a)"
    by (rule reporting.caused_emits [OF quiet]) (auto simp: reports_listed_def is_report_def)
  fix h obs es
  assume run: "run_state (Observations env a) h = (obs, h @ es)"
  have "\<exists>f\<in>set es. listed (obs_Agent x) (obs_Epoch x) f" if "obs = Inr xs" "x \<in> set xs" for xs x
    using run that
    by (fastforce simp: Observations_def run_simps listed_def split: sum.splits dest: observations_of_origin)
  then have each: "traces (caused (reports_listed (rp_client r)) (set es)) (report_one env r x)"
    if "obs = Inr xs" "x \<in> set xs" for xs x
    using that by (intro report_one_listed) blast
  show "traces (caused (reports_listed (rp_client r)) ({} \<union> set es)) (case obs of
        Inl e \<Rightarrow> log LogError ''Failed to read what this operator sees of its agents'' [(''error'', LvErr e)]
      | Inr observations \<Rightarrow> do {
          log LogDebug ''Read what this operator sees of its agents'' [(''count'', LvInt (int (length observations)))];
          for_each observations (report_one env r)
        })"
    unfolding Un_empty_left by (intro reporting.caused_rules no_report_log each; simp)
qed

lemma reporting_listed: "traces (caused (reports_listed (dp_client d)) {}) (thread_code env d Reporting n reqs)"
proof -
  have "traces (caused (reports_listed (dp_client d)) {}) (report env (reporter_of env d))"
    using report_listed [of "reporter_of env d" env "dp_builder d"] by (simp add: reporter_of_def NewReporter_def)
  then show ?thesis
    unfolding thread_code_def thread.case Reporter_Start_def by (intro reporting.caused_rules no_report_log)
qed

subsection \<open>Properties\<close>

text \<open>
  The agents' statuses as a cluster keeps them: the agent and the epoch on an Agent that is listed were there
  when the process started, the set \<open>I\<close>, or were patched there earlier in the history.
\<close>

definition statuses_kept :: "(GRN \<times> int) set \<Rightarrow> history \<Rightarrow> bool" where
  "statuses_kept I es \<longleftrightarrow>
     (\<forall>xs ns as ys x. es = xs @ ListAgents ns (Inr as) # ys \<longrightarrow> x \<in> set as \<longrightarrow>
        st_Agent (ag_Status x) \<noteq> [] \<longrightarrow> st_Epoch (ag_Status x) \<noteq> 0 \<longrightarrow>
        (st_Agent (ag_Status x), st_Epoch (ag_Status x)) \<in> I
        \<or> (\<exists>k r. PatchAgentStatus k (status_patch (st_Agent (ag_Status x)) (st_Epoch (ag_Status x))) r \<in> set xs))"

lemma local_event:
  assumes "f \<in> set (local_trace th us)"
  shows "\<exists>us1 us2. us = us1 @ (th, f) # us2"
proof -
  have "(th, f) \<in> set us" using assms by (simp add: set_local_trace)
  then show ?thesis by (meson split_list)
qed

text \<open>C6: Every epoch the operator reports at is one garam proved it holds. Under every interleaving of the
  goroutines and whatever garam and the API server answer: an epoch is written onto an Agent's status only
  after garam stated that epoch for that agent and answered the agent's certificate route; and a report is sent
  only at an epoch that was on the Agent's status when the process started or that was proved so before,
  wherever the cluster keeps the statuses it is given.\<close>

theorem operator_reports_proved_epochs:
  assumes "reachable d g" and "statuses_kept I (map snd g)"
  shows "(\<forall>us vs th k a epoch r. g = us @ (th, PatchAgentStatus k (status_patch a epoch) r) # vs \<longrightarrow>
       epoch_proved (dp_client d) a epoch (set (map snd us)))
    \<and> (\<forall>us vs a epoch e. g = us @ (Reporting, e) # vs \<longrightarrow> is_report (dp_client d) a epoch e \<longrightarrow>
       (a, epoch) \<in> I \<or> epoch_proved (dp_client d) a epoch (set (map snd us)))"
proof -
  have recorded: "epoch_proved (dp_client d) a epoch (set (map snd us))"
    if g: "g = us @ (th, PatchAgentStatus k (status_patch a epoch) r) # vs" for us vs th k a epoch r
  proof -
    have "permitted d th (PatchAgentStatus k (status_patch a epoch) r)" by (rule reachable_permitted [OF assms(1)]) (simp add: g)
    then have "th = Polling" by (simp add: permitted_def)
    with reachable_caused [OF assms(1) g] polling_proved
    have "records_proved (dp_client d) (set (local_trace Polling us)) (PatchAgentStatus k (status_patch a epoch) r)" by blast
    then show ?thesis using local_trace_subset unfolding records_proved_def by (blast intro: epoch_proved_mono)
  qed
  moreover have "(a, epoch) \<in> I \<or> epoch_proved (dp_client d) a epoch (set (map snd us))"
    if g: "g = us @ (Reporting, e) # vs" and report: "is_report (dp_client d) a epoch e" for us vs a epoch e
  proof -
    have "reports_listed (dp_client d) (set (local_trace Reporting us)) e"
      by (rule reachable_caused [OF assms(1) g reporting_listed])
    then obtain f where f: "f \<in> set (local_trace Reporting us)" "listed a epoch f"
      using report unfolding reports_listed_def by blast
    then obtain ns xs x where l: "f = ListAgents ns (Inr xs)" "x \<in> set xs" "st_Agent (ag_Status x) = a"
      "st_Epoch (ag_Status x) = epoch" "a \<noteq> []" "epoch \<noteq> 0" by (auto simp: listed_def)
    from local_event [OF f(1)] obtain us1 us2 where us: "us = us1 @ (Reporting, f) # us2" by blast
    have "map snd g = map snd us1 @ ListAgents ns (Inr xs) # map snd (us2 @ (Reporting, e) # vs)" using g us l(1) by simp
    with assms(2) l have "(a, epoch) \<in> I \<or> (\<exists>k r. PatchAgentStatus k (status_patch a epoch) r \<in> set (map snd us1))"
      unfolding statuses_kept_def by blast
    then show ?thesis
    proof
      assume "\<exists>k r. PatchAgentStatus k (status_patch a epoch) r \<in> set (map snd us1)"
      then obtain th k r where "(th, PatchAgentStatus k (status_patch a epoch) r) \<in> set us1" by auto
      then obtain vs1 vs2 where v: "us1 = vs1 @ (th, PatchAgentStatus k (status_patch a epoch) r) # vs2" by (meson split_list)
      have "epoch_proved (dp_client d) a epoch (set (map snd vs1))" by (rule recorded) (simp add: g us v)
      then have "epoch_proved (dp_client d) a epoch (set (map snd us))" by (rule epoch_proved_mono) (auto simp: us v)
      then show ?thesis by blast
    qed blast
  qed
  ultimately show ?thesis by blast
qed

text \<open>A thread that has not run yet may run after any others.\<close>

lemma reachable_then:
  assumes "reachable d g" and "local_trace th g = []" and "appended (thread_code env d th n reqs) h = t @ rest"
  shows "reachable d (g @ map (Pair th) t)"
  using assms(3)
proof (induction t arbitrary: rest rule: rev_induct)
  case (snoc e t)
  have "local_trace th (map (Pair th) t) = t" by (induction t) simp_all
  then have "may_show d th (local_trace th (g @ map (Pair th) t) @ [e])"
    using snoc.prems assms(2) unfolding may_show_def by fastforce
  then have "operator_step d (g @ map (Pair th) t) ((g @ map (Pair th) t) @ [(th, e)])" by (rule operator_step.call)
  moreover have "reachable d (g @ map (Pair th) t)" using snoc by simp
  ultimately show ?case by (auto intro: reachable.stepped)
qed (simp add: assms(1))

lemma first_outside:
  assumes "t @ r = xs @ e # ys" and "e \<notin> set t"
  obtains zs where "xs = t @ zs" and "r = zs @ e # ys"
  using assms that by (auto simp: append_eq_append_conv2 append_eq_Cons_conv)

lemma demo_epoch_polled:
  "\<exists>t k r. appended (thread_code demo_keeping_env demo_deployment Polling 1 []) [] = t
     \<and> PatchAgentStatus k (status_patch ''grn:a'' 3) r \<in> set t \<and> (\<forall>ns as. ListAgents ns as \<notin> set t)"
proof -
  have "poller_of demo_keeping_env demo_deployment = demo_keeping_poller"
    by (simp add: poller_of_def demo_deployment_def demo_keeping_poller_def)
  then have code: "thread_code demo_keeping_env demo_deployment Polling 1 [] = Poller_Start 1 demo_keeping_env demo_keeping_poller"
    by (simp add: thread_code_def)
  obtain q r where i: "\<And>h. run_state (IssueAgentCertificate demo_keeping_env demo_client ''grn:a'') h =
     (Inr demo_issued, h @ [Http q r])" using demo_keeping_issue by blast
  obtain a b where c: "\<And>h. run_state (Agent_Construct demo_keeping_env demo_constructor demo_held 3 demo_issued) h =
     (Inr (), h @ [CreateAgent a b, PatchAgentStatus (key_of (ag_Meta a)) (status_patch ''grn:a'' 3)
        (Inr (constructed_agent demo_constructor demo_held)), CreateSecret demo_secret (Inr ())])"
    using demo_keeping_construct by blast
  have held: "def_Agent demo_held = ''grn:a''" "def_Claim demo_held = Some \<lparr>claim_Epoch = 3\<rparr>"
    "def_Ignored demo_held = [''note'']" by (simp_all add: demo_held_def)
  have "creates_secret demo_get = False" by (simp add: demo_get_def)
  then show ?thesis
    unfolding code
    by (simp add: appended_def Poller_Start_def run_simps run_poll demo_keeping_list demo_keeping_answers
      poll_definition_def poller_correct_def poller_construct_def poller_place_def demo_not_found held
      Agent_HasCredential_def Agent_CorrectImage_def i c) (auto simp: demo_get_def, metis surj_pair)
qed

lemma demo_epoch_reported:
  "\<exists>l1 l2 l3 e. appended (thread_code demo_observing_env demo_deployment Reporting 1 []) [] =
       [l1, ListAgents ''ns'' (Inr [demo_built]), l2, e] @ [l3]
     \<and> is_report demo_client ''grn:a'' 3 e \<and> is_log l1 \<and> is_log l2"
proof -
  have built: "st_Agent (ag_Status demo_built) = ''grn:a''" "st_Epoch (ag_Status demo_built) = 3"
    "readiness demo_observing_env demo_built = ReadinessReplicaReady"
    by (simp_all add: demo_observing_env_def demo_built_def readiness_def demo_available_def empty_status_def)
  have answers: "listAgents demo_observing_env h ns = Inr [demo_built]" "newRequestError demo_observing_env m u = None"
    "httpDo demo_observing_env h q = Inl nothing_answers" for h ns m u q
    by (simp_all add: demo_observing_env_def demo_cluster_simps)
  have ns: "ctor_namespace demo_constructor = ''ns''" by (simp add: demo_constructor_def NewAgent_def)
  have dep: "dp_builder demo_deployment = demo_constructor" "dp_client demo_deployment = demo_client"
    by (simp_all add: demo_deployment_def)
  have one: "provisioningState ReadinessReplicaReady = (StateReady, True)" by (simp add: provisioningState_def)
  show ?thesis
    by (simp add: appended_def thread_code_def Reporter_Start_def reporter_of_def NewReporter_def report_def
        Observations_def run_simps built answers ns dep report_one_def one reporter_send_def
        ReportProvisioningState_def run_send Let_def read_response_def is_report_def split: sum.splits if_splits) blast
qed

theorem operator_reports_proved_epochs_witness:
  "\<exists>g us e. reachable demo_deployment g \<and> g = us @ [(Reporting, e)] \<and> is_report demo_client ''grn:a'' 3 e
     \<and> epoch_proved demo_client ''grn:a'' 3 (set (map snd us))"
proof -
  obtain t k r where t: "appended (thread_code demo_keeping_env demo_deployment Polling 1 []) [] = t"
    and patch: "PatchAgentStatus k (status_patch ''grn:a'' 3) r \<in> set t" and quiet: "\<forall>ns as. ListAgents ns as \<notin> set t"
    using demo_epoch_polled by blast
  obtain l1 l2 l3 e where run: "appended (thread_code demo_observing_env demo_deployment Reporting 1 []) [] =
      [l1, ListAgents ''ns'' (Inr [demo_built]), l2, e] @ [l3]" and e: "is_report demo_client ''grn:a'' 3 e"
    and logs: "is_log l1" "is_log l2" using demo_epoch_reported by blast
  let ?us = "map (Pair Polling) t @ map (Pair Reporting) [l1, ListAgents ''ns'' (Inr [demo_built]), l2]"
  let ?g = "?us @ [(Reporting, e)]"
  have "reachable demo_deployment (map (Pair Polling) t)"
    using reachable_thread [of demo_keeping_env demo_deployment Polling 1 "[]" "[]" t "[]"] t by simp
  then have reach: "reachable demo_deployment ?g"
    using reachable_then [OF _ _ run, of "map (Pair Polling) t"] by (simp add: local_trace_def)
  have kept: "statuses_kept {} (map snd ?g)"
    unfolding statuses_kept_def
  proof (intro allI impI)
    fix xs ns as ys x
    assume eq: "map snd ?g = xs @ ListAgents ns (Inr as) # ys" and x: "x \<in> set as"
    from eq have "t @ [l1, ListAgents ''ns'' (Inr [demo_built]), l2, e] = xs @ ListAgents ns (Inr as) # ys" by (simp add: comp_def)
    moreover from quiet have "ListAgents ns (Inr as) \<notin> set t" by blast
    ultimately obtain zs where xs: "xs = t @ zs"
      and "[l1, ListAgents ''ns'' (Inr [demo_built]), l2, e] = zs @ ListAgents ns (Inr as) # ys"
      by (rule first_outside)
    then have "as = [demo_built] \<and> set t \<subseteq> set xs"
      using e logs by (auto simp: Cons_eq_append_conv is_report_def)
    then have "x = demo_built" and "PatchAgentStatus k (status_patch ''grn:a'' 3) r \<in> set xs" using x patch by auto
    moreover have "st_Agent (ag_Status demo_built) = ''grn:a''" "st_Epoch (ag_Status demo_built) = 3"
      by (simp_all add: demo_built_def)
    ultimately show "(st_Agent (ag_Status x), st_Epoch (ag_Status x)) \<in> {} \<or> (\<exists>k r.
        PatchAgentStatus k (status_patch (st_Agent (ag_Status x)) (st_Epoch (ag_Status x))) r \<in> set xs)"
      by metis
  qed
  have client: "dp_client demo_deployment = demo_client" by (simp add: demo_deployment_def)
  note proved = operator_reports_proved_epochs [OF reach kept, unfolded client, THEN conjunct2, rule_format, OF refl e]
  then have "epoch_proved demo_client ''grn:a'' 3 (set (map snd ?us))" by blast
  with reach e show ?thesis by blast
qed

end
