(* ===== verification/Deep_Copy.thy ===== *)
theory Deep_Copy
  imports Api_Types
begin

text \<open>
  The deep copies of the Agent types (\<^verbatim>\<open>src/api/v1alpha1/zz_generated.deepcopy.go\<close>), over an explicit
  memory. Elsewhere in this development an Agent is a value, so that \<^verbatim>\<open>held := agent.DeepCopy()\<close> in the
  reconciler is \<open>held = agent\<close>; this theory says why that reading is right. A Go struct is a record
  whose pointer, map and slice fields are addresses; the heap has one component for each type of cell and
  one limit of allocation. \<open>Agent_read\<close> and its likes read the value of \<open>Api_Types\<close> a struct stands for.

  The copies of Kubernetes' own types (\<^verbatim>\<open>ObjectMeta\<close>, \<^verbatim>\<open>ListMeta\<close>, \<^verbatim>\<open>Quantity\<close>,
  \<^verbatim>\<open>ResourceRequirements\<close>, \<^verbatim>\<open>Condition\<close>) are parameters, collected in the record \<open>kube\<close>. What is asked of
  them is the contract of a deep copy, the locale \<open>deep_copier\<close>; the same contract is what is proved of
  the copies of this repository.
\<close>

subsection \<open>Memory\<close>

type_synonym addr = nat

text \<open>A slice: its backing array, where it starts in it, and its length. Nil is \<open>None\<close>.\<close>

record slice =
  sl_array :: addr
  sl_off :: nat
  sl_len :: nat

text \<open>A struct of a Kubernetes type: what it holds inline, and the pointers it holds.\<close>

datatype library_struct = LibraryStruct string "addr list"

record TypeMeta =
  tm_Kind :: string
  tm_APIVersion :: string

record ToolSetStruct =
  tss_Pins :: "addr option"

record AgentSpecStruct =
  ass_Image :: string
  ass_CredentialsSecretName :: string
  ass_StorageSize :: library_struct
  ass_StorageClassName :: "addr option"
  ass_Resources :: library_struct
  ass_Tools :: ToolSetStruct

record AgentStatusStruct =
  sts_Conditions :: "slice option"
  sts_ObservedGeneration :: int
  sts_Agent :: string
  sts_Epoch :: int

record AgentStruct =
  ags_TypeMeta :: TypeMeta
  ags_ObjectMeta :: library_struct
  ags_Spec :: AgentSpecStruct
  ags_Status :: AgentStatusStruct

record AgentListStruct =
  als_TypeMeta :: TypeMeta
  als_ListMeta :: library_struct
  als_Items :: "slice option"

record heap =
  hp_next :: addr
  hp_strings :: "addr \<Rightarrow> string"
  hp_maps :: "addr \<Rightarrow> (string, string) gomap"
  hp_conditions :: "addr \<Rightarrow> Condition list"
  hp_toolsets :: "addr \<Rightarrow> ToolSetStruct"
  hp_specs :: "addr \<Rightarrow> AgentSpecStruct"
  hp_statuses :: "addr \<Rightarrow> AgentStatusStruct"
  hp_agents :: "addr \<Rightarrow> AgentStruct list"
  hp_lists :: "addr \<Rightarrow> AgentListStruct"
  hp_library :: "addr \<Rightarrow> library_struct"

text \<open>Two heaps agree on a set of addresses: whatever is stored there, of any type, is the same.\<close>

definition agree :: "heap \<Rightarrow> heap \<Rightarrow> addr set \<Rightarrow> bool" where
  "agree h h' A \<longleftrightarrow>
     (\<forall>a\<in>A. hp_strings h' a = hp_strings h a \<and> hp_maps h' a = hp_maps h a \<and> hp_conditions h' a = hp_conditions h a
        \<and> hp_toolsets h' a = hp_toolsets h a \<and> hp_specs h' a = hp_specs h a \<and> hp_statuses h' a = hp_statuses h a
        \<and> hp_agents h' a = hp_agents h a \<and> hp_lists h' a = hp_lists h a \<and> hp_library h' a = hp_library h a)"

text \<open>Nothing that existed was changed; what is new lies at or above the old limit.\<close>

definition extends :: "heap \<Rightarrow> heap \<Rightarrow> bool" where
  "extends h h' \<longleftrightarrow> hp_next h \<le> hp_next h' \<and> agree h h' {..<hp_next h}"

lemma agree_refl [simp]: "agree h h A"
  by (simp add: agree_def)

lemma agree_mono: "agree h h' A \<Longrightarrow> B \<subseteq> A \<Longrightarrow> agree h h' B"
  by (auto simp: agree_def)

lemma agree_trans: "agree h h' A \<Longrightarrow> agree h' h'' A \<Longrightarrow> agree h h'' A"
  by (simp add: agree_def)

lemma extends_refl [simp]: "extends h h"
  by (simp add: extends_def)

lemma extends_trans:
  assumes "extends h h'" and "extends h' h''"
  shows "extends h h''"
  using assms by (auto simp: extends_def intro: agree_trans agree_mono)

lemma extends_agree: "extends h h' \<Longrightarrow> A \<subseteq> {..<hp_next h} \<Longrightarrow> agree h h' A"
  by (auto simp: extends_def intro: agree_mono)

text \<open>\<^verbatim>\<open>new\<close> and \<^verbatim>\<open>make\<close>: the next free address, holding what is given.\<close>

definition new_string :: "string \<Rightarrow> heap \<Rightarrow> addr \<times> heap" where
  "new_string s h = (hp_next h, h\<lparr>hp_next := Suc (hp_next h), hp_strings := (hp_strings h)(hp_next h := s)\<rparr>)"

definition make_map :: "heap \<Rightarrow> addr \<times> heap" where
  "make_map h = (hp_next h, h\<lparr>hp_next := Suc (hp_next h), hp_maps := (hp_maps h)(hp_next h := [])\<rparr>)"

definition zero_condition :: Condition where
  "zero_condition = \<lparr>cond_Type = [], cond_Status = ConditionOther [], cond_ObservedGeneration = 0,
     cond_LastTransitionTime = 0, cond_Reason = [], cond_Message = []\<rparr>"

definition make_conditions :: "nat \<Rightarrow> heap \<Rightarrow> addr \<times> heap" where
  "make_conditions n h =
     (hp_next h, h\<lparr>hp_next := Suc (hp_next h),
        hp_conditions := (hp_conditions h)(hp_next h := replicate n zero_condition)\<rparr>)"

definition zero_type_meta :: TypeMeta where
  "zero_type_meta = \<lparr>tm_Kind = [], tm_APIVersion = []\<rparr>"

definition zero_tool_set :: ToolSetStruct where
  "zero_tool_set = \<lparr>tss_Pins = None\<rparr>"

definition zero_spec :: AgentSpecStruct where
  "zero_spec = \<lparr>ass_Image = [], ass_CredentialsSecretName = [], ass_StorageSize = LibraryStruct [] [],
     ass_StorageClassName = None, ass_Resources = LibraryStruct [] [], ass_Tools = zero_tool_set\<rparr>"

definition zero_status :: AgentStatusStruct where
  "zero_status = \<lparr>sts_Conditions = None, sts_ObservedGeneration = 0, sts_Agent = [], sts_Epoch = 0\<rparr>"

definition zero_agent :: AgentStruct where
  "zero_agent = \<lparr>ags_TypeMeta = zero_type_meta, ags_ObjectMeta = LibraryStruct [] [], ags_Spec = zero_spec,
     ags_Status = zero_status\<rparr>"

definition zero_list :: AgentListStruct where
  "zero_list = \<lparr>als_TypeMeta = zero_type_meta, als_ListMeta = LibraryStruct [] [], als_Items = None\<rparr>"

definition make_agents :: "nat \<Rightarrow> heap \<Rightarrow> addr \<times> heap" where
  "make_agents n h =
     (hp_next h, h\<lparr>hp_next := Suc (hp_next h), hp_agents := (hp_agents h)(hp_next h := replicate n zero_agent)\<rparr>)"

definition new_tool_set :: "heap \<Rightarrow> addr \<times> heap" where
  "new_tool_set h = (hp_next h, h\<lparr>hp_next := Suc (hp_next h), hp_toolsets := (hp_toolsets h)(hp_next h := zero_tool_set)\<rparr>)"

definition new_spec :: "heap \<Rightarrow> addr \<times> heap" where
  "new_spec h = (hp_next h, h\<lparr>hp_next := Suc (hp_next h), hp_specs := (hp_specs h)(hp_next h := zero_spec)\<rparr>)"

definition new_status :: "heap \<Rightarrow> addr \<times> heap" where
  "new_status h = (hp_next h, h\<lparr>hp_next := Suc (hp_next h), hp_statuses := (hp_statuses h)(hp_next h := zero_status)\<rparr>)"

definition new_list :: "heap \<Rightarrow> addr \<times> heap" where
  "new_list h = (hp_next h, h\<lparr>hp_next := Suc (hp_next h), hp_lists := (hp_lists h)(hp_next h := zero_list)\<rparr>)"

lemmas alloc_defs = new_string_def make_map_def make_conditions_def make_agents_def new_tool_set_def new_spec_def
  new_status_def new_list_def

text \<open>The elements of a slice, and whether it lies inside its array.\<close>

definition elements :: "'a list \<Rightarrow> slice \<Rightarrow> 'a list" where
  "elements array s = take (sl_len s) (drop (sl_off s) array)"

definition in_array :: "'a list \<Rightarrow> slice \<Rightarrow> bool" where
  "in_array array s \<longleftrightarrow> sl_off s + sl_len s \<le> length array"

lemma elements_length [simp]: "in_array array s \<Longrightarrow> length (elements array s) = sl_len s"
  by (simp add: in_array_def elements_def)

lemma elements_nth: "in_array array s \<Longrightarrow> i < sl_len s \<Longrightarrow> elements array s ! i = array ! (sl_off s + i)"
  by (simp add: in_array_def elements_def)

definition whole :: "addr \<Rightarrow> nat \<Rightarrow> slice" where
  "whole a n = \<lparr>sl_array = a, sl_off = 0, sl_len = n\<rparr>"

lemma elements_whole [simp]: "length array = n \<Longrightarrow> elements array (whole a n) = array"
  by (simp add: elements_def whole_def)

lemma in_array_whole [simp]: "in_array array (whole a n) \<longleftrightarrow> n \<le> length array"
  by (simp add: in_array_def whole_def)

lemma sl_array_whole [simp]: "sl_array (whole a n) = a" "sl_off (whole a n) = 0" "sl_len (whole a n) = n"
  by (simp_all add: whole_def)

subsection \<open>The contract of a deep copy\<close>

text \<open>
  \<open>copy\<close> takes a struct and gives the struct that was written, \<open>read\<close> is the value a struct stands for,
  \<open>reach\<close> the addresses it leads to, and \<open>wf\<close> that these exist and slices lie inside their arrays. A deep copy
  changes nothing that existed, reads as the original does, and leads only to memory it allocated itself.
\<close>

locale deep_copier =
  fixes copy :: "heap \<Rightarrow> 'v \<Rightarrow> 'v \<times> heap"
    and read :: "heap \<Rightarrow> 'v \<Rightarrow> 'a"
    and reach :: "heap \<Rightarrow> 'v \<Rightarrow> addr set"
    and wf :: "heap \<Rightarrow> 'v \<Rightarrow> bool"
  assumes copy_extends: "copy h v = (w, h') \<Longrightarrow> wf h v \<Longrightarrow> extends h h'"
    and copy_reads: "copy h v = (w, h') \<Longrightarrow> wf h v \<Longrightarrow> read h' w = read h v"
    and copy_wf: "copy h v = (w, h') \<Longrightarrow> wf h v \<Longrightarrow> wf h' w"
    and copy_fresh: "copy h v = (w, h') \<Longrightarrow> wf h v \<Longrightarrow> reach h' w \<subseteq> {hp_next h..<hp_next h'}"
    and wf_reach: "wf h v \<Longrightarrow> reach h v \<subseteq> {..<hp_next h}"
    and frame: "agree h h' (reach h v) \<Longrightarrow> hp_next h \<le> hp_next h' \<Longrightarrow> wf h v
      \<Longrightarrow> wf h' v \<and> reach h' v = reach h v \<and> read h' v = read h v"
begin

lemma frame_extends: "extends h h' \<Longrightarrow> wf h v \<Longrightarrow> wf h' v \<and> reach h' v = reach h v \<and> read h' v = read h v"
  by (rule frame) (auto simp: extends_def intro: agree_mono dest: wf_reach)

text \<open>
  \<^verbatim>\<open>out := new(T); in.DeepCopyInto(out)\<close>: a cell is allocated first and written last, and what the copy
  leads to lies above the cell.
\<close>

lemma copy_into_cell:
  assumes "wf h v" and "hp_next h1 = Suc (hp_next h)" and "agree h h1 {..<hp_next h}" and "copy h1 v = (w, h2)"
    and "hp_next h3 = hp_next h2" and "agree h2 h3 (- {hp_next h})"
  shows "extends h h3 \<and> wf h3 w \<and> read h3 w = read h v \<and> reach h3 w \<subseteq> {Suc (hp_next h)..<hp_next h3}
    \<and> hp_next h < hp_next h3"
proof -
  have ext: "extends h h1" using assms(2,3) by (simp add: extends_def)
  note v = frame_extends [OF ext assms(1)]
  note W = copy_extends [OF assms(4)] copy_reads [OF assms(4)] copy_wf [OF assms(4)] copy_fresh [OF assms(4)]
  have fresh: "reach h2 w \<subseteq> {Suc (hp_next h)..<hp_next h3}" using W(4) v assms(2,5) by simp
  have "agree h2 h3 (reach h2 w)" by (rule agree_mono [OF assms(6)]) (use fresh in auto)
  then have w: "wf h3 w \<and> reach h3 w = reach h2 w \<and> read h3 w = read h2 w"
    using frame [of h2 h3 w] W(3) v assms(5) by simp
  have "agree h2 h3 {..<hp_next h}" by (rule agree_mono [OF assms(6)]) auto
  then have "extends h h3"
    using extends_trans [OF ext W(1)] v assms(5) by (auto simp: extends_def intro: agree_trans)
  then show ?thesis using w fresh W(1,2) v assms(2,5) by (auto simp: extends_def)
qed

end

subsection \<open>The copies\<close>

record kube =
  k_quantityDeepCopy :: "heap \<Rightarrow> library_struct \<Rightarrow> library_struct \<times> heap"
  k_resourcesDeepCopyInto :: "heap \<Rightarrow> library_struct \<Rightarrow> library_struct \<times> heap"
  k_objectMetaDeepCopyInto :: "heap \<Rightarrow> library_struct \<Rightarrow> library_struct \<times> heap"
  k_listMetaDeepCopyInto :: "heap \<Rightarrow> library_struct \<Rightarrow> library_struct \<times> heap"
  k_conditionDeepCopyInto :: "Condition \<Rightarrow> Condition"
  k_readQuantity :: "heap \<Rightarrow> library_struct \<Rightarrow> quantity"
  k_readResources :: "heap \<Rightarrow> library_struct \<Rightarrow> other"
  k_readObjectMeta :: "heap \<Rightarrow> library_struct \<Rightarrow> ObjectMeta"
  k_readListMeta :: "heap \<Rightarrow> library_struct \<Rightarrow> other"
  k_reach :: "heap \<Rightarrow> library_struct \<Rightarrow> addr set"
  k_wf :: "heap \<Rightarrow> library_struct \<Rightarrow> bool"

text \<open>A method \<^verbatim>\<open>DeepCopyInto\<close> gives what it left in \<open>out\<close>, which starts as \<^verbatim>\<open>*out = *in\<close>.\<close>

definition ToolSet_DeepCopyInto :: "heap \<Rightarrow> ToolSetStruct \<Rightarrow> ToolSetStruct \<times> heap" where
  "ToolSet_DeepCopyInto h in' =
     (let out = in' in
      case tss_Pins in' of
        None \<Rightarrow> (out, h)
      | Some a \<Rightarrow>
          (let (b, h1) = make_map h;
               entries = foldl (\<lambda>m (key, val). map_put key val m) (hp_maps h1 b) (hp_maps h1 a)
           in (out\<lparr>tss_Pins := Some b\<rparr>, h1\<lparr>hp_maps := (hp_maps h1)(b := entries)\<rparr>)))"

definition AgentSpec_DeepCopyInto :: "kube \<Rightarrow> heap \<Rightarrow> AgentSpecStruct \<Rightarrow> AgentSpecStruct \<times> heap" where
  "AgentSpec_DeepCopyInto k h in' =
     (let out = in';
          (size, h) = k_quantityDeepCopy k h (ass_StorageSize in');
          out = out\<lparr>ass_StorageSize := size\<rparr>;
          (out, h) = (case ass_StorageClassName in' of
             None \<Rightarrow> (out, h)
           | Some a \<Rightarrow> (let (b, h1) = new_string (hp_strings h a) h in (out\<lparr>ass_StorageClassName := Some b\<rparr>, h1)));
          (resources, h) = k_resourcesDeepCopyInto k h (ass_Resources in');
          out = out\<lparr>ass_Resources := resources\<rparr>;
          (tools, h) = ToolSet_DeepCopyInto h (ass_Tools in')
      in (out\<lparr>ass_Tools := tools\<rparr>, h))"

text \<open>The loop over the conditions: \<open>b\<close> is the array that was made, \<open>s\<close> the slice that is copied.\<close>

fun copy_conditions :: "kube \<Rightarrow> slice \<Rightarrow> addr \<Rightarrow> nat list \<Rightarrow> heap \<Rightarrow> heap" where
  "copy_conditions k s b [] h = h"
| "copy_conditions k s b (i # is) h =
     copy_conditions k s b is
       (h\<lparr>hp_conditions := (hp_conditions h)(b := (hp_conditions h b)
            [i := k_conditionDeepCopyInto k (hp_conditions h (sl_array s) ! (sl_off s + i))])\<rparr>)"

definition AgentStatus_DeepCopyInto :: "kube \<Rightarrow> heap \<Rightarrow> AgentStatusStruct \<Rightarrow> AgentStatusStruct \<times> heap" where
  "AgentStatus_DeepCopyInto k h in' =
     (let out = in' in
      case sts_Conditions in' of
        None \<Rightarrow> (out, h)
      | Some s \<Rightarrow>
          (let (b, h1) = make_conditions (sl_len s) h
           in (out\<lparr>sts_Conditions := Some (whole b (sl_len s))\<rparr>, copy_conditions k s b [0..<sl_len s] h1)))"

definition Agent_DeepCopyInto :: "kube \<Rightarrow> heap \<Rightarrow> AgentStruct \<Rightarrow> AgentStruct \<times> heap" where
  "Agent_DeepCopyInto k h in' =
     (let out = in';
          out = out\<lparr>ags_TypeMeta := ags_TypeMeta in'\<rparr>;
          (meta, h) = k_objectMetaDeepCopyInto k h (ags_ObjectMeta in');
          out = out\<lparr>ags_ObjectMeta := meta\<rparr>;
          (spec, h) = AgentSpec_DeepCopyInto k h (ags_Spec in');
          out = out\<lparr>ags_Spec := spec\<rparr>;
          (status, h) = AgentStatus_DeepCopyInto k h (ags_Status in')
      in (out\<lparr>ags_Status := status\<rparr>, h))"

definition copy_agent_at :: "kube \<Rightarrow> slice \<Rightarrow> addr \<Rightarrow> nat \<Rightarrow> heap \<Rightarrow> heap" where
  "copy_agent_at k s b i h =
     (let (x, h) = Agent_DeepCopyInto k h (hp_agents h (sl_array s) ! (sl_off s + i))
      in h\<lparr>hp_agents := (hp_agents h)(b := (hp_agents h b)[i := x])\<rparr>)"

fun copy_agents :: "kube \<Rightarrow> slice \<Rightarrow> addr \<Rightarrow> nat list \<Rightarrow> heap \<Rightarrow> heap" where
  "copy_agents k s b [] h = h"
| "copy_agents k s b (i # is) h = copy_agents k s b is (copy_agent_at k s b i h)"

definition AgentList_DeepCopyInto :: "kube \<Rightarrow> heap \<Rightarrow> AgentListStruct \<Rightarrow> AgentListStruct \<times> heap" where
  "AgentList_DeepCopyInto k h in' =
     (let out = in';
          out = out\<lparr>als_TypeMeta := als_TypeMeta in'\<rparr>;
          (meta, h) = k_listMetaDeepCopyInto k h (als_ListMeta in');
          out = out\<lparr>als_ListMeta := meta\<rparr>
      in case als_Items in' of
           None \<Rightarrow> (out, h)
         | Some s \<Rightarrow>
             (let (b, h1) = make_agents (sl_len s) h
              in (out\<lparr>als_Items := Some (whole b (sl_len s))\<rparr>, copy_agents k s b [0..<sl_len s] h1)))"

text \<open>
  A method \<^verbatim>\<open>DeepCopy\<close> takes the struct its receiver points to, \<open>None\<close> for a nil receiver, and gives the
  address of what it allocated. A pointer to one Agent is to the single cell of an array.
\<close>

definition ToolSet_DeepCopy :: "heap \<Rightarrow> ToolSetStruct option \<Rightarrow> addr option \<times> heap" where
  "ToolSet_DeepCopy h in' =
     (case in' of
        None \<Rightarrow> (None, h)
      | Some v \<Rightarrow>
          (let (b, h) = new_tool_set h; (out, h) = ToolSet_DeepCopyInto h v
           in (Some b, h\<lparr>hp_toolsets := (hp_toolsets h)(b := out)\<rparr>)))"

definition AgentSpec_DeepCopy :: "kube \<Rightarrow> heap \<Rightarrow> AgentSpecStruct option \<Rightarrow> addr option \<times> heap" where
  "AgentSpec_DeepCopy k h in' =
     (case in' of
        None \<Rightarrow> (None, h)
      | Some v \<Rightarrow>
          (let (b, h) = new_spec h; (out, h) = AgentSpec_DeepCopyInto k h v
           in (Some b, h\<lparr>hp_specs := (hp_specs h)(b := out)\<rparr>)))"

definition AgentStatus_DeepCopy :: "kube \<Rightarrow> heap \<Rightarrow> AgentStatusStruct option \<Rightarrow> addr option \<times> heap" where
  "AgentStatus_DeepCopy k h in' =
     (case in' of
        None \<Rightarrow> (None, h)
      | Some v \<Rightarrow>
          (let (b, h) = new_status h; (out, h) = AgentStatus_DeepCopyInto k h v
           in (Some b, h\<lparr>hp_statuses := (hp_statuses h)(b := out)\<rparr>)))"

definition Agent_DeepCopy :: "kube \<Rightarrow> heap \<Rightarrow> AgentStruct option \<Rightarrow> addr option \<times> heap" where
  "Agent_DeepCopy k h in' =
     (case in' of
        None \<Rightarrow> (None, h)
      | Some v \<Rightarrow>
          (let (b, h) = make_agents 1 h; (out, h) = Agent_DeepCopyInto k h v
           in (Some b, h\<lparr>hp_agents := (hp_agents h)(b := [out])\<rparr>)))"

definition AgentList_DeepCopy :: "kube \<Rightarrow> heap \<Rightarrow> AgentListStruct option \<Rightarrow> addr option \<times> heap" where
  "AgentList_DeepCopy k h in' =
     (case in' of
        None \<Rightarrow> (None, h)
      | Some v \<Rightarrow>
          (let (b, h) = new_list h; (out, h) = AgentList_DeepCopyInto k h v
           in (Some b, h\<lparr>hp_lists := (hp_lists h)(b := out)\<rparr>)))"

text \<open>
  A \<^verbatim>\<open>runtime.Object\<close> is nil, \<open>None\<close>, or a type with a pointer of that type, which may itself be nil: an
  interface holding a nil pointer is not a nil interface.
\<close>

datatype runtime_object = AgentObject "addr option" | AgentListObject "addr option"

definition Agent_DeepCopyObject :: "kube \<Rightarrow> heap \<Rightarrow> AgentStruct option \<Rightarrow> runtime_object option \<times> heap" where
  "Agent_DeepCopyObject k h in' =
     (let (c, h) = Agent_DeepCopy k h in' in if c \<noteq> None then (Some (AgentObject c), h) else (None, h))"

definition AgentList_DeepCopyObject :: "kube \<Rightarrow> heap \<Rightarrow> AgentListStruct option \<Rightarrow> runtime_object option \<times> heap" where
  "AgentList_DeepCopyObject k h in' =
     (let (c, h) = AgentList_DeepCopy k h in' in if c \<noteq> None then (Some (AgentListObject c), h) else (None, h))"

subsection \<open>What a struct stands for\<close>

definition ToolSet_read :: "heap \<Rightarrow> ToolSetStruct \<Rightarrow> AgentToolSet" where
  "ToolSet_read h v = \<lparr>ats_Pins = (case tss_Pins v of None \<Rightarrow> [] | Some a \<Rightarrow> hp_maps h a)\<rparr>"

definition ToolSet_reach :: "heap \<Rightarrow> ToolSetStruct \<Rightarrow> addr set" where
  "ToolSet_reach h v = set_option (tss_Pins v)"

definition ToolSet_wf :: "heap \<Rightarrow> ToolSetStruct \<Rightarrow> bool" where
  "ToolSet_wf h v \<longleftrightarrow> (\<forall>a\<in>set_option (tss_Pins v). a < hp_next h \<and> gomap_wf (hp_maps h a))"

definition AgentSpec_read :: "kube \<Rightarrow> heap \<Rightarrow> AgentSpecStruct \<Rightarrow> AgentSpec" where
  "AgentSpec_read k h v =
     \<lparr>as_Image = ass_Image v, as_CredentialsSecretName = ass_CredentialsSecretName v,
      as_StorageSize = k_readQuantity k h (ass_StorageSize v),
      as_StorageClassName = map_option (hp_strings h) (ass_StorageClassName v),
      as_Resources = k_readResources k h (ass_Resources v), as_Tools = ToolSet_read h (ass_Tools v)\<rparr>"

definition AgentSpec_reach :: "kube \<Rightarrow> heap \<Rightarrow> AgentSpecStruct \<Rightarrow> addr set" where
  "AgentSpec_reach k h v =
     k_reach k h (ass_StorageSize v) \<union> set_option (ass_StorageClassName v) \<union> k_reach k h (ass_Resources v)
     \<union> ToolSet_reach h (ass_Tools v)"

definition AgentSpec_wf :: "kube \<Rightarrow> heap \<Rightarrow> AgentSpecStruct \<Rightarrow> bool" where
  "AgentSpec_wf k h v \<longleftrightarrow>
     k_wf k h (ass_StorageSize v) \<and> (\<forall>a\<in>set_option (ass_StorageClassName v). a < hp_next h)
     \<and> k_wf k h (ass_Resources v) \<and> ToolSet_wf h (ass_Tools v)"

definition AgentStatus_read :: "heap \<Rightarrow> AgentStatusStruct \<Rightarrow> AgentStatus" where
  "AgentStatus_read h v =
     \<lparr>st_Conditions = (case sts_Conditions v of None \<Rightarrow> [] | Some s \<Rightarrow> elements (hp_conditions h (sl_array s)) s),
      st_ObservedGeneration = sts_ObservedGeneration v, st_Agent = sts_Agent v, st_Epoch = sts_Epoch v\<rparr>"

definition AgentStatus_reach :: "heap \<Rightarrow> AgentStatusStruct \<Rightarrow> addr set" where
  "AgentStatus_reach h v = sl_array ` set_option (sts_Conditions v)"

definition AgentStatus_wf :: "heap \<Rightarrow> AgentStatusStruct \<Rightarrow> bool" where
  "AgentStatus_wf h v \<longleftrightarrow>
     (\<forall>s\<in>set_option (sts_Conditions v). sl_array s < hp_next h \<and> in_array (hp_conditions h (sl_array s)) s)"

definition Agent_read :: "kube \<Rightarrow> heap \<Rightarrow> AgentStruct \<Rightarrow> TypeMeta \<times> Agent" where
  "Agent_read k h v =
     (ags_TypeMeta v, \<lparr>ag_Meta = k_readObjectMeta k h (ags_ObjectMeta v), ag_Spec = AgentSpec_read k h (ags_Spec v),
                       ag_Status = AgentStatus_read h (ags_Status v)\<rparr>)"

definition Agent_reach :: "kube \<Rightarrow> heap \<Rightarrow> AgentStruct \<Rightarrow> addr set" where
  "Agent_reach k h v =
     k_reach k h (ags_ObjectMeta v) \<union> AgentSpec_reach k h (ags_Spec v) \<union> AgentStatus_reach h (ags_Status v)"

definition Agent_wf :: "kube \<Rightarrow> heap \<Rightarrow> AgentStruct \<Rightarrow> bool" where
  "Agent_wf k h v \<longleftrightarrow>
     k_wf k h (ags_ObjectMeta v) \<and> AgentSpec_wf k h (ags_Spec v) \<and> AgentStatus_wf h (ags_Status v)"

definition list_items :: "heap \<Rightarrow> AgentListStruct \<Rightarrow> AgentStruct list" where
  "list_items h v = (case als_Items v of None \<Rightarrow> [] | Some s \<Rightarrow> elements (hp_agents h (sl_array s)) s)"

definition AgentList_read :: "kube \<Rightarrow> heap \<Rightarrow> AgentListStruct \<Rightarrow> TypeMeta \<times> other \<times> (TypeMeta \<times> Agent) list" where
  "AgentList_read k h v =
     (als_TypeMeta v, k_readListMeta k h (als_ListMeta v), map (Agent_read k h) (list_items h v))"

definition AgentList_reach :: "kube \<Rightarrow> heap \<Rightarrow> AgentListStruct \<Rightarrow> addr set" where
  "AgentList_reach k h v =
     k_reach k h (als_ListMeta v) \<union> sl_array ` set_option (als_Items v)
     \<union> (\<Union>x\<in>set (list_items h v). Agent_reach k h x)"

definition AgentList_wf :: "kube \<Rightarrow> heap \<Rightarrow> AgentListStruct \<Rightarrow> bool" where
  "AgentList_wf k h v \<longleftrightarrow>
     k_wf k h (als_ListMeta v)
     \<and> (\<forall>s\<in>set_option (als_Items v). sl_array s < hp_next h \<and> in_array (hp_agents h (sl_array s)) s)
     \<and> (\<forall>x\<in>set (list_items h v). Agent_wf k h x)"

text \<open>What is asked of Kubernetes' own copies: each is a deep copy, and a condition, which holds no pointer,
  is copied by assignment.\<close>

definition kube_copies :: "kube \<Rightarrow> bool" where
  "kube_copies k \<longleftrightarrow>
     deep_copier (k_quantityDeepCopy k) (k_readQuantity k) (k_reach k) (k_wf k)
     \<and> deep_copier (k_resourcesDeepCopyInto k) (k_readResources k) (k_reach k) (k_wf k)
     \<and> deep_copier (k_objectMetaDeepCopyInto k) (k_readObjectMeta k) (k_reach k) (k_wf k)
     \<and> deep_copier (k_listMetaDeepCopyInto k) (k_readListMeta k) (k_reach k) (k_wf k)
     \<and> (\<forall>c. k_conditionDeepCopyInto k c = c)"

subsection \<open>Each copy is a deep copy\<close>

text \<open>Ranging over a map and putting its entries into an empty one gives it back, whatever the order.\<close>

lemma refill_map:
  assumes "gomap_wf m" and "mset es = mset m"
  shows "foldl (\<lambda>m (key, val). map_put key val m) [] es = m"
proof (rule gomap_eqI [OF foldl_map_put_wf assms(1)])
  have "distinct (map fst es)"
    using gomap_wf_distinct [OF assms(1)] assms(2) by (metis mset_eq_imp_distinct_iff mset_map)
  then have "map_of (rev es) = map_of m"
    using assms gomap_wf_distinct by (metis map_of_inject_set map_of_rev_distinct mset_eq_setD)
  then show "map_of (foldl (\<lambda>m (key, val). map_put key val m) [] es) = map_of m"
    by (simp add: map_of_foldl_map_put)
qed simp

lemmas refill_canonical = refill_map [OF _ refl]

interpretation tool_set: deep_copier ToolSet_DeepCopyInto ToolSet_read ToolSet_reach ToolSet_wf
proof
  fix h h' :: heap and v w :: ToolSetStruct
  assume copy: "ToolSet_DeepCopyInto h v = (w, h')" and wf: "ToolSet_wf h v"
  note simps = ToolSet_DeepCopyInto_def ToolSet_wf_def ToolSet_read_def ToolSet_reach_def make_map_def Let_def
  show "extends h h'" using copy by (auto simp: simps extends_def agree_def split: option.splits)
  show "ToolSet_read h' w = ToolSet_read h v"
    using copy wf by (auto simp: simps refill_canonical split: option.splits)
  show "ToolSet_wf h' w" using copy wf by (auto simp: simps foldl_map_put_wf split: option.splits)
  show "ToolSet_reach h' w \<subseteq> {hp_next h..<hp_next h'}" using copy by (auto simp: simps split: option.splits)
next
  show "ToolSet_wf h v \<Longrightarrow> ToolSet_reach h v \<subseteq> {..<hp_next h}" for h v
    by (auto simp: ToolSet_wf_def ToolSet_reach_def)
next
  show "agree h h' (ToolSet_reach h v) \<Longrightarrow> hp_next h \<le> hp_next h' \<Longrightarrow> ToolSet_wf h v
      \<Longrightarrow> ToolSet_wf h' v \<and> ToolSet_reach h' v = ToolSet_reach h v \<and> ToolSet_read h' v = ToolSet_read h v" for h h' v
    by (auto simp: agree_def ToolSet_wf_def ToolSet_reach_def ToolSet_read_def split: option.splits)
qed

text \<open>Writing every index of an array from a function of the index.\<close>

lemma fill_array:
  "m \<le> length a \<Longrightarrow> foldl (\<lambda>a i. a[i := f i]) a [0..<m] = map f [0..<m] @ drop m a"
proof (induction m)
  case (Suc m)
  then have "drop m a = a ! m # drop (Suc m) a" by (simp add: Cons_nth_drop_Suc)
  with Suc show ?case by (simp add: list_update_append)
qed simp

lemma elements_map: "in_array array s \<Longrightarrow> map (\<lambda>i. array ! (sl_off s + i)) [0..<sl_len s] = elements array s"
  by (rule nth_equalityI) (simp_all add: elements_nth)

lemma copy_conditions_eq:
  assumes "sl_array s \<noteq> b" and "\<And>c. k_conditionDeepCopyInto k c = c"
  shows "copy_conditions k s b is h = h\<lparr>hp_conditions := (hp_conditions h)
    (b := foldl (\<lambda>a i. a[i := hp_conditions h (sl_array s) ! (sl_off s + i)]) (hp_conditions h b) is)\<rparr>"
  using assms by (induction "is" arbitrary: h) simp_all

lemma AgentStatus_copied:
  assumes "AgentStatus_wf h v" and "\<And>c. k_conditionDeepCopyInto k c = c"
  shows "AgentStatus_DeepCopyInto k h v =
    (case sts_Conditions v of
       None \<Rightarrow> (v, h)
     | Some s \<Rightarrow> (v\<lparr>sts_Conditions := Some (whole (hp_next h) (sl_len s))\<rparr>,
         h\<lparr>hp_next := Suc (hp_next h), hp_conditions := (hp_conditions h)
             (hp_next h := elements (hp_conditions h (sl_array s)) s)\<rparr>))"
proof (cases "sts_Conditions v")
  case (Some s)
  then have ne: "sl_array s \<noteq> hp_next h" and arr: "in_array (hp_conditions h (sl_array s)) s"
    using assms(1) by (auto simp: AgentStatus_wf_def)
  then show ?thesis
    using Some by (simp add: AgentStatus_DeepCopyInto_def make_conditions_def copy_conditions_eq [OF ne assms(2)]
        fill_array elements_map)
qed (simp add: AgentStatus_DeepCopyInto_def)

lemma AgentStatus_deep_copier:
  assumes "\<And>c. k_conditionDeepCopyInto k c = c"
  shows "deep_copier (AgentStatus_DeepCopyInto k) AgentStatus_read AgentStatus_reach AgentStatus_wf"
proof
  fix h h' :: heap and v w :: AgentStatusStruct
  assume copy: "AgentStatus_DeepCopyInto k h v = (w, h')" and wf: "AgentStatus_wf h v"
  note copied = copy [unfolded AgentStatus_copied [OF wf assms]]
  note simps = AgentStatus_wf_def AgentStatus_read_def AgentStatus_reach_def
  show "extends h h'" using copied by (auto simp: extends_def agree_def split: option.splits)
  show "AgentStatus_read h' w = AgentStatus_read h v" using copied wf by (auto simp: simps split: option.splits)
  show "AgentStatus_wf h' w" using copied wf by (auto simp: simps split: option.splits)
  show "AgentStatus_reach h' w \<subseteq> {hp_next h..<hp_next h'}" using copied by (auto simp: simps split: option.splits)
next
  show "AgentStatus_wf h v \<Longrightarrow> AgentStatus_reach h v \<subseteq> {..<hp_next h}" for h v
    by (auto simp: AgentStatus_wf_def AgentStatus_reach_def)
next
  show "agree h h' (AgentStatus_reach h v) \<Longrightarrow> hp_next h \<le> hp_next h' \<Longrightarrow> AgentStatus_wf h v
      \<Longrightarrow> AgentStatus_wf h' v \<and> AgentStatus_reach h' v = AgentStatus_reach h v
        \<and> AgentStatus_read h' v = AgentStatus_read h v" for h h' v
    by (auto simp: agree_def AgentStatus_wf_def AgentStatus_reach_def AgentStatus_read_def split: option.splits)
qed

text \<open>A string behind a pointer is copied the same way.\<close>

definition copy_string :: "heap \<Rightarrow> addr option \<Rightarrow> addr option \<times> heap" where
  "copy_string h p = (case p of None \<Rightarrow> (None, h) | Some a \<Rightarrow> (let (b, h1) = new_string (hp_strings h a) h in (Some b, h1)))"

interpretation string_ptr: deep_copier copy_string "\<lambda>h. map_option (hp_strings h)" "\<lambda>h. set_option"
  "\<lambda>h p. \<forall>a\<in>set_option p. a < hp_next h"
  by unfold_locales (auto simp: copy_string_def new_string_def extends_def agree_def intro!: option.map_cong split: option.splits)

text \<open>
  Two fields copied one after the other. The second copy sees the original of its field unchanged, and
  what the first copy wrote is unchanged by the second.
\<close>

definition copy_pair ::
  "(heap \<Rightarrow> 'v \<Rightarrow> 'v \<times> heap) \<Rightarrow> (heap \<Rightarrow> 'w \<Rightarrow> 'w \<times> heap) \<Rightarrow> heap \<Rightarrow> 'v \<times> 'w \<Rightarrow> ('v \<times> 'w) \<times> heap" where
  "copy_pair f g h p = (let (v, h1) = f h (fst p); (w, h2) = g h1 (snd p) in ((v, w), h2))"

lemma deep_copier_pair:
  assumes f: "deep_copier f fread freach fwf" and g: "deep_copier g gread greach gwf"
  shows "deep_copier (copy_pair f g) (\<lambda>h p. (fread h (fst p), gread h (snd p)))
    (\<lambda>h p. freach h (fst p) \<union> greach h (snd p)) (\<lambda>h p. fwf h (fst p) \<and> gwf h (snd p))"
proof
  fix h h' p q
  assume copy: "copy_pair f g h p = (q, h')" and "fwf h (fst p) \<and> gwf h (snd p)"
  then have wf: "fwf h (fst p)" "gwf h (snd p)" by simp_all
  obtain v h1 where v: "f h (fst p) = (v, h1)" by fastforce
  obtain w h2 where w: "g h1 (snd p) = (w, h2)" by fastforce
  have q: "q = (v, w)" "h' = h2" using copy v w by (simp_all add: copy_pair_def)
  note F = deep_copier.copy_extends [OF f v wf(1)] deep_copier.copy_reads [OF f v wf(1)]
    deep_copier.copy_wf [OF f v wf(1)] deep_copier.copy_fresh [OF f v wf(1)]
  note old = deep_copier.frame_extends [OF g F(1) wf(2)]
  then have wf1: "gwf h1 (snd p)" by simp
  note G = deep_copier.copy_extends [OF g w wf1] deep_copier.copy_reads [OF g w wf1]
    deep_copier.copy_wf [OF g w wf1] deep_copier.copy_fresh [OF g w wf1]
  note kept = deep_copier.frame_extends [OF f G(1) F(3)]
  have limits: "hp_next h \<le> hp_next h1" "hp_next h1 \<le> hp_next h2" using F(1) G(1) by (simp_all add: extends_def)
  show "extends h h'" using extends_trans [OF F(1) G(1)] q by simp
  show "(fread h' (fst q), gread h' (snd q)) = (fread h (fst p), gread h (snd p))"
    using q F(2) G(2) kept old by simp
  show "fwf h' (fst q) \<and> gwf h' (snd q)" using q kept G(3) by simp
  show "freach h' (fst q) \<union> greach h' (snd q) \<subseteq> {hp_next h..<hp_next h'}"
    using q kept F(4) G(4) limits by fastforce
next
  show "fwf h (fst p) \<and> gwf h (snd p) \<Longrightarrow> freach h (fst p) \<union> greach h (snd p) \<subseteq> {..<hp_next h}" for h p
    using deep_copier.wf_reach [OF f] deep_copier.wf_reach [OF g] by blast
next
  fix h h' p
  assume a: "agree h h' (freach h (fst p) \<union> greach h (snd p))" and n: "hp_next h \<le> hp_next h'"
    and wf: "fwf h (fst p) \<and> gwf h (snd p)"
  have "agree h h' (freach h (fst p))" "agree h h' (greach h (snd p))" using a by (auto intro: agree_mono)
  with deep_copier.frame [OF f] deep_copier.frame [OF g] n wf
  show "(fwf h' (fst p) \<and> gwf h' (snd p)) \<and> freach h' (fst p) \<union> greach h' (snd p) = freach h (fst p) \<union> greach h (snd p)
      \<and> (fread h' (fst p), gread h' (snd p)) = (fread h (fst p), gread h (snd p))" by metis
qed

text \<open>A struct copied by copying the part of it that holds pointers, the rest being assigned.\<close>

lemma deep_copier_struct:
  assumes f: "deep_copier f fread freach fwf"
    and copy: "\<And>h s. copy h s = (case f h (get s) of (v, h') \<Rightarrow> (put v s, h'))"
    and get_put: "\<And>v s. get (put v s) = v" and inline: "\<And>v s. inline (put v s) = inline s"
    and read: "\<And>h s. read h s = mk (inline s) (fread h (get s))"
    and reach: "\<And>h s. reach h s = freach h (get s)" and valid: "\<And>h s. valid h s = fwf h (get s)"
  shows "deep_copier copy read reach valid"
proof
  fix h h' s w
  assume c: "copy h s = (w, h')" and "valid h s"
  then obtain v where v: "f h (get s) = (v, h')" "w = put v s" and wfs: "fwf h (get s)"
    by (auto simp: copy valid split: prod.splits)
  note F = deep_copier.copy_extends [OF f v(1) wfs] deep_copier.copy_reads [OF f v(1) wfs]
    deep_copier.copy_wf [OF f v(1) wfs] deep_copier.copy_fresh [OF f v(1) wfs]
  show "extends h h'" by (rule F)
  show "read h' w = read h s" using F(2) v(2) by (simp add: read get_put inline)
  show "valid h' w" using F(3) v(2) by (simp add: valid get_put)
  show "reach h' w \<subseteq> {hp_next h..<hp_next h'}" using F(4) v(2) by (simp add: reach get_put)
next
  show "valid h s \<Longrightarrow> reach h s \<subseteq> {..<hp_next h}" for h s
    using deep_copier.wf_reach [OF f, of h "get s"] by (simp add: valid reach)
next
  show "agree h h' (reach h s) \<Longrightarrow> hp_next h \<le> hp_next h' \<Longrightarrow> valid h s
      \<Longrightarrow> valid h' s \<and> reach h' s = reach h s \<and> read h' s = read h s" for h h' s
    using deep_copier.frame [OF f, of h h' "get s"] by (simp add: valid reach read)
qed

lemma AgentSpec_deep_copier:
  assumes "kube_copies k"
  shows "deep_copier (AgentSpec_DeepCopyInto k) (AgentSpec_read k) (AgentSpec_reach k) (AgentSpec_wf k)"
proof -
  have quantity: "deep_copier (k_quantityDeepCopy k) (k_readQuantity k) (k_reach k) (k_wf k)"
    and resources: "deep_copier (k_resourcesDeepCopyInto k) (k_readResources k) (k_reach k) (k_wf k)"
    using assms by (simp_all add: kube_copies_def)
  note fields = deep_copier_pair [OF quantity deep_copier_pair [OF string_ptr.deep_copier_axioms
        deep_copier_pair [OF resources tool_set.deep_copier_axioms]]]
  show ?thesis
    by (rule deep_copier_struct [OF fields, where
          get = "\<lambda>s. (ass_StorageSize s, ass_StorageClassName s, ass_Resources s, ass_Tools s)" and
          put = "\<lambda>(q, n, r, t) s. s\<lparr>ass_StorageSize := q, ass_StorageClassName := n, ass_Resources := r, ass_Tools := t\<rparr>" and
          inline = "\<lambda>s. (ass_Image s, ass_CredentialsSecretName s)" and
          mk = "\<lambda>(i, c) (q, n, r, t). \<lparr>as_Image = i, as_CredentialsSecretName = c, as_StorageSize = q,
              as_StorageClassName = n, as_Resources = r, as_Tools = t\<rparr>"])
      (auto simp: AgentSpec_DeepCopyInto_def copy_pair_def copy_string_def new_string_def AgentSpec_read_def
        AgentSpec_reach_def AgentSpec_wf_def Let_def split: prod.splits option.splits)
qed

lemma Agent_deep_copier:
  assumes "kube_copies k"
  shows "deep_copier (Agent_DeepCopyInto k) (Agent_read k) (Agent_reach k) (Agent_wf k)"
proof -
  have meta: "deep_copier (k_objectMetaDeepCopyInto k) (k_readObjectMeta k) (k_reach k) (k_wf k)"
    and status: "deep_copier (AgentStatus_DeepCopyInto k) AgentStatus_read AgentStatus_reach AgentStatus_wf"
    using assms by (simp_all add: kube_copies_def AgentStatus_deep_copier)
  note fields = deep_copier_pair [OF meta deep_copier_pair [OF AgentSpec_deep_copier [OF assms] status]]
  show ?thesis
    by (rule deep_copier_struct [OF fields, where
          get = "\<lambda>s. (ags_ObjectMeta s, ags_Spec s, ags_Status s)" and
          put = "\<lambda>(m, p, t) s. s\<lparr>ags_ObjectMeta := m, ags_Spec := p, ags_Status := t\<rparr>" and
          inline = ags_TypeMeta and mk = "\<lambda>y (m, p, t). (y, \<lparr>ag_Meta = m, ag_Spec = p, ag_Status = t\<rparr>)"])
      (auto simp: Agent_DeepCopyInto_def copy_pair_def Agent_read_def Agent_reach_def Agent_wf_def Let_def
        split: prod.splits)
qed

text \<open>
  The loop over the items. After \<open>m\<close> rounds everything below the new array is as it was, and the first \<open>m\<close>
  cells of the new array are copies of the first \<open>m\<close> items, leading only to memory above the array.
\<close>

definition items_copied :: "kube \<Rightarrow> heap \<Rightarrow> AgentStruct list \<Rightarrow> nat \<Rightarrow> heap \<Rightarrow> bool" where
  "items_copied k h xs m h' \<longleftrightarrow>
     hp_next h < hp_next h' \<and> agree h h' {..<hp_next h} \<and> length (hp_agents h' (hp_next h)) = length xs
     \<and> (\<forall>j<m. Agent_wf k h' (hp_agents h' (hp_next h) ! j)
          \<and> Agent_reach k h' (hp_agents h' (hp_next h) ! j) \<subseteq> {Suc (hp_next h)..<hp_next h'}
          \<and> Agent_read k h' (hp_agents h' (hp_next h) ! j) = Agent_read k h (xs ! j))"

lemma copy_agents_snoc: "copy_agents k s b (is @ [i]) h = copy_agent_at k s b i (copy_agents k s b is h)"
  by (induction "is" arbitrary: h) simp_all

lemma items_copied_step:
  assumes k: "kube_copies k" and inv: "items_copied k h xs m h1" and m: "m < length xs"
    and s: "sl_array s < hp_next h" "in_array (hp_agents h (sl_array s)) s"
      "xs = elements (hp_agents h (sl_array s)) s"
    and wf: "\<forall>x\<in>set xs. Agent_wf k h x"
  shows "items_copied k h xs (Suc m) (copy_agent_at k s (hp_next h) m h1)"
proof -
  note A = Agent_deep_copier [OF k]
  let ?b = "hp_next h" and ?x = "xs ! m"
  have ext: "extends h h1" and lt: "?b < hp_next h1" using inv by (simp_all add: items_copied_def extends_def)
  have "hp_agents h1 (sl_array s) = hp_agents h (sl_array s)"
    using inv s(1) by (simp add: items_copied_def agree_def)
  then have src: "hp_agents h1 (sl_array s) ! (sl_off s + m) = ?x" using s(2,3) m by (simp add: elements_nth)
  obtain w h2 where w: "Agent_DeepCopyInto k h1 ?x = (w, h2)" by fastforce
  define h3 where "h3 = h2\<lparr>hp_agents := (hp_agents h2)(?b := (hp_agents h2 ?b)[m := w])\<rparr>"
  have h3: "copy_agent_at k s ?b m h1 = h3" using w src by (simp add: copy_agent_at_def h3_def)
  have old: "Agent_wf k h1 ?x" "Agent_read k h1 ?x = Agent_read k h ?x"
    using deep_copier.frame_extends [OF A ext] wf m by simp_all
  note W = deep_copier.copy_extends [OF A w old(1)] deep_copier.copy_reads [OF A w old(1)]
    deep_copier.copy_wf [OF A w old(1)] deep_copier.copy_fresh [OF A w old(1)]
  have off: "agree h2 h3 X" if "?b \<notin> X" for X using that by (auto simp: agree_def h3_def)
  have next3: "hp_next h3 = hp_next h2" and le: "hp_next h1 \<le> hp_next h2" using W(1) by (simp_all add: h3_def extends_def)
  have same_b: "hp_agents h2 ?b = hp_agents h1 ?b" using W(1) lt by (simp add: extends_def agree_def)
  then have len: "m < length (hp_agents h2 ?b)" using inv m by (simp add: items_copied_def)
  have new: "Agent_wf k h3 w \<and> Agent_reach k h3 w = Agent_reach k h2 w \<and> Agent_read k h3 w = Agent_read k h2 w"
    by (rule deep_copier.frame [OF A off _ W(3)]) (use W(4) lt next3 in auto)
  have kept: "Agent_wf k h3 y \<and> Agent_reach k h3 y = Agent_reach k h1 y \<and> Agent_read k h3 y = Agent_read k h1 y"
    if "Agent_wf k h1 y" "Agent_reach k h1 y \<subseteq> {Suc ?b..<hp_next h1}" for y
  proof -
    note y = deep_copier.frame_extends [OF A W(1) that(1)]
    then have "?b \<notin> Agent_reach k h2 y" using that(2) by auto
    from deep_copier.frame [OF A off [OF this]] y next3 show ?thesis by simp
  qed
  have cell: "hp_agents h3 ?b ! j = (if j = m then w else hp_agents h1 ?b ! j)" for j
    using len same_b by (simp add: h3_def nth_list_update)
  have "agree h1 h3 {..<?b}"
    by (rule agree_trans [of _ h2]) (use W(1) lt off in \<open>auto simp: extends_def intro: agree_mono\<close>)
  then have "agree h h3 {..<?b}" using inv by (auto simp: items_copied_def intro: agree_trans)
  moreover have "length (hp_agents h3 ?b) = length xs" using inv same_b by (simp add: h3_def items_copied_def)
  moreover have "Agent_wf k h3 (hp_agents h3 ?b ! j)
      \<and> Agent_reach k h3 (hp_agents h3 ?b ! j) \<subseteq> {Suc ?b..<hp_next h3}
      \<and> Agent_read k h3 (hp_agents h3 ?b ! j) = Agent_read k h (xs ! j)" if j: "j < Suc m" for j
  proof (cases "j = m")
    case True
    then show ?thesis using new W(2,4) old(2) cell lt next3 by (auto simp: subset_iff)
  next
    case False
    then have "j < m" using j by simp
    with inv have y: "Agent_wf k h1 (hp_agents h1 ?b ! j)" "Agent_reach k h1 (hp_agents h1 ?b ! j) \<subseteq> {Suc ?b..<hp_next h1}"
        "Agent_read k h1 (hp_agents h1 ?b ! j) = Agent_read k h (xs ! j)" by (simp_all add: items_copied_def)
    from kept [OF y(1,2)] y False cell le next3 show ?thesis by auto
  qed
  ultimately show ?thesis using h3 lt le next3 by (simp add: items_copied_def)
qed

lemma items_copied_loop:
  assumes k: "kube_copies k" and s: "sl_array s < hp_next h" "in_array (hp_agents h (sl_array s)) s"
      "xs = elements (hp_agents h (sl_array s)) s"
    and wf: "\<forall>x\<in>set xs. Agent_wf k h x" and made: "make_agents (sl_len s) h = (b, h1)" and "m \<le> sl_len s"
  shows "items_copied k h xs m (copy_agents k s b [0..<m] h1)"
  using assms(7)
proof (induction m)
  case 0
  then show ?case using made s by (auto simp: items_copied_def make_agents_def agree_def)
next
  case (Suc m)
  have b: "b = hp_next h" using made by (simp add: make_agents_def)
  from Suc s have "m < length xs" by simp
  with Suc items_copied_step [OF k _ _ s wf] show ?case by (simp add: copy_agents_snoc b)
qed

text \<open>The items of a list, as a field of their own.\<close>

definition items_of :: "heap \<Rightarrow> slice option \<Rightarrow> AgentStruct list" where
  "items_of h p = (case p of None \<Rightarrow> [] | Some s \<Rightarrow> elements (hp_agents h (sl_array s)) s)"

definition copy_items :: "kube \<Rightarrow> heap \<Rightarrow> slice option \<Rightarrow> slice option \<times> heap" where
  "copy_items k h p =
     (case p of
        None \<Rightarrow> (None, h)
      | Some s \<Rightarrow> (let (b, h1) = make_agents (sl_len s) h
                   in (Some (whole b (sl_len s)), copy_agents k s b [0..<sl_len s] h1)))"

definition items_reach :: "kube \<Rightarrow> heap \<Rightarrow> slice option \<Rightarrow> addr set" where
  "items_reach k h p = sl_array ` set_option p \<union> (\<Union>x\<in>set (items_of h p). Agent_reach k h x)"

definition items_wf :: "kube \<Rightarrow> heap \<Rightarrow> slice option \<Rightarrow> bool" where
  "items_wf k h p \<longleftrightarrow>
     (\<forall>s\<in>set_option p. sl_array s < hp_next h \<and> in_array (hp_agents h (sl_array s)) s)
     \<and> (\<forall>x\<in>set (items_of h p). Agent_wf k h x)"

lemma items_copied_result:
  assumes k: "kube_copies k" and wf: "items_wf k h (Some s)" and copy: "copy_items k h (Some s) = (q, h')"
  shows "q = Some (whole (hp_next h) (sl_len s)) \<and> items_copied k h (items_of h (Some s)) (sl_len s) h'
    \<and> items_of h' q = hp_agents h' (hp_next h) \<and> length (items_of h (Some s)) = sl_len s"
proof -
  have s: "sl_array s < hp_next h" "in_array (hp_agents h (sl_array s)) s" "\<forall>x\<in>set (items_of h (Some s)). Agent_wf k h x"
    using wf by (simp_all add: items_wf_def)
  obtain b h1 where made: "make_agents (sl_len s) h = (b, h1)" by fastforce
  have q: "q = Some (whole (hp_next h) (sl_len s))" and h': "h' = copy_agents k s b [0..<sl_len s] h1"
    using copy made by (auto simp: copy_items_def make_agents_def)
  have "items_copied k h (items_of h (Some s)) (sl_len s) h'"
    unfolding h' by (rule items_copied_loop [OF k s(1,2) _ s(3) made]) (simp_all add: items_of_def)
  moreover from this have "items_of h' q = hp_agents h' (hp_next h)"
    using s(2) by (simp add: q items_copied_def) (simp add: items_of_def)
  ultimately show ?thesis using q s(2) by (simp add: items_of_def)
qed

lemma items_deep_copier:
  assumes k: "kube_copies k"
  shows "deep_copier (copy_items k) (\<lambda>h p. map (Agent_read k h) (items_of h p)) (items_reach k) (items_wf k)"
proof
  note A = Agent_deep_copier [OF k]
  fix h h' p q
  assume copy: "copy_items k h p = (q, h')" and wf: "items_wf k h p"
  have "extends h h' \<and> map (Agent_read k h') (items_of h' q) = map (Agent_read k h) (items_of h p)
      \<and> items_wf k h' q \<and> items_reach k h' q \<subseteq> {hp_next h..<hp_next h'}"
  proof (cases p)
    case None
    then show ?thesis using copy by (auto simp: copy_items_def items_of_def items_wf_def items_reach_def)
  next
    case (Some s)
    let ?b = "hp_next h" and ?n = "sl_len s"
    from items_copied_result [OF k] wf copy Some
    have q: "q = Some (whole ?b ?n)" and inv: "items_copied k h (items_of h p) ?n h'"
      and cells: "items_of h' q = hp_agents h' ?b" and len: "length (items_of h p) = ?n" by simp_all
    have "length (hp_agents h' ?b) = ?n" using inv len by (simp add: items_copied_def)
    then have all: "Agent_wf k h' x \<and> Agent_reach k h' x \<subseteq> {Suc ?b..<hp_next h'}" if "x \<in> set (items_of h' q)" for x
      using that inv unfolding cells by (auto simp: items_copied_def in_set_conv_nth)
    have "map (Agent_read k h') (items_of h' q) = map (Agent_read k h) (items_of h p)"
      using inv len by (intro nth_equalityI) (simp_all add: cells items_copied_def)
    moreover have "items_wf k h' q" using all q inv len by (simp add: items_wf_def items_copied_def)
    moreover have "items_reach k h' q \<subseteq> {?b..<hp_next h'}"
      using all q inv by (auto simp: items_reach_def items_copied_def) (meson Suc_leD subsetD atLeastLessThan_iff)+
    ultimately show ?thesis using inv by (simp add: items_copied_def extends_def)
  qed
  then show "extends h h'" "map (Agent_read k h') (items_of h' q) = map (Agent_read k h) (items_of h p)"
    "items_wf k h' q" "items_reach k h' q \<subseteq> {hp_next h..<hp_next h'}" by blast+
next
  show "items_wf k h p \<Longrightarrow> items_reach k h p \<subseteq> {..<hp_next h}" for h p
    using deep_copier.wf_reach [OF Agent_deep_copier [OF k], of h] by (fastforce simp: items_wf_def items_reach_def)
next
  note A = Agent_deep_copier [OF k]
  fix h h' p
  assume a: "agree h h' (items_reach k h p)" and n: "hp_next h \<le> hp_next h'" and wf: "items_wf k h p"
  have same: "items_of h' p = items_of h p"
    using a by (auto simp: agree_def items_reach_def items_of_def split: option.splits)
  have "Agent_wf k h' x \<and> Agent_reach k h' x = Agent_reach k h x \<and> Agent_read k h' x = Agent_read k h x"
    if "x \<in> set (items_of h p)" for x
    by (rule deep_copier.frame [OF A agree_mono [OF a] n]) (use that wf in \<open>auto simp: items_reach_def items_wf_def\<close>)
  moreover have "hp_agents h' (sl_array s) = hp_agents h (sl_array s)" if "p = Some s" for s
    using a that by (simp add: agree_def items_reach_def)
  ultimately show "items_wf k h' p \<and> items_reach k h' p = items_reach k h p
      \<and> map (Agent_read k h') (items_of h' p) = map (Agent_read k h) (items_of h p)"
    using wf n by (auto simp: same items_wf_def items_reach_def)
qed

lemma AgentList_deep_copier:
  assumes "kube_copies k"
  shows "deep_copier (AgentList_DeepCopyInto k) (AgentList_read k) (AgentList_reach k) (AgentList_wf k)"
proof -
  have meta: "deep_copier (k_listMetaDeepCopyInto k) (k_readListMeta k) (k_reach k) (k_wf k)"
    using assms by (simp add: kube_copies_def)
  have items: "list_items h v = items_of h (als_Items v)" for h v by (simp add: list_items_def items_of_def)
  note fields = deep_copier_pair [OF meta items_deep_copier [OF assms]]
  show ?thesis
    by (rule deep_copier_struct [OF fields, where
          get = "\<lambda>s. (als_ListMeta s, als_Items s)" and put = "\<lambda>(m, p) s. s\<lparr>als_ListMeta := m, als_Items := p\<rparr>" and
          inline = als_TypeMeta and mk = "\<lambda>y (m, xs). (y, m, xs)"])
      (auto simp: AgentList_DeepCopyInto_def copy_pair_def copy_items_def AgentList_read_def AgentList_reach_def
        AgentList_wf_def items_reach_def items_wf_def items Let_def split: prod.splits option.splits)
qed

subsection \<open>Holders\<close>

text \<open>
  Code that starts with a set of addresses it can reach. It may write anything at an address it can reach and
  it may allocate; it comes to reach nothing else.
\<close>

inductive holds :: "addr set \<Rightarrow> heap \<Rightarrow> addr set \<Rightarrow> heap \<Rightarrow> bool" where
  holds_start: "holds A h A h"
| holds_write: "holds A h B h1 \<Longrightarrow> hp_next h2 = hp_next h1 \<Longrightarrow> agree h1 h2 (- B) \<Longrightarrow> holds A h B h2"
| holds_allocate: "holds A h B h1 \<Longrightarrow> hp_next h2 = Suc (hp_next h1) \<Longrightarrow> agree h1 h2 (- {hp_next h1})
    \<Longrightarrow> holds A h (insert (hp_next h1) B) h2"

lemma holds_frame:
  assumes "holds A h B h'"
  shows "hp_next h \<le> hp_next h' \<and> agree h h' ({..<hp_next h} - A) \<and> B \<subseteq> A \<union> {hp_next h..<hp_next h'}"
  using assms
proof (induction rule: holds.induct)
  case (holds_write A h B h1 h2)
  have "agree h1 h2 ({..<hp_next h} - A)" by (rule agree_mono [OF holds_write(3)]) (use holds_write(4) in auto)
  with holds_write show ?case by (auto intro: agree_trans)
next
  case (holds_allocate A h B h1 h2)
  have "agree h1 h2 ({..<hp_next h} - A)" by (rule agree_mono [OF holds_allocate(3)]) (use holds_allocate(4) in auto)
  with holds_allocate show ?case by (auto intro: agree_trans)
qed simp

lemma copy_outlives_writes:
  assumes "deep_copier copy read reach valid" and "valid h' w" and "reach h' w \<subseteq> {n..<hp_next h'}"
    and "holds A h' B h''" and "A \<subseteq> {..<n}"
  shows "valid h'' w \<and> read h'' w = read h' w"
proof -
  note f = holds_frame [OF assms(4)]
  have "reach h' w \<subseteq> {..<hp_next h'} - A" using assms(3,5) by (auto simp: subset_iff not_less [symmetric])
  with f have "agree h' h'' (reach h' w)" using agree_mono by blast
  with f deep_copier.frame [OF assms(1) _ _ assms(2)] show ?thesis by blast
qed

lemma original_outlives_writes:
  assumes "deep_copier copy read reach valid" and "valid h v" and "extends h h'"
    and "holds B h' C h''" and "B \<subseteq> {hp_next h..}"
  shows "valid h'' v \<and> read h'' v = read h v"
proof -
  note f = holds_frame [OF assms(4)]
  have "{..<hp_next h} \<subseteq> {..<hp_next h'} - B" using assms(3,5) by (fastforce simp: extends_def)
  with f have "agree h' h'' {..<hp_next h}" using agree_mono by blast
  with f have "extends h h''" using assms(3) by (auto simp: extends_def intro: agree_trans)
  from deep_copier.frame_extends [OF assms(1) this assms(2)] show ?thesis by blast
qed

subsection \<open>What \<^verbatim>\<open>DeepCopy\<close> allocates\<close>

lemma Agent_DeepCopy_cell:
  assumes "kube_copies k" and "Agent_wf k h v" and "Agent_DeepCopy k h (Some v) = (p, h')"
  shows "p = Some (hp_next h) \<and> extends h h' \<and> hp_next h < hp_next h'
    \<and> (\<exists>w. hp_agents h' (hp_next h) = [w] \<and> Agent_wf k h' w \<and> Agent_read k h' w = Agent_read k h v
         \<and> Agent_reach k h' w \<subseteq> {Suc (hp_next h)..<hp_next h'})"
proof -
  obtain w h2 where w: "Agent_DeepCopyInto k (snd (make_agents 1 h)) v = (w, h2)" by fastforce
  have h': "p = Some (hp_next h)" "h' = h2\<lparr>hp_agents := (hp_agents h2)(hp_next h := [w])\<rparr>"
    using assms(3) w by (simp_all add: Agent_DeepCopy_def make_agents_def)
  with deep_copier.copy_into_cell [OF Agent_deep_copier [OF assms(1)] assms(2) _ _ w, of h']
  show ?thesis by (auto simp: make_agents_def agree_def)
qed

lemma AgentList_DeepCopy_cell:
  assumes "kube_copies k" and "AgentList_wf k h v" and "AgentList_DeepCopy k h (Some v) = (p, h')"
  shows "p = Some (hp_next h) \<and> extends h h' \<and> hp_next h < hp_next h' \<and> AgentList_wf k h' (hp_lists h' (hp_next h))
    \<and> AgentList_read k h' (hp_lists h' (hp_next h)) = AgentList_read k h v
    \<and> AgentList_reach k h' (hp_lists h' (hp_next h)) \<subseteq> {Suc (hp_next h)..<hp_next h'}"
proof -
  obtain w h2 where w: "AgentList_DeepCopyInto k (snd (new_list h)) v = (w, h2)" by fastforce
  have h': "p = Some (hp_next h)" "h' = h2\<lparr>hp_lists := (hp_lists h2)(hp_next h := w)\<rparr>"
    using assms(3) w by (simp_all add: AgentList_DeepCopy_def new_list_def)
  with deep_copier.copy_into_cell [OF AgentList_deep_copier [OF assms(1)] assms(2) _ _ w, of h']
  show ?thesis by (auto simp: new_list_def agree_def)
qed

lemma AgentSpec_DeepCopy_cell:
  assumes "kube_copies k" and "AgentSpec_wf k h v" and "AgentSpec_DeepCopy k h (Some v) = (p, h')"
  shows "p = Some (hp_next h) \<and> extends h h' \<and> AgentSpec_read k h' (hp_specs h' (hp_next h)) = AgentSpec_read k h v
    \<and> AgentSpec_reach k h' (hp_specs h' (hp_next h)) \<subseteq> {Suc (hp_next h)..<hp_next h'}"
proof -
  obtain w h2 where w: "AgentSpec_DeepCopyInto k (snd (new_spec h)) v = (w, h2)" by fastforce
  have h': "p = Some (hp_next h)" "h' = h2\<lparr>hp_specs := (hp_specs h2)(hp_next h := w)\<rparr>"
    using assms(3) w by (simp_all add: AgentSpec_DeepCopy_def new_spec_def)
  with deep_copier.copy_into_cell [OF AgentSpec_deep_copier [OF assms(1)] assms(2) _ _ w, of h']
  show ?thesis by (auto simp: new_spec_def agree_def)
qed

lemma AgentStatus_DeepCopy_cell:
  assumes "\<And>c. k_conditionDeepCopyInto k c = c" and "AgentStatus_wf h v"
    and "AgentStatus_DeepCopy k h (Some v) = (p, h')"
  shows "p = Some (hp_next h) \<and> extends h h' \<and> AgentStatus_read h' (hp_statuses h' (hp_next h)) = AgentStatus_read h v
    \<and> AgentStatus_reach h' (hp_statuses h' (hp_next h)) \<subseteq> {Suc (hp_next h)..<hp_next h'}"
proof -
  obtain w h2 where w: "AgentStatus_DeepCopyInto k (snd (new_status h)) v = (w, h2)" by fastforce
  have h': "p = Some (hp_next h)" "h' = h2\<lparr>hp_statuses := (hp_statuses h2)(hp_next h := w)\<rparr>"
    using assms(3) w by (simp_all add: AgentStatus_DeepCopy_def new_status_def)
  with deep_copier.copy_into_cell [OF AgentStatus_deep_copier assms(2) _ _ w, of h'] assms(1)
  show ?thesis by (auto simp: new_status_def agree_def)
qed

lemma ToolSet_DeepCopy_cell:
  assumes "ToolSet_wf h v" and "ToolSet_DeepCopy h (Some v) = (p, h')"
  shows "p = Some (hp_next h) \<and> extends h h' \<and> ToolSet_read h' (hp_toolsets h' (hp_next h)) = ToolSet_read h v
    \<and> ToolSet_reach h' (hp_toolsets h' (hp_next h)) \<subseteq> {Suc (hp_next h)..<hp_next h'}"
proof -
  obtain w h2 where w: "ToolSet_DeepCopyInto (snd (new_tool_set h)) v = (w, h2)" by fastforce
  have h': "p = Some (hp_next h)" "h' = h2\<lparr>hp_toolsets := (hp_toolsets h2)(hp_next h := w)\<rparr>"
    using assms(2) w by (simp_all add: ToolSet_DeepCopy_def new_tool_set_def)
  with tool_set.copy_into_cell [OF assms(1) _ _ w, of h'] show ?thesis by (auto simp: new_tool_set_def agree_def)
qed

subsection \<open>A library that copies deeply\<close>

text \<open>The contract can be met: structs with at most one pointer, to a cell that holds none.\<close>

definition pointed :: "heap \<Rightarrow> library_struct \<Rightarrow> string \<times> string list" where
  "pointed h v =
     (case v of LibraryStruct s ps \<Rightarrow> (s, map (\<lambda>a. case hp_library h a of LibraryStruct t qs \<Rightarrow> t) ps))"

definition one_pointer_copy :: "heap \<Rightarrow> library_struct \<Rightarrow> library_struct \<times> heap" where
  "one_pointer_copy h v =
     (case v of
        LibraryStruct s [a] \<Rightarrow>
          (LibraryStruct s [hp_next h],
           h\<lparr>hp_next := Suc (hp_next h), hp_library := (hp_library h)(hp_next h := hp_library h a)\<rparr>)
      | LibraryStruct s ps \<Rightarrow> (LibraryStruct s ps, h))"

definition one_pointer_reach :: "heap \<Rightarrow> library_struct \<Rightarrow> addr set" where
  "one_pointer_reach h v = (case v of LibraryStruct s ps \<Rightarrow> set ps)"

definition one_pointer_wf :: "heap \<Rightarrow> library_struct \<Rightarrow> bool" where
  "one_pointer_wf h v = (case v of LibraryStruct s ps \<Rightarrow> length ps \<le> 1 \<and> (\<forall>a\<in>set ps. a < hp_next h))"

lemma one_pointer_deep_copier:
  "deep_copier one_pointer_copy (\<lambda>h v. f (pointed h v)) one_pointer_reach one_pointer_wf"
proof
  fix h h' v w
  assume copy: "one_pointer_copy h v = (w, h')" and wf: "one_pointer_wf h v"
  obtain s ps where v: "v = LibraryStruct s ps" by (cases v)
  consider "ps = []" | a where "ps = [a]" using wf v by (cases ps) (auto simp: one_pointer_wf_def)
  note cases = this
  note simps = one_pointer_copy_def one_pointer_reach_def one_pointer_wf_def pointed_def extends_def agree_def
  show "extends h h'" by (cases rule: cases) (use copy v in \<open>auto simp: simps\<close>)
  show "f (pointed h' w) = f (pointed h v)" by (cases rule: cases) (use copy v in \<open>auto simp: simps\<close>)
  show "one_pointer_wf h' w" by (cases rule: cases) (use copy v in \<open>auto simp: simps\<close>)
  show "one_pointer_reach h' w \<subseteq> {hp_next h..<hp_next h'}"
    by (cases rule: cases) (use copy v in \<open>auto simp: simps\<close>)
next
  show "one_pointer_wf h v \<Longrightarrow> one_pointer_reach h v \<subseteq> {..<hp_next h}" for h v
    by (cases v) (auto simp: one_pointer_wf_def one_pointer_reach_def)
next
  show "agree h h' (one_pointer_reach h v) \<Longrightarrow> hp_next h \<le> hp_next h' \<Longrightarrow> one_pointer_wf h v
      \<Longrightarrow> one_pointer_wf h' v \<and> one_pointer_reach h' v = one_pointer_reach h v \<and> f (pointed h' v) = f (pointed h v)" for h h' v
  proof -
    assume a: "agree h h' (one_pointer_reach h v)" "hp_next h \<le> hp_next h'" "one_pointer_wf h v"
    then have "pointed h' v = pointed h v" by (cases v) (auto simp: agree_def pointed_def one_pointer_reach_def)
    with a show ?thesis by (cases v) (auto simp: one_pointer_wf_def one_pointer_reach_def)
  qed
qed

definition demo_kube :: kube where
  "demo_kube =
     \<lparr>k_quantityDeepCopy = one_pointer_copy, k_resourcesDeepCopyInto = one_pointer_copy,
      k_objectMetaDeepCopyInto = one_pointer_copy, k_listMetaDeepCopyInto = one_pointer_copy,
      k_conditionDeepCopyInto = (\<lambda>c. c),
      k_readQuantity = (\<lambda>h v. Quantity (fst (pointed h v))),
      k_readResources = (\<lambda>h v. map (Pair (fst (pointed h v))) (snd (pointed h v))),
      k_readObjectMeta = (\<lambda>h v. object_meta (concat (snd (pointed h v))) (fst (pointed h v))),
      k_readListMeta = (\<lambda>h v. map (Pair (fst (pointed h v))) (snd (pointed h v))),
      k_reach = one_pointer_reach, k_wf = one_pointer_wf\<rparr>"

lemma demo_kube_copies: "kube_copies demo_kube"
  by (simp add: kube_copies_def demo_kube_def one_pointer_deep_copier [of "\<lambda>p. Quantity (fst p)"]
      one_pointer_deep_copier [of "\<lambda>p. map (Pair (fst p)) (snd p)"]
      one_pointer_deep_copier [of "\<lambda>p. object_meta (concat (snd p)) (fst p)"])

text \<open>An Agent with a condition, a storage class, a pin and a namespace behind pointers.\<close>

definition demo_condition :: Condition where
  "demo_condition = zero_condition\<lparr>cond_Type := ''Synced'', cond_Status := ConditionTrue\<rparr>"

definition demo_heap :: heap where
  "demo_heap =
     \<lparr>hp_next = 4, hp_strings = (\<lambda>a. if a = 0 then ''fast'' else []),
      hp_maps = (\<lambda>a. if a = 1 then [(''grep'', ''s'')] else []),
      hp_conditions = (\<lambda>a. if a = 2 then [demo_condition] else []), hp_toolsets = (\<lambda>a. zero_tool_set),
      hp_specs = (\<lambda>a. zero_spec), hp_statuses = (\<lambda>a. zero_status), hp_agents = (\<lambda>a. []), hp_lists = (\<lambda>a. zero_list),
      hp_library = (\<lambda>a. if a = 3 then LibraryStruct ''ns'' [] else LibraryStruct [] [])\<rparr>"

definition demo_agent_struct :: AgentStruct where
  "demo_agent_struct = zero_agent\<lparr>ags_ObjectMeta := LibraryStruct ''a'' [3],
     ags_Spec := zero_spec\<lparr>ass_Image := ''img'', ass_StorageClassName := Some 0, ass_Tools := \<lparr>tss_Pins = Some 1\<rparr>\<rparr>,
     ags_Status := zero_status\<lparr>sts_Conditions := Some (whole 2 1)\<rparr>\<rparr>"

lemmas demo_structs = demo_kube_def demo_heap_def demo_agent_struct_def zero_agent_def zero_spec_def zero_status_def
  zero_tool_set_def

lemma demo_agent_wf: "Agent_wf demo_kube demo_heap demo_agent_struct"
  by (simp add: demo_structs Agent_wf_def AgentSpec_wf_def AgentStatus_wf_def ToolSet_wf_def one_pointer_wf_def
      gomap_wf_def)

subsection \<open>Properties\<close>

text \<open>C15: A copied Agent and its original share no memory. \<^verbatim>\<open>DeepCopy\<close> gives a new Agent that reads as the
  original did; code that can reach everything that existed before the copy, and whatever it allocates,
  changes nothing the copy reads as; and code that can reach the copy, and whatever it allocates, changes
  nothing the original reads as. The labels, the storage class, the pins and the conditions are all behind
  pointers, and all of them are covered.\<close>

theorem Agent_DeepCopy_isolated:
  assumes "kube_copies k" and "Agent_wf k h v" and "Agent_DeepCopy k h (Some v) = (p, h')"
  shows "\<exists>b w. p = Some b \<and> hp_agents h' b = [w] \<and> Agent_read k h' w = Agent_read k h v
    \<and> (\<forall>A B h''. A \<subseteq> {..<hp_next h} \<longrightarrow> holds A h' B h'' \<longrightarrow>
         hp_agents h'' b = [w] \<and> Agent_read k h'' w = Agent_read k h v)
    \<and> (\<forall>A B h''. A \<subseteq> {hp_next h..} \<longrightarrow> holds A h' B h'' \<longrightarrow> Agent_read k h'' v = Agent_read k h v)"
proof -
  note A = Agent_deep_copier [OF assms(1)]
  let ?b = "hp_next h"
  from Agent_DeepCopy_cell [OF assms] obtain w where
    p: "p = Some ?b" "extends h h'" "?b < hp_next h'" and w: "hp_agents h' ?b = [w]" "Agent_wf k h' w"
      "Agent_read k h' w = Agent_read k h v" "Agent_reach k h' w \<subseteq> {Suc ?b..<hp_next h'}" by blast
  from w(4) have reach: "Agent_reach k h' w \<subseteq> {?b..<hp_next h'}" by fastforce
  have "hp_agents h'' ?b = [w]" if "A \<subseteq> {..<?b}" "holds A h' B h''" for A B h''
  proof -
    have "?b \<in> {..<hp_next h'} - A" using that(1) p(3) by auto
    with holds_frame [OF that(2)] w(1) show ?thesis by (simp add: agree_def)
  qed
  then show ?thesis
    using p w copy_outlives_writes [OF A w(2) reach] original_outlives_writes [OF A assms(2) p(2)] by metis
qed

theorem Agent_DeepCopy_isolated_witness:
  "\<exists>p h' b w. Agent_DeepCopy demo_kube demo_heap (Some demo_agent_struct) = (p, h') \<and> p = Some b
     \<and> hp_agents h' b = [w] \<and> Agent_read demo_kube h' w = Agent_read demo_kube demo_heap demo_agent_struct
     \<and> (\<forall>cs. let h'' = h'\<lparr>hp_conditions := (hp_conditions h')(2 := cs)\<rparr> in
          Agent_read demo_kube h'' w = Agent_read demo_kube demo_heap demo_agent_struct)"
proof -
  obtain p h' where run: "Agent_DeepCopy demo_kube demo_heap (Some demo_agent_struct) = (p, h')" by fastforce
  have reach: "holds {2} h' {2} (h'\<lparr>hp_conditions := (hp_conditions h')(2 := cs)\<rparr>)" for cs
    by (rule holds_write [OF holds_start]) (simp_all add: agree_def)
  have "{2::nat} \<subseteq> {..<hp_next demo_heap}" by (simp add: demo_heap_def)
  with Agent_DeepCopy_isolated [OF demo_kube_copies demo_agent_wf run] reach run show ?thesis
    unfolding Let_def by metis
qed

text \<open>What is copied is copied by \<^verbatim>\<open>DeepCopyObject\<close> too, and nil stays nil. A nil Agent or list of Agents
  gives the nil interface and not an interface holding a nil pointer; a list of Agents gives a pointer to a
  new list that reads as the original, item by item, and leads only to memory that did not exist before,
  whose items no writer to the original's memory changes.\<close>

theorem AgentList_DeepCopyObject_isolated:
  assumes "kube_copies k" and "AgentList_wf k h v" and "AgentList_DeepCopyObject k h (Some v) = (p, h')"
  shows "Agent_DeepCopyObject k h None = (None, h) \<and> AgentList_DeepCopyObject k h None = (None, h)
    \<and> (\<exists>b. p = Some (AgentListObject (Some b)) \<and> AgentList_read k h' (hp_lists h' b) = AgentList_read k h v
         \<and> AgentList_read k h' v = AgentList_read k h v \<and> hp_next h \<le> b
         \<and> AgentList_reach k h' (hp_lists h' b) \<inter> {..<hp_next h} = {}
         \<and> (\<forall>A B h''. A \<subseteq> {..<hp_next h} \<longrightarrow> holds A h' B h'' \<longrightarrow>
              AgentList_read k h'' (hp_lists h' b) = AgentList_read k h v))"
proof -
  note L = AgentList_deep_copier [OF assms(1)]
  let ?b = "hp_next h" and ?w = "hp_lists h' (hp_next h)"
  obtain c where c: "AgentList_DeepCopy k h (Some v) = (c, h')"
    using assms(3) by (auto simp: AgentList_DeepCopyObject_def split: prod.splits if_splits)
  from AgentList_DeepCopy_cell [OF assms(1,2) c] have
    cell: "c = Some ?b" "extends h h'" "AgentList_wf k h' ?w" "AgentList_read k h' ?w = AgentList_read k h v"
      "AgentList_reach k h' ?w \<subseteq> {Suc ?b..<hp_next h'}" by blast+
  from cell(5) have reach: "AgentList_reach k h' ?w \<subseteq> {?b..<hp_next h'}" by fastforce
  then have apart: "AgentList_reach k h' ?w \<inter> {..<hp_next h} = {}" by fastforce
  have p: "p = Some (AgentListObject (Some ?b))" using assms(3) c cell(1) by (simp add: AgentList_DeepCopyObject_def)
  have none: "Agent_DeepCopyObject k h None = (None, h)" "AgentList_DeepCopyObject k h None = (None, h)"
    by (simp_all add: Agent_DeepCopyObject_def Agent_DeepCopy_def AgentList_DeepCopyObject_def AgentList_DeepCopy_def)
  have kept: "AgentList_read k h'' ?w = AgentList_read k h v" if "A \<subseteq> {..<?b}" "holds A h' B h''" for A B h''
    using copy_outlives_writes [OF L cell(3) reach that(2,1)] cell(4) by simp
  have "AgentList_read k h' v = AgentList_read k h v" using deep_copier.frame_extends [OF L cell(2) assms(2)] by simp
  with p none cell(4) apart kept show ?thesis by blast
qed

definition demo_list_heap :: heap where
  "demo_list_heap = demo_heap\<lparr>hp_next := 5, hp_agents := (\<lambda>a. if a = 4 then [demo_agent_struct, zero_agent] else [])\<rparr>"

definition demo_list_struct :: AgentListStruct where
  "demo_list_struct = zero_list\<lparr>als_Items := Some (whole 4 2)\<rparr>"

lemma demo_list_wf: "AgentList_wf demo_kube demo_list_heap demo_list_struct"
  by (simp add: demo_list_heap_def demo_list_struct_def zero_list_def demo_structs AgentList_wf_def list_items_def
      Agent_wf_def AgentSpec_wf_def AgentStatus_wf_def ToolSet_wf_def one_pointer_wf_def gomap_wf_def elements_def whole_def in_array_def)

theorem AgentList_DeepCopyObject_isolated_witness:
  "\<exists>p h' b. AgentList_DeepCopyObject demo_kube demo_list_heap (Some demo_list_struct) = (p, h')
     \<and> p = Some (AgentListObject (Some b))
     \<and> AgentList_read demo_kube h' (hp_lists h' b) = AgentList_read demo_kube demo_list_heap demo_list_struct"
proof -
  obtain p h' where run: "AgentList_DeepCopyObject demo_kube demo_list_heap (Some demo_list_struct) = (p, h')" by fastforce
  from AgentList_DeepCopyObject_isolated [OF demo_kube_copies demo_list_wf run] run show ?thesis by metis
qed

end
