(* ===== verification/Reconcile_Memory.thy ===== *)
theory Reconcile_Memory
  imports Controller Deep_Copy
begin

text \<open>
  The reconciler as the pointer program it is. Theory \<open>Controller\<close> reads \<^verbatim>\<open>Reconcile\<close> over Agents that are
  values; the code keeps one Agent in memory, copies it with \<^verbatim>\<open>DeepCopy\<close>, sets conditions through a pointer
  into the first and compares the two at the end (\<^verbatim>\<open>agent_controller.go\<close>, \<^verbatim>\<open>agent_status.go\<close>). Here the same
  code runs over the memory of \<open>Deep_Copy\<close>, and the two are shown to make the same calls with the same
  outcome. Were the copy shallow, setting a condition in place would change both Agents, the comparison
  would find them equal, and nothing would be written.

  Two parts of Kubernetes' libraries are parameters: how an answer of the API server is loaded into memory,
  and \<^verbatim>\<open>meta.SetStatusCondition\<close> on a slice in memory.
\<close>

record memory_lib =
  ml_kube :: kube
  ml_load :: "heap \<Rightarrow> Agent \<Rightarrow> AgentStruct \<times> heap"
  ml_setStatusCondition :: "history \<Rightarrow> heap \<Rightarrow> slice option \<Rightarrow> Condition \<Rightarrow> slice option \<times> heap"

text \<open>The Agent a pointer reads as.\<close>

definition struct_at :: "heap \<Rightarrow> addr \<Rightarrow> AgentStruct" where
  "struct_at heap a = hd (hp_agents heap a)"

definition agent_at :: "memory_lib \<Rightarrow> heap \<Rightarrow> addr \<Rightarrow> Agent" where
  "agent_at ml heap a = snd (Agent_read (ml_kube ml) heap (struct_at heap a))"

definition put_struct :: "addr \<Rightarrow> AgentStruct \<Rightarrow> heap \<Rightarrow> heap" where
  "put_struct a x heap = heap\<lparr>hp_agents := (hp_agents heap)(a := [x])\<rparr>"

subsection \<open>The code\<close>

definition set_condition_at :: "memory_lib \<Rightarrow> addr \<Rightarrow> Condition \<Rightarrow> heap \<Rightarrow> (history, heap) state" where
  "set_condition_at ml a c heap =
     State (\<lambda>h.
       let x = struct_at heap a;
           (cs, heap) = ml_setStatusCondition ml h heap (sts_Conditions (ags_Status x)) c
       in (put_struct a (x\<lparr>ags_Status := (ags_Status x)\<lparr>sts_Conditions := cs\<rparr>\<rparr>) heap, h))"

definition setSynced_at ::
  "memory_lib \<Rightarrow> addr \<Rightarrow> ConditionStatus \<Rightarrow> string \<Rightarrow> string \<Rightarrow> heap \<Rightarrow> (history, heap) state" where
  "setSynced_at ml a st reason message heap =
     set_condition_at ml a (condition (agent_at ml heap a) ConditionSynced st reason message) heap"

definition setAvailable_at ::
  "memory_lib \<Rightarrow> addr \<Rightarrow> ConditionStatus \<Rightarrow> string \<Rightarrow> string \<Rightarrow> heap \<Rightarrow> (history, heap) state" where
  "setAvailable_at ml a st reason message heap =
     set_condition_at ml a (condition (agent_at ml heap a) ConditionAvailable st reason message) heap"

definition setAvailableFromWorkload_at :: "memory_lib \<Rightarrow> addr \<Rightarrow> StatefulSet \<Rightarrow> heap \<Rightarrow> (history, heap) state" where
  "setAvailableFromWorkload_at ml a ss heap =
     (if ss_ReadyReplicas ss > 0
      then setAvailable_at ml a ConditionTrue ReasonReplicaReady
        (''StatefulSet '' @ quoted (om_Name (ss_Meta ss)) @ '' reports its replica ready. The workload carries no readiness probe, ''
         @ ''so this says the agent's containers are running and nothing about whether the agent inside them works'') heap
      else setAvailable_at ml a ConditionFalse ReasonReplicaNotReady
        (''StatefulSet '' @ quoted (om_Name (ss_Meta ss)) @ '' reports no ready replica. This covers a replica still starting as ''
         @ ''much as one that cannot start, and does not say which'') heap)"

definition reconcileWorkload_at ::
  "memory_lib \<Rightarrow> env \<Rightarrow> AgentReconciler \<Rightarrow> addr \<Rightarrow> heap \<Rightarrow> (history, error + heap) state" where
  "reconcileWorkload_at ml env r a heap = do {
     e \<leftarrow> credentialsExist env (credentials_key (agent_at ml heap a));
     (case e of
        Inl err \<Rightarrow>
          if IsNotFound err then do {
            heap \<leftarrow> setSynced_at ml a ConditionFalse ReasonCredentialsSecretMissing
              (''Secret '' @ quoted (snd (credentials_key (agent_at ml heap a)))
               @ '' does not exist, and the workload is not built until it does'') heap;
            heap \<leftarrow> setAvailable_at ml a ConditionUnknown ReasonWorkloadNotObserved
              (''The workload was not reconciled, so its readiness was not observed. ''
               @ ''The Synced condition says why'') heap;
            State_Monad.return (Inr heap)
          }
          else State_Monad.return (Inl (Wrapped ''get credentials secret'' err))
      | Inr u \<Rightarrow> do {
          s \<leftarrow> reconcileStatefulSet env r (agent_at ml heap a);
          (case s of
             Inl err \<Rightarrow> State_Monad.return (Inl err)
           | Inr ss \<Rightarrow> do {
               heap \<leftarrow>
                 (let size = as_StorageSize (ag_Spec (agent_at ml heap a)) in
                  if quantityCmp env (claimedStorageSize ss) size \<noteq> 0
                  then setSynced_at ml a ConditionFalse ReasonStorageSizeImmutable
                    (''The volume was claimed at '' @ quantityString env (claimedStorageSize ss)
                     @ '' and spec.storageSize now asks for '' @ quantityString env size
                     @ '', which a StatefulSet's claim template cannot be changed to'') heap
                  else setSynced_at ml a ConditionTrue ReasonWorkloadReconciled
                    (''StatefulSet '' @ quoted (om_Name (ss_Meta ss)) @ '' carries what this Agent's spec asks for'') heap);
               heap \<leftarrow> setAvailableFromWorkload_at ml a ss heap;
               State_Monad.return (Inr heap)
             })
        })
   }"

definition set_observed_generation :: "memory_lib \<Rightarrow> addr \<Rightarrow> heap \<Rightarrow> heap" where
  "set_observed_generation ml a heap =
     (let x = struct_at heap a in
      put_struct a (x\<lparr>ags_Status := (ags_Status x)
        \<lparr>sts_ObservedGeneration := om_Generation (ag_Meta (agent_at ml heap a))\<rparr>\<rparr>) heap)"

text \<open>
  \<^verbatim>\<open>var agent\<close> is a cell; the answer is loaded into it. The comparison and the patch at the end read both
  Agents as they are in memory then.
\<close>

definition Reconcile_at ::
  "memory_lib \<Rightarrow> env \<Rightarrow> AgentReconciler \<Rightarrow> object_key \<Rightarrow> heap \<Rightarrow> (history, error + unit) state" where
  "Reconcile_at ml env r req heap = do {
     let (a, heap) = make_agents 1 heap;
     g \<leftarrow> call (\<lambda>h. getAgent env h req) (GetAgent req);
     (case g of
        Inl e \<Rightarrow>
          if IsNotFound e then State_Monad.return (Inr ())
          else State_Monad.return (Inl (Wrapped ''get agent'' e))
      | Inr answered \<Rightarrow>
          (let (x, heap) = ml_load ml heap answered;
               heap = put_struct a x heap;
               (held, heap) = Agent_DeepCopy (ml_kube ml) heap (Some (struct_at heap a))
           in do {
             w \<leftarrow> reconcileWorkload_at ml env r a heap;
             (case w of
                Inl e \<Rightarrow> State_Monad.return (Inl e)
              | Inr heap \<Rightarrow>
                  (let heap = set_observed_generation ml a heap
                   in writeStatus env (agent_at ml heap a) (agent_at ml heap (the held))))
           }))
   }"

subsection \<open>What the two libraries do\<close>

definition slice_read :: "heap \<Rightarrow> slice option \<Rightarrow> Condition list" where
  "slice_read heap p = (case p of None \<Rightarrow> [] | Some s \<Rightarrow> elements (hp_conditions heap (sl_array s)) s)"

definition slice_arrays :: "slice option \<Rightarrow> addr set" where
  "slice_arrays p = sl_array ` set_option p"

definition slice_ok :: "heap \<Rightarrow> slice option \<Rightarrow> bool" where
  "slice_ok heap p \<longleftrightarrow>
     (\<forall>s\<in>set_option p. sl_array s < hp_next heap \<and> in_array (hp_conditions heap (sl_array s)) s)"

text \<open>
  \<^verbatim>\<open>SetStatusCondition\<close> sets the condition in the conditions it is given, in place or in an array it
  allocates. Loading an answer writes new memory only, and gives each pointer an address of its own.
\<close>

definition sets_in_memory :: "memory_lib \<Rightarrow> env \<Rightarrow> bool" where
  "sets_in_memory ml env \<longleftrightarrow>
     (\<forall>h heap p c p' heap'. ml_setStatusCondition ml h heap p c = (p', heap') \<longrightarrow> slice_ok heap p \<longrightarrow>
        slice_ok heap' p' \<and> slice_read heap' p' = setStatusCondition env h (slice_read heap p) c
        \<and> (\<exists>B. holds (slice_arrays p) heap B heap' \<and> slice_arrays p' \<subseteq> B))"

definition loads :: "memory_lib \<Rightarrow> Agent \<Rightarrow> bool" where
  "loads ml agent \<longleftrightarrow>
     (\<forall>heap x heap'. ml_load ml heap agent = (x, heap') \<longrightarrow>
        extends heap heap' \<and> Agent_wf (ml_kube ml) heap' x \<and> snd (Agent_read (ml_kube ml) heap' x) = agent
        \<and> Agent_reach (ml_kube ml) heap' x \<subseteq> {hp_next heap..<hp_next heap'}
        \<and> AgentStatus_reach heap' (ags_Status x)
            \<inter> (k_reach (ml_kube ml) heap' (ags_ObjectMeta x) \<union> AgentSpec_reach (ml_kube ml) heap' (ags_Spec x)) = {})"

subsection \<open>The invariant of the two Agents\<close>

text \<open>
  \<open>apart ml v a b heap\<close>: the cells \<open>a\<close> and \<open>b\<close> hold one Agent each, the one at \<open>b\<close> reads as \<open>v\<close>, and the
  conditions of the one at \<open>a\<close> are in an array that neither the rest of it nor the other Agent leads to.
\<close>

definition apart :: "memory_lib \<Rightarrow> Agent \<Rightarrow> addr \<Rightarrow> addr \<Rightarrow> heap \<Rightarrow> bool" where
  "apart ml v a b heap \<longleftrightarrow>
     (let k = ml_kube ml; x = struct_at heap a; w = struct_at heap b; S = AgentStatus_reach heap (ags_Status x) in
      Agent_wf k heap x \<and> Agent_wf k heap w \<and> agent_at ml heap b = v
      \<and> a < hp_next heap \<and> b < hp_next heap \<and> a \<noteq> b \<and> b \<notin> S \<and> a \<notin> Agent_reach k heap x
      \<and> S \<inter> (k_reach k heap (ags_ObjectMeta x) \<union> AgentSpec_reach k heap (ags_Spec x)) = {}
      \<and> insert a S \<inter> Agent_reach k heap w = {})"

lemma kube_parts:
  assumes "kube_copies k"
  shows "deep_copier (k_objectMetaDeepCopyInto k) (k_readObjectMeta k) (k_reach k) (k_wf k)"
    and "deep_copier (AgentSpec_DeepCopyInto k) (AgentSpec_read k) (AgentSpec_reach k) (AgentSpec_wf k)"
    and "deep_copier (AgentStatus_DeepCopyInto k) AgentStatus_read AgentStatus_reach AgentStatus_wf"
  using assms AgentSpec_deep_copier AgentStatus_deep_copier by (simp_all add: kube_copies_def)

text \<open>Whatever writes the status of the Agent at \<open>a\<close>, in its own array or in new ones, keeps the invariant and
  changes of the value at \<open>a\<close> the status alone.\<close>

lemma status_write:
  assumes k: "kube_copies (ml_kube ml)" and inv: "apart ml v a b heap"
    and frame: "agree heap heap' ({..<hp_next heap} - insert a (AgentStatus_reach heap (ags_Status (struct_at heap a))))"
    and limit: "hp_next heap \<le> hp_next heap'"
    and cell: "struct_at heap' a = (struct_at heap a)\<lparr>ags_Status := st\<rparr>"
    and st: "AgentStatus_wf heap' st" "AgentStatus_reach heap' st
        \<subseteq> AgentStatus_reach heap (ags_Status (struct_at heap a)) \<union> {hp_next heap..<hp_next heap'}"
  shows "apart ml v a b heap' \<and> agent_at ml heap' a = (agent_at ml heap a)\<lparr>ag_Status := AgentStatus_read heap' st\<rparr>"
proof -
  let ?k = "ml_kube ml" and ?x = "struct_at heap a" and ?w = "struct_at heap b"
  let ?S = "AgentStatus_reach heap (ags_Status ?x)"
  note D = kube_parts [OF k] and A = Agent_deep_copier [OF k]
  have wf: "k_wf ?k heap (ags_ObjectMeta ?x)" "AgentSpec_wf ?k heap (ags_Spec ?x)" "Agent_wf ?k heap ?w"
    and lt: "a < hp_next heap" "b < hp_next heap" "a \<noteq> b" "b \<notin> ?S"
    and sep: "?S \<inter> k_reach ?k heap (ags_ObjectMeta ?x) = {}" "?S \<inter> AgentSpec_reach ?k heap (ags_Spec ?x) = {}"
      "a \<notin> k_reach ?k heap (ags_ObjectMeta ?x)" "a \<notin> AgentSpec_reach ?k heap (ags_Spec ?x)" "a \<notin> ?S"
      "insert a ?S \<inter> Agent_reach ?k heap ?w = {}"
    using inv by (auto simp: apart_def Let_def Agent_wf_def Agent_reach_def)
  have below: "agree heap heap' R" if "R \<subseteq> {..<hp_next heap}" "insert a ?S \<inter> R = {}" for R
    by (rule agree_mono [OF frame]) (use that in auto)
  note reach = deep_copier.wf_reach [OF D(1) wf(1)] deep_copier.wf_reach [OF D(2) wf(2)] deep_copier.wf_reach [OF A wf(3)]
  have meta: "k_wf ?k heap' (ags_ObjectMeta ?x) \<and> k_reach ?k heap' (ags_ObjectMeta ?x) = k_reach ?k heap (ags_ObjectMeta ?x)
      \<and> k_readObjectMeta ?k heap' (ags_ObjectMeta ?x) = k_readObjectMeta ?k heap (ags_ObjectMeta ?x)"
    by (rule deep_copier.frame [OF D(1) below limit wf(1)]) (use reach sep in auto)
  have spec: "AgentSpec_wf ?k heap' (ags_Spec ?x) \<and> AgentSpec_reach ?k heap' (ags_Spec ?x) = AgentSpec_reach ?k heap (ags_Spec ?x)
      \<and> AgentSpec_read ?k heap' (ags_Spec ?x) = AgentSpec_read ?k heap (ags_Spec ?x)"
    by (rule deep_copier.frame [OF D(2) below limit wf(2)]) (use reach sep in auto)
  have held: "Agent_wf ?k heap' ?w \<and> Agent_reach ?k heap' ?w = Agent_reach ?k heap ?w
      \<and> Agent_read ?k heap' ?w = Agent_read ?k heap ?w"
    by (rule deep_copier.frame [OF A below limit wf(3)]) (use reach sep in auto)
  have "hp_agents heap' b = hp_agents heap b" using below [of "{b}"] lt by (simp add: agree_def)
  then have w: "struct_at heap' b = ?w" by (simp add: struct_at_def)
  have fresh: "AgentStatus_reach heap' st \<inter> R = {}" if "R \<subseteq> {..<hp_next heap}" "?S \<inter> R = {}" for R
    using that st(2) by fastforce
  have "agent_at ml heap' a = (agent_at ml heap a)\<lparr>ag_Status := AgentStatus_read heap' st\<rparr>"
    using cell meta spec by (simp add: agent_at_def Agent_read_def)
  moreover have "apart ml v a b heap'"
    unfolding apart_def Let_def w cell
    using inv meta spec held st(1) lt limit sep fresh [OF reach(1) sep(1)] fresh [OF reach(2) sep(2)]
      fresh [OF reach(3)] fresh [of "{a}"] fresh [of "{b}"]
    by (auto simp: apart_def Let_def Agent_wf_def Agent_reach_def agent_at_def w)
  ultimately show ?thesis by blast
qed

lemma struct_at_put [simp]: "struct_at (put_struct a x heap) b = (if b = a then x else struct_at heap b)"
  by (simp add: struct_at_def put_struct_def)

lemma agree_put_struct: "a \<notin> R \<Longrightarrow> agree heap (put_struct a x heap) R"
  by (auto simp: agree_def put_struct_def)

lemma next_put_struct [simp]: "hp_next (put_struct a x heap) = hp_next heap"
  by (simp add: put_struct_def)

lemma status_put_struct [simp]:
  "AgentStatus_read (put_struct a x heap) = AgentStatus_read heap"
  "AgentStatus_wf (put_struct a x heap) = AgentStatus_wf heap"
  "AgentStatus_reach (put_struct a x heap) = AgentStatus_reach heap"
  by (auto simp: fun_eq_iff AgentStatus_read_def AgentStatus_wf_def AgentStatus_reach_def put_struct_def
      split: option.splits)

lemma set_condition_at_refines:
  assumes "kube_copies (ml_kube ml)" and "sets_in_memory ml env" and inv: "apart ml v a b heap"
  shows "\<exists>heap'. run_state (set_condition_at ml a c heap) h = (heap', h) \<and> apart ml v a b heap'
    \<and> run_state (set_condition env (agent_at ml heap a) c) h = (agent_at ml heap' a, h)"
proof -
  let ?x = "struct_at heap a"
  let ?p = "sts_Conditions (ags_Status ?x)"
  obtain p' heap1 where set: "ml_setStatusCondition ml h heap ?p c = (p', heap1)" by fastforce
  have "slice_ok heap ?p" using inv by (simp add: apart_def Let_def Agent_wf_def AgentStatus_wf_def slice_ok_def)
  with assms(2) set obtain B where ok: "slice_ok heap1 p'"
    and read: "slice_read heap1 p' = setStatusCondition env h (slice_read heap ?p) c"
    and holds: "holds (slice_arrays ?p) heap B heap1" "slice_arrays p' \<subseteq> B"
    unfolding sets_in_memory_def by blast
  have S: "slice_arrays ?p = AgentStatus_reach heap (ags_Status ?x)"
    by (simp add: slice_arrays_def AgentStatus_reach_def)
  note f = holds_frame [OF holds(1)]
  let ?st = "(ags_Status ?x)\<lparr>sts_Conditions := p'\<rparr>"
  let ?heap' = "put_struct a (?x\<lparr>ags_Status := ?st\<rparr>) heap1"
  have "apart ml v a b ?heap' \<and> agent_at ml ?heap' a = (agent_at ml heap a)\<lparr>ag_Status := AgentStatus_read ?heap' ?st\<rparr>"
  proof (rule status_write [OF assms(1) inv])
    let ?R = "{..<hp_next heap} - insert a (AgentStatus_reach heap (ags_Status ?x))"
    have "agree heap heap1 ?R" by (rule agree_mono [of _ _ "{..<hp_next heap} - slice_arrays ?p"]) (use f S in auto)
    then show "agree heap ?heap' ?R" by (rule agree_trans) (simp add: agree_put_struct)
    show "AgentStatus_wf ?heap' ?st" using ok by (simp add: slice_ok_def AgentStatus_wf_def)
    show "AgentStatus_reach ?heap' ?st \<subseteq> AgentStatus_reach heap (ags_Status ?x) \<union> {hp_next heap..<hp_next ?heap'}"
      using f holds(2) S by (auto simp: AgentStatus_reach_def slice_arrays_def)
  qed (use f in simp_all)
  moreover have "AgentStatus_read ?heap' ?st = (ag_Status (agent_at ml heap a))
      \<lparr>st_Conditions := setStatusCondition env h (st_Conditions (ag_Status (agent_at ml heap a))) c\<rparr>"
    using read by (simp add: AgentStatus_read_def agent_at_def Agent_read_def slice_read_def)
  ultimately show ?thesis by (simp add: set_condition_at_def run_simps set Let_def)
qed

subsection \<open>The pointer program implements the value program\<close>

definition implements ::
  "memory_lib \<Rightarrow> Agent \<Rightarrow> addr \<Rightarrow> addr \<Rightarrow> (heap \<Rightarrow> (history, heap) state) \<Rightarrow> (Agent \<Rightarrow> (history, Agent) state) \<Rightarrow> bool" where
  "implements ml v a b m n \<longleftrightarrow>
     (\<forall>heap h. apart ml v a b heap \<longrightarrow>
        (\<exists>heap'. run_state (m heap) h = (heap', h) \<and> apart ml v a b heap'
           \<and> run_state (n (agent_at ml heap a)) h = (agent_at ml heap' a, h)))"

lemma implementsE:
  assumes "implements ml v a b m n" and "apart ml v a b heap"
  obtains heap' where "run_state (m heap) h = (heap', h)" "apart ml v a b heap'"
    "run_state (n (agent_at ml heap a)) h = (agent_at ml heap' a, h)"
  using assms unfolding implements_def by blast

lemma setters_implement:
  assumes "kube_copies (ml_kube ml)" and "sets_in_memory ml env"
  shows "implements ml v a b (setSynced_at ml a st reason message) (\<lambda>ag. setSynced env ag st reason message)"
    and "implements ml v a b (setAvailable_at ml a st reason message) (\<lambda>ag. setAvailable env ag st reason message)"
    and "implements ml v a b (setAvailableFromWorkload_at ml a ss) (\<lambda>ag. setAvailableFromWorkload env ag ss)"
  using set_condition_at_refines [OF assms]
  by (simp_all add: implements_def setSynced_at_def setSynced_def setAvailable_at_def setAvailable_def
      setAvailableFromWorkload_at_def setAvailableFromWorkload_def)

text \<open>The results agree, an error with the same error and a heap with the Agent it holds.\<close>

definition same_outcome ::
  "memory_lib \<Rightarrow> Agent \<Rightarrow> addr \<Rightarrow> addr \<Rightarrow> (error + heap) \<times> history \<Rightarrow> (error + Agent) \<times> history \<Rightarrow> bool" where
  "same_outcome ml v a b p q \<longleftrightarrow>
     snd p = snd q \<and> (case fst p of Inl e \<Rightarrow> fst q = Inl e | Inr heap \<Rightarrow> fst q = Inr (agent_at ml heap a) \<and> apart ml v a b heap)"

lemma same_outcome_error:
  "same_outcome ml v a b (run_state (State_Monad.return (Inl e)) h) (run_state (State_Monad.return (Inl e)) h)"
  by (simp add: same_outcome_def run_simps)

text \<open>Two setters, one after the other.\<close>

lemma same_outcome_setters:
  assumes "implements ml v a b m n" and "implements ml v a b m' n'" and "apart ml v a b heap"
  shows "same_outcome ml v a b
    (run_state (State_Monad.bind (m heap) (\<lambda>heap. State_Monad.bind (m' heap) (\<lambda>heap. State_Monad.return (Inr heap)))) h)
    (run_state (State_Monad.bind (n (agent_at ml heap a)) (\<lambda>ag. State_Monad.bind (n' ag) (\<lambda>ag. State_Monad.return (Inr ag)))) h)"
proof -
  from assms(1,3) obtain h1 where 1: "run_state (m heap) h = (h1, h)" "apart ml v a b h1"
    "run_state (n (agent_at ml heap a)) h = (agent_at ml h1 a, h)" by (rule implementsE)
  from assms(2) 1(2) obtain h2 where "run_state (m' h1) h = (h2, h)" "apart ml v a b h2"
    "run_state (n' (agent_at ml h1 a)) h = (agent_at ml h2 a, h)" by (rule implementsE)
  with 1 show ?thesis by (simp add: run_simps same_outcome_def)
qed

lemma reconcileWorkload_at_refines:
  assumes k: "kube_copies (ml_kube ml)" and set: "sets_in_memory ml env" and inv: "apart ml v a b heap"
  shows "same_outcome ml v a b (run_state (reconcileWorkload_at ml env r a heap) h)
    (run_state (reconcileWorkload env r (agent_at ml heap a)) h)"
proof -
  let ?ag = "agent_at ml heap a"
  note S = setters_implement [OF k set, of v a b]
  let ?key = "credentials_key ?ag"
  obtain e t where run: "run_state (credentialsExist env ?key) h = (e, t)" by fastforce
  show ?thesis
  proof (cases e)
    case (Inl err)
    then show ?thesis
      unfolding reconcileWorkload_at_def reconcileWorkload_def run_bind [of "credentialsExist env ?key"] run prod.case
      by (cases "IsNotFound err")
        (simp_all only: sum.case if_True if_False same_outcome_error same_outcome_setters [OF S(1,2) inv])
  next
    case ok: (Inr u)
    obtain s t' where s: "run_state (reconcileStatefulSet env r ?ag) t = (s, t')" by fastforce
    note steps = reconcileWorkload_at_def reconcileWorkload_def run_bind [of "credentialsExist env ?key"] run prod.case
      ok sum.case run_bind [of "reconcileStatefulSet env r ?ag"] s Let_def
    show ?thesis
    proof (cases s)
      case (Inl err)
      show ?thesis unfolding steps Inl by (simp only: sum.case same_outcome_error)
    next
      case (Inr ss)
      show ?thesis
        unfolding steps Inr sum.case
        by (cases "quantityCmp env (claimedStorageSize ss) (as_StorageSize (ag_Spec ?ag)) \<noteq> 0")
          (simp_all only: simp_thms if_True if_False same_outcome_setters [OF S(1,3) inv])
    qed
  qed
qed

text \<open>After the load and the copy, the two Agents are apart and both read as what was answered.\<close>

lemma loaded_apart:
  assumes k: "kube_copies (ml_kube ml)" and "loads ml answered"
    and var: "make_agents 1 heap0 = (a, heap1)" and load: "ml_load ml heap1 answered = (x, heap2)"
    and copy: "Agent_DeepCopy (ml_kube ml) (put_struct a x heap2) (Some x) = (held, heap3)"
  shows "agent_at ml heap3 a = answered \<and> (\<exists>b. held = Some b \<and> apart ml answered a b heap3)"
proof -
  let ?k = "ml_kube ml" and ?h = "put_struct a x heap2"
  note A = Agent_deep_copier [OF k]
  have a: "hp_next heap1 = Suc a" using var by (auto simp: make_agents_def)
  have ext: "extends heap1 heap2" and wf2: "Agent_wf ?k heap2 x" and read2: "snd (Agent_read ?k heap2 x) = answered"
    and fresh: "Agent_reach ?k heap2 x \<subseteq> {Suc a..<hp_next heap2}"
    and sep: "AgentStatus_reach heap2 (ags_Status x)
      \<inter> (k_reach ?k heap2 (ags_ObjectMeta x) \<union> AgentSpec_reach ?k heap2 (ags_Spec x)) = {}"
    using assms(2) load a unfolding loads_def by metis+
  have lt: "a < hp_next heap2" using ext a by (simp add: extends_def)
  have put: "Agent_wf ?k ?h x \<and> Agent_reach ?k ?h x = Agent_reach ?k heap2 x \<and> Agent_read ?k ?h x = Agent_read ?k heap2 x"
    by (rule deep_copier.frame [OF A _ _ wf2]) (use fresh in \<open>auto intro!: agree_put_struct\<close>)
  let ?b = "hp_next ?h"
  from Agent_DeepCopy_cell [OF k _ copy] put obtain w where
    c: "held = Some ?b" "extends ?h heap3" "?b < hp_next heap3" and w: "hp_agents heap3 ?b = [w]" "Agent_wf ?k heap3 w"
      "Agent_read ?k heap3 w = Agent_read ?k heap2 x" "Agent_reach ?k heap3 w \<subseteq> {Suc ?b..<hp_next heap3}" by auto
  have x3: "Agent_wf ?k heap3 x \<and> Agent_reach ?k heap3 x = Agent_reach ?k heap2 x \<and> Agent_read ?k heap3 x = Agent_read ?k heap2 x"
    using deep_copier.frame_extends [OF A c(2)] put by simp
  have cell: "struct_at heap3 a = x" "struct_at heap3 ?b = w"
    using c(2) lt w(1) by (simp_all add: struct_at_def extends_def agree_def) (simp add: put_struct_def)
  note D = kube_parts [OF k]
  have same: "AgentStatus_reach heap3 (ags_Status x) = AgentStatus_reach heap2 (ags_Status x)"
    by (simp add: AgentStatus_reach_def)
  have body: "k_reach ?k heap3 (ags_ObjectMeta x) \<union> AgentSpec_reach ?k heap3 (ags_Spec x)
      = k_reach ?k heap2 (ags_ObjectMeta x) \<union> AgentSpec_reach ?k heap2 (ags_Spec x)"
  proof -
    have parts: "k_wf ?k heap2 (ags_ObjectMeta x)" "AgentSpec_wf ?k heap2 (ags_Spec x)" using wf2 by (simp_all add: Agent_wf_def)
    have p2: "agree heap2 ?h (k_reach ?k heap2 (ags_ObjectMeta x))" "agree heap2 ?h (AgentSpec_reach ?k heap2 (ags_Spec x))"
      using fresh by (auto simp: Agent_reach_def intro!: agree_put_struct)
    show ?thesis
      using deep_copier.frame [OF D(1) p2(1) _ parts(1)] deep_copier.frame [OF D(2) p2(2) _ parts(2)]
        deep_copier.frame_extends [OF D(1) c(2)] deep_copier.frame_extends [OF D(2) c(2)] by simp
  qed
  have below: "Agent_reach ?k heap2 x \<subseteq> {Suc a..<?b}" using fresh by simp
  then have status: "AgentStatus_reach heap2 (ags_Status x) \<subseteq> {Suc a..<?b}" by (auto simp: Agent_reach_def)
  have disj: "insert a (AgentStatus_reach heap2 (ags_Status x)) \<inter> Agent_reach ?k heap3 w = {}"
    using status w(4) lt by fastforce
  have "apart ml answered a ?b heap3"
    unfolding apart_def Let_def cell same body
    using x3 w(2,3) c(3) lt below status sep disj read2 cell by (auto simp: agent_at_def)
  then show ?thesis using c(1) cell x3 read2 by (simp add: agent_at_def)
qed

lemma set_observed_generation_refines:
  assumes "kube_copies (ml_kube ml)" and inv: "apart ml v a b heap"
  shows "apart ml v a b (set_observed_generation ml a heap) \<and> agent_at ml (set_observed_generation ml a heap) a
    = (agent_at ml heap a)\<lparr>ag_Status := (ag_Status (agent_at ml heap a))
        \<lparr>st_ObservedGeneration := om_Generation (ag_Meta (agent_at ml heap a))\<rparr>\<rparr>"
proof -
  let ?x = "struct_at heap a" and ?g = "om_Generation (ag_Meta (agent_at ml heap a))"
  let ?st = "(ags_Status ?x)\<lparr>sts_ObservedGeneration := ?g\<rparr>"
  let ?h = "put_struct a (?x\<lparr>ags_Status := ?st\<rparr>) heap"
  have "AgentStatus_wf heap ?st" using inv by (simp add: apart_def Let_def Agent_wf_def AgentStatus_wf_def)
  then have "apart ml v a b ?h \<and> agent_at ml ?h a = (agent_at ml heap a)\<lparr>ag_Status := AgentStatus_read ?h ?st\<rparr>"
    by (intro status_write [OF assms(1) inv]) (auto simp: AgentStatus_reach_def agree_put_struct)
  moreover have "AgentStatus_read ?h ?st = (ag_Status (agent_at ml heap a))\<lparr>st_ObservedGeneration := ?g\<rparr>"
    by (simp add: AgentStatus_read_def agent_at_def Agent_read_def)
  ultimately show ?thesis by (simp add: set_observed_generation_def Let_def)
qed

subsection \<open>A concrete memory\<close>

definition has_type :: "Condition \<Rightarrow> Condition \<Rightarrow> bool" where
  "has_type c d \<longleftrightarrow> cond_Type d = cond_Type c"

definition upsert :: "Condition list \<Rightarrow> Condition \<Rightarrow> Condition list" where
  "upsert cs c = (if list_ex (has_type c) cs then map (\<lambda>d. if has_type c d then c else d) cs else cs @ [c])"

text \<open>Replacing a condition in place, in the array the slice is in; adding one in a new array.\<close>

definition upsert_memory :: "heap \<Rightarrow> slice option \<Rightarrow> Condition \<Rightarrow> slice option \<times> heap" where
  "upsert_memory heap p c =
     (let cs = slice_read heap p; new = upsert cs c in
      case p of
        Some s \<Rightarrow>
          if list_ex (has_type c) cs
          then (p, heap\<lparr>hp_conditions := (hp_conditions heap)
                 (sl_array s := take (sl_off s) (hp_conditions heap (sl_array s)) @ new
                    @ drop (sl_off s + sl_len s) (hp_conditions heap (sl_array s)))\<rparr>)
          else (Some (whole (hp_next heap) (length new)),
                heap\<lparr>hp_next := Suc (hp_next heap), hp_conditions := (hp_conditions heap)(hp_next heap := new)\<rparr>)
      | None \<Rightarrow> (Some (whole (hp_next heap) (length new)),
                heap\<lparr>hp_next := Suc (hp_next heap), hp_conditions := (hp_conditions heap)(hp_next heap := new)\<rparr>))"

definition demo_loaded :: Agent where
  "demo_loaded =
     \<lparr>ag_Meta = object_meta [] ''a'',
      ag_Spec = \<lparr>as_Image = ''img'', as_CredentialsSecretName = ''s'', as_StorageSize = Quantity ''1Gi'',
                 as_StorageClassName = None, as_Resources = [], as_Tools = \<lparr>ats_Pins = []\<rparr>\<rparr>,
      ag_Status = empty_status\<lparr>st_Conditions := [demo_condition]\<rparr>\<rparr>"

definition demo_load :: "heap \<Rightarrow> Agent \<Rightarrow> AgentStruct \<times> heap" where
  "demo_load heap ag =
     (zero_agent\<lparr>ags_ObjectMeta := LibraryStruct (om_Name (ag_Meta ag)) [],
        ags_Spec := zero_spec\<lparr>ass_Image := as_Image (ag_Spec ag),
          ass_CredentialsSecretName := as_CredentialsSecretName (ag_Spec ag),
          ass_StorageSize := LibraryStruct (case as_StorageSize (ag_Spec ag) of Quantity q \<Rightarrow> q) []\<rparr>,
        ags_Status := zero_status\<lparr>sts_Conditions :=
          Some (whole (hp_next heap) (length (st_Conditions (ag_Status ag))))\<rparr>\<rparr>,
      heap\<lparr>hp_next := Suc (hp_next heap),
        hp_conditions := (hp_conditions heap)(hp_next heap := st_Conditions (ag_Status ag))\<rparr>)"

definition demo_memory :: memory_lib where
  "demo_memory = \<lparr>ml_kube = demo_kube, ml_load = demo_load, ml_setStatusCondition = (\<lambda>h. upsert_memory)\<rparr>"

definition demo_memory_env :: env where
  "demo_memory_env = refusing_env\<lparr>getAgent := (\<lambda>h k. Inr demo_loaded), getSecretMeta := (\<lambda>h k. Inl (ApiStatus NotFound ''s'')),
     setStatusCondition := (\<lambda>h. upsert)\<rparr>"

lemma demo_loads: "loads demo_memory demo_loaded"
  by (simp add: loads_def demo_memory_def demo_load_def demo_loaded_def demo_kube_def zero_agent_def zero_spec_def
      zero_status_def zero_tool_set_def extends_def agree_def Agent_wf_def AgentSpec_wf_def AgentStatus_wf_def ToolSet_wf_def
      Agent_read_def AgentSpec_read_def AgentStatus_read_def ToolSet_read_def Agent_reach_def AgentSpec_reach_def
      AgentStatus_reach_def ToolSet_reach_def one_pointer_wf_def one_pointer_reach_def pointed_def empty_status_def object_meta_def)

lemma demo_sets: "sets_in_memory demo_memory demo_memory_env"
  unfolding sets_in_memory_def
proof (intro allI impI)
  fix h :: history and heap p c p' heap'
  assume run: "ml_setStatusCondition demo_memory h heap p c = (p', heap')" and ok: "slice_ok heap p"
  let ?new = "upsert (slice_read heap p) c"
  show "slice_ok heap' p' \<and> slice_read heap' p' = setStatusCondition demo_memory_env h (slice_read heap p) c
      \<and> (\<exists>B. holds (slice_arrays p) heap B heap' \<and> slice_arrays p' \<subseteq> B)"
  proof (cases "\<exists>s. p = Some s \<and> list_ex (has_type c) (slice_read heap p)")
    case True
    then obtain s where s: "p = Some s" "list_ex (has_type c) (slice_read heap p)" by blast
    let ?arr = "hp_conditions heap (sl_array s)"
    have in': "sl_off s + sl_len s \<le> length ?arr" using ok s by (simp add: slice_ok_def in_array_def)
    have len: "length ?new = sl_len s" using in' s by (simp add: upsert_def slice_read_def elements_def)
    have h': "p' = p" "heap' = heap\<lparr>hp_conditions := (hp_conditions heap)
        (sl_array s := take (sl_off s) ?arr @ ?new @ drop (sl_off s + sl_len s) ?arr)\<rparr>"
      using run s by (auto simp: demo_memory_def upsert_memory_def Let_def)
    have "holds {sl_array s} heap {sl_array s} heap'"
      by (rule holds_write [OF holds_start]) (simp_all add: h' agree_def)
    moreover have "slice_read heap' p' = ?new" using in' len s by (simp add: h' slice_read_def elements_def)
    moreover have "slice_ok heap' p'" using ok in' len s by (simp add: h' slice_ok_def in_array_def)
    ultimately show ?thesis using s h' by (auto simp: slice_arrays_def demo_memory_env_def)
  next
    case False
    then have h': "p' = Some (whole (hp_next heap) (length ?new))"
      "heap' = heap\<lparr>hp_next := Suc (hp_next heap), hp_conditions := (hp_conditions heap)(hp_next heap := ?new)\<rparr>"
      using run by (auto simp: demo_memory_def upsert_memory_def Let_def split: option.splits)
    have "holds (slice_arrays p) heap (insert (hp_next heap) (slice_arrays p)) heap'"
      by (rule holds_allocate [OF holds_start]) (simp_all add: h' agree_def)
    then show ?thesis by (auto simp: h' slice_ok_def slice_read_def slice_arrays_def demo_memory_env_def)
  qed
qed

subsection \<open>Properties\<close>

text \<open>C14: The reconciler over memory does what the reconciler over values does. It loads the answered Agent into
  memory, copies it with the generated \<^verbatim>\<open>DeepCopy\<close>, sets conditions in place through a pointer into the
  first, and compares and patches what the two read as at the end; for every history and every memory it
  makes the same calls, in the same order, with the same arguments, and returns the same, as \<^verbatim>\<open>Reconcile\<close> over
  values, where the Agent held for comparison is the Agent as it was read.\<close>

theorem Reconcile_memory_refines:
  assumes "kube_copies (ml_kube ml)" and "sets_in_memory ml env"
    and "\<And>agent. getAgent env h req = Inr agent \<Longrightarrow> loads ml agent"
  shows "run_state (Reconcile_at ml env r req heap) h = run_state (Reconcile env r req) h"
proof -
  obtain a heap1 where var: "make_agents 1 heap = (a, heap1)" by fastforce
  show ?thesis
  proof (cases "getAgent env h req")
    case (Inl e)
    then show ?thesis using var by (simp add: Reconcile_at_def Reconcile_def run_simps)
  next
    case (Inr answered)
    obtain x heap2 where load: "ml_load ml heap1 answered = (x, heap2)" by fastforce
    obtain held heap3 where copy: "Agent_DeepCopy (ml_kube ml) (put_struct a x heap2) (Some x) = (held, heap3)" by fastforce
    from loaded_apart [OF assms(1) assms(3) [OF Inr] var load copy] obtain b where
      at: "agent_at ml heap3 a = answered" and held: "held = Some b" and inv: "apart ml answered a b heap3" by blast
    let ?t = "h @ [GetAgent req (Inr answered)]"
    obtain w t where w: "run_state (reconcileWorkload_at ml env r a heap3) ?t = (w, t)" by fastforce
    have out: "same_outcome ml answered a b (w, t) (run_state (reconcileWorkload env r answered) ?t)"
      using reconcileWorkload_at_refines [OF assms(1,2) inv, of r ?t] w at by simp
    show ?thesis
    proof (cases w)
      case (Inl e)
      then show ?thesis using out w Inr var load copy
        by (cases "run_state (reconcileWorkload env r answered) ?t")
          (simp add: Reconcile_at_def Reconcile_def run_simps same_outcome_def)
    next
      case ok: (Inr heap4)
      then have "run_state (reconcileWorkload env r answered) ?t = (Inr (agent_at ml heap4 a), t)" and "apart ml answered a b heap4"
        using out by (auto simp: same_outcome_def prod_eq_iff)
      with set_observed_generation_refines [OF assms(1), of answered a b heap4]
      have "apart ml answered a b (set_observed_generation ml a heap4)"
        "agent_at ml (set_observed_generation ml a heap4) a = (agent_at ml heap4 a)\<lparr>ag_Status := (ag_Status (agent_at ml heap4 a))
           \<lparr>st_ObservedGeneration := om_Generation (ag_Meta (agent_at ml heap4 a))\<rparr>\<rparr>" by simp_all
      moreover from this(1) have "agent_at ml (set_observed_generation ml a heap4) b = answered" by (simp add: apart_def Let_def)
      moreover note \<open>run_state (reconcileWorkload env r answered) ?t = _\<close>
      ultimately show ?thesis using ok w Inr var load copy held
        by (simp add: Reconcile_at_def Reconcile_def run_simps Let_def)
    qed
  qed
qed

theorem Reconcile_memory_refines_witness:
  "run_state (Reconcile_at demo_memory demo_memory_env demo_reconciler ([], ''a'') demo_heap) []
     = run_state (Reconcile demo_memory_env demo_reconciler ([], ''a'')) []"
proof (rule Reconcile_memory_refines)
  show "kube_copies (ml_kube demo_memory)" using demo_kube_copies by (simp add: demo_memory_def)
  show "sets_in_memory demo_memory demo_memory_env" by (rule demo_sets)
  show "loads demo_memory agent" if "getAgent demo_memory_env [] ([], ''a'') = Inr agent" for agent
    using that demo_loads by (simp add: demo_memory_env_def)
qed

end
