(* ===== verification/Command_Line.thy ===== *)
theory Command_Line
  imports Startup
begin

text \<open>
  The command line of the process (\<^verbatim>\<open>src/cmd/main.go\<close>, from the first flag to \<^verbatim>\<open>flag.Parse\<close>): the flags
  with the field each sets, Go's \<^verbatim>\<open>flag\<close> package as far as \<^verbatim>\<open>main\<close> uses it, and \<^verbatim>\<open>time.ParseDuration\<close>,
  which the three intervals are read with, fractions in its own floating-point arithmetic included. \<open>main\<close> is
  the parse followed by \<open>startup\<close>. A parse that fails ends the process, with exit code 2, or 0 where help was
  asked for; what it prints is not modelled. The flags libraries add (the logger's, the kubeconfig) are a
  parameter: for a name of theirs, whether it is a boolean flag and whether a value is refused. A name defined
  twice panics before anything is parsed, so theirs are other names than the ones here.
\<close>

subsection \<open>\<^verbatim>\<open>strconv.ParseBool\<close> and \<^verbatim>\<open>time.ParseDuration\<close>\<close>

definition parse_bool :: "string \<Rightarrow> bool option" where
  "parse_bool s =
     (if s \<in> {''1'', ''t'', ''T'', ''true'', ''TRUE'', ''True''} then Some True
      else if s \<in> {''0'', ''f'', ''F'', ''false'', ''FALSE'', ''False''} then Some False
      else None)"

definition is_digit :: "char \<Rightarrow> bool" where
  "is_digit c \<longleftrightarrow> 48 \<le> (of_char c :: nat) \<and> (of_char c :: nat) \<le> 57"

definition digit_value :: "char \<Rightarrow> nat" where
  "digit_value c = of_char c - 48"

fun leading_int :: "nat \<Rightarrow> string \<Rightarrow> (nat \<times> string) option" where
  "leading_int x [] = Some (x, [])"
| "leading_int x (c # s) =
     (if \<not> is_digit c then Some (x, c # s)
      else if x > 2 ^ 63 div 10 then None
      else let y = x * 10 + digit_value c in if y > 2 ^ 63 then None else leading_int y s)"

text \<open>The digits after the point, the power of ten they are over, and the rest. Digits past the width of the
  accumulator are read and dropped.\<close>

fun leading_fraction :: "bool \<Rightarrow> nat \<Rightarrow> nat \<Rightarrow> string \<Rightarrow> nat \<times> nat \<times> string" where
  "leading_fraction over x scale [] = (x, scale, [])"
| "leading_fraction over x scale (c # s) =
     (if \<not> is_digit c then (x, scale, c # s)
      else if over \<or> x > (2 ^ 63 - 1) div 10 then leading_fraction True x scale s
      else let y = x * 10 + digit_value c in
           if y > 2 ^ 63 then leading_fraction True x scale s else leading_fraction False y (scale * 10) s)"

text \<open>
  A positive float64, as a fraction of naturals. Rounding takes the nearest multiple of the last of 53 bits,
  the even one of two. The values here stay far from the ends of the exponent's range.
\<close>

fun bits :: "nat \<Rightarrow> nat" where
  "bits n = (if n = 0 then 0 else Suc (bits (n div 2)))"

declare bits.simps [simp del]

definition round_half_even :: "nat \<Rightarrow> nat \<Rightarrow> nat" where
  "round_half_even n d =
     (let k = n div d; r = n mod d in if 2 * r < d \<or> (2 * r = d \<and> even k) then k else Suc k)"

definition scaled :: "nat \<Rightarrow> nat \<Rightarrow> int \<Rightarrow> nat \<times> nat" where
  "scaled p q s = (if s \<ge> 0 then (p * 2 ^ nat s, q) else (p, q * 2 ^ nat (- s)))"

definition float64 :: "nat \<times> nat \<Rightarrow> nat \<times> nat" where
  "float64 x =
     (case x of (p, q) \<Rightarrow>
        if p = 0 then (0, 1)
        else
          (let s = 53 + int (bits q) - int (bits p);
               (n, d) = scaled p q s;
               s = (if n div d \<ge> 2 ^ 53 then s - 1 else s);
               (n, d) = scaled p q s;
               m = round_half_even n d
           in scaled m 1 (- s)))"

text \<open>\<^verbatim>\<open>uint64(float64(f) * (float64(unit) / scale))\<close>.\<close>

definition fraction_of_unit :: "nat \<Rightarrow> nat \<Rightarrow> nat \<Rightarrow> nat" where
  "fraction_of_unit f unit scale =
     (let (a, b) = float64 (f, 1); (c, d) = float64 (unit, scale); (p, q) = float64 (a * c, b * d) in p div q)"

definition unit_map :: "string \<Rightarrow> nat option" where
  "unit_map =
     map_of [(''ns'', 1), (''us'', 1000), ([CHR 0xC2, CHR 0xB5, CHR ''s''], 1000), ([CHR 0xCE, CHR 0xBC, CHR ''s''], 1000),
       (''ms'', 1000000), (''s'', 1000000000), (''m'', 60000000000), (''h'', 3600000000000)]"

definition unit_char :: "char \<Rightarrow> bool" where
  "unit_char c \<longleftrightarrow> c \<noteq> CHR ''.'' \<and> \<not> is_digit c"

definition after_point :: "string \<Rightarrow> nat \<times> nat \<times> string \<times> bool" where
  "after_point s =
     (case s of
        [] \<Rightarrow> (0, 1, s, False)
      | c # t \<Rightarrow>
          if c = CHR ''.'' then (let (f, scale, r) = leading_fraction False 0 1 t in (f, scale, r, length r \<noteq> length t))
          else (0, 1, s, False))"

text \<open>One number with its unit. Sums are of 64 bits.\<close>

definition duration_term :: "string \<Rightarrow> (nat \<times> string) option" where
  "duration_term s =
     (if s = [] \<or> (hd s \<noteq> CHR ''.'' \<and> \<not> is_digit (hd s)) then None
      else case leading_int 0 s of
        None \<Rightarrow> None
      | Some (v, s1) \<Rightarrow>
          (case after_point s1 of (f, scale, s2, post) \<Rightarrow>
             if length s1 = length s \<and> \<not> post then None
             else (let u = takeWhile unit_char s2; rest = dropWhile unit_char s2 in
               if u = [] then None
               else case unit_map u of
                 None \<Rightarrow> None
               | Some unit \<Rightarrow>
                   if v > 2 ^ 63 div unit then None
                   else if f = 0 then Some (v * unit, rest)
                   else (let v' = (v * unit + fraction_of_unit f unit scale) mod 2 ^ 64 in
                         if v' > 2 ^ 63 then None else Some (v', rest)))))"

lemma leading_int_length: "leading_int x s = Some (v, t) \<Longrightarrow> length t \<le> length s"
  by (induction x s rule: leading_int.induct) (fastforce simp: Let_def split: if_splits)+

lemma leading_fraction_length: "leading_fraction b x c s = (f, e, t) \<Longrightarrow> length t \<le> length s"
  by (induction b x c s rule: leading_fraction.induct) (fastforce simp: Let_def split: if_splits)+

lemma after_point_length: "after_point s = (f, e, t, p) \<Longrightarrow> length t \<le> length s"
  by (cases s) (auto simp: after_point_def split: if_splits prod.splits dest: leading_fraction_length)

lemma duration_term_consumes: "duration_term s = Some (v, t) \<Longrightarrow> length t < length s"
proof -
  assume "duration_term s = Some (v, t)"
  then obtain v0 s1 f e s2 p where i: "leading_int 0 s = Some (v0, s1)" and a: "after_point s1 = (f, e, s2, p)"
    and t: "t = dropWhile unit_char s2" "takeWhile unit_char s2 \<noteq> []"
    by (auto simp: duration_term_def Let_def split: if_splits option.splits prod.splits)
  have "length (takeWhile unit_char s2) + length t = length s2"
    using t(1) by (metis length_append takeWhile_dropWhile_id)
  with t(2) leading_int_length [OF i] after_point_length [OF a] show ?thesis by (cases "takeWhile unit_char s2") auto
qed

function duration_terms :: "nat \<Rightarrow> string \<Rightarrow> nat option" where
  "duration_terms d s =
     (if s = [] then Some d
      else case duration_term s of
        None \<Rightarrow> None
      | Some (v, rest) \<Rightarrow>
          (let d' = (d + v) mod 2 ^ 64 in if d' > 2 ^ 63 then None else duration_terms d' rest))"
  by pat_completeness auto

termination duration_terms
  by (relation "measure (\<lambda>(d, s). length s)") (auto dest: duration_term_consumes)

declare duration_terms.simps [simp del]

definition ParseDuration :: "string \<Rightarrow> int option" where
  "ParseDuration orig =
     (let neg = (orig \<noteq> [] \<and> hd orig = CHR ''-'');
          s = (if orig \<noteq> [] \<and> (hd orig = CHR ''-'' \<or> hd orig = CHR ''+'') then tl orig else orig) in
      if s = ''0'' then Some 0
      else if s = [] then None
      else case duration_terms 0 s of
        None \<Rightarrow> None
      | Some d \<Rightarrow>
          if neg then Some (- int d)
          else if d > 2 ^ 63 - 1 then None
          else Some (int d))"

subsection \<open>The flags\<close>

datatype flag_value =
    StringVar "string \<Rightarrow> flags \<Rightarrow> flags"
  | BoolVar "bool \<Rightarrow> flags \<Rightarrow> flags"
  | DurationVar "int \<Rightarrow> flags \<Rightarrow> flags"

definition flag_table :: "(string \<times> flag_value) list" where
  "flag_table =
     [(''metrics-bind-address'', StringVar (\<lambda>v. fl_metricsAddr_update (\<lambda>_. v))),
      (''health-probe-bind-address'', StringVar (\<lambda>v. fl_probeAddr_update (\<lambda>_. v))),
      (''leader-elect'', BoolVar (\<lambda>v. fl_enableLeaderElection_update (\<lambda>_. v))),
      (''metrics-secure'', BoolVar (\<lambda>v. fl_secureMetrics_update (\<lambda>_. v))),
      (''webhook-cert-path'', StringVar (\<lambda>v. fl_webhookCertPath_update (\<lambda>_. v))),
      (''webhook-cert-name'', StringVar (\<lambda>v. fl_webhookCertName_update (\<lambda>_. v))),
      (''webhook-cert-key'', StringVar (\<lambda>v. fl_webhookCertKey_update (\<lambda>_. v))),
      (''metrics-cert-path'', StringVar (\<lambda>v. fl_metricsCertPath_update (\<lambda>_. v))),
      (''metrics-cert-name'', StringVar (\<lambda>v. fl_metricsCertName_update (\<lambda>_. v))),
      (''metrics-cert-key'', StringVar (\<lambda>v. fl_metricsCertKey_update (\<lambda>_. v))),
      (''enable-http2'', BoolVar (\<lambda>v. fl_enableHTTP2_update (\<lambda>_. v))),
      (''garam-address'', StringVar (\<lambda>v. fl_garamAddress_update (\<lambda>_. v))),
      (''garam-certificate-file'', StringVar (\<lambda>v. fl_garamCertificateFile_update (\<lambda>_. v))),
      (''garam-key-file'', StringVar (\<lambda>v. fl_garamKeyFile_update (\<lambda>_. v))),
      (''garam-trust-file'', StringVar (\<lambda>v. fl_garamTrustFile_update (\<lambda>_. v))),
      (''garam-poll-interval'', DurationVar (\<lambda>v. fl_garamPollInterval_update (\<lambda>_. v))),
      (''garam-report-interval'', DurationVar (\<lambda>v. fl_garamReportInterval_update (\<lambda>_. v))),
      (''garam-credential-secret'', StringVar (\<lambda>v. fl_garamCredentialSecret_update (\<lambda>_. v))),
      (''garam-renewal-interval'', DurationVar (\<lambda>v. fl_garamRenewalInterval_update (\<lambda>_. v))),
      (''garam-enrollment-token-file'', StringVar (\<lambda>v. fl_garamEnrollmentTokenFile_update (\<lambda>_. v))),
      (''agent-image'', StringVar (\<lambda>v. fl_agentImage_update (\<lambda>_. v))),
      (''agent-storage-size'', StringVar (\<lambda>v. fl_agentStorageSize_update (\<lambda>_. v))),
      (''agent-copy-image'', StringVar (\<lambda>v. fl_agentCopyImage_update (\<lambda>_. v))),
      (''agent-tools-image'', StringVar (\<lambda>v. fl_agentToolsImage_update (\<lambda>_. v))),
      (''agent-workspace-image'', StringVar (\<lambda>v. fl_agentWorkspaceImage_update (\<lambda>_. v)))]"

definition set_flag :: "flag_value \<Rightarrow> string \<Rightarrow> flags \<Rightarrow> flags option" where
  "set_flag f value fl =
     (case f of
        StringVar assign \<Rightarrow> Some (assign value fl)
      | BoolVar assign \<Rightarrow> map_option (\<lambda>b. assign b fl) (parse_bool value)
      | DurationVar assign \<Rightarrow> map_option (\<lambda>d. assign d fl) (ParseDuration value))"

text \<open>A flag by its name: one of the table or one a library added, as whether it is boolean and what setting
  it does, \<open>None\<close> being a refused value.\<close>

record library_flag =
  lf_IsBoolFlag :: bool
  lf_Set :: "string \<Rightarrow> error option"

definition formal :: "(string \<rightharpoonup> library_flag) \<Rightarrow> string \<Rightarrow> (bool \<times> (string \<Rightarrow> flags \<Rightarrow> flags option)) option" where
  "formal extra name =
     (case map_of flag_table name of
        Some f \<Rightarrow> Some (case f of BoolVar assign \<Rightarrow> True | _ \<Rightarrow> False, set_flag f)
      | None \<Rightarrow>
          map_option (\<lambda>l. (lf_IsBoolFlag l, \<lambda>value fl. if lf_Set l value = None then Some fl else None)) (extra name))"

subsection \<open>\<^verbatim>\<open>flag.Parse\<close>\<close>

datatype parsed = Parsed flags | Exited int

text \<open>What one argument is: not a flag, the two dashes that end the flags, a malformed flag, or a name with the
  value after an equals sign, if there is one.\<close>

datatype argument = Positional | Terminator | Malformed | Named string "string option"

definition split_argument :: "string \<Rightarrow> argument" where
  "split_argument s =
     (if length s < 2 \<or> hd s \<noteq> CHR ''-'' then Positional
      else if s = ''--'' then Terminator
      else let name = (if s ! 1 = CHR ''-'' then drop 2 s else drop 1 s) in
        if name = [] \<or> hd name = CHR ''-'' \<or> hd name = CHR ''='' then Malformed
        else Named (takeWhile (\<lambda>c. c \<noteq> CHR ''='') name)
               (case dropWhile (\<lambda>c. c \<noteq> CHR ''='') name of [] \<Rightarrow> None | c # value \<Rightarrow> Some value))"

fun parse_args :: "(string \<rightharpoonup> library_flag) \<Rightarrow> string list \<Rightarrow> flags \<Rightarrow> parsed" where
  "parse_args extra [] fl = Parsed fl"
| "parse_args extra (s # args) fl =
     (case split_argument s of
        Positional \<Rightarrow> Parsed fl
      | Terminator \<Rightarrow> Parsed fl
      | Malformed \<Rightarrow> Exited 2
      | Named name value \<Rightarrow>
          (case formal extra name of
             None \<Rightarrow> Exited (if name = ''help'' \<or> name = ''h'' then 0 else 2)
           | Some (isBool, set') \<Rightarrow>
               if isBool then
                 (case set' (case value of None \<Rightarrow> ''true'' | Some v \<Rightarrow> v) fl of
                    None \<Rightarrow> Exited 2
                  | Some fl' \<Rightarrow> parse_args extra args fl')
               else
                 (case value of
                    Some v \<Rightarrow>
                      (case set' v fl of None \<Rightarrow> Exited 2 | Some fl' \<Rightarrow> parse_args extra args fl')
                  | None \<Rightarrow>
                      (case args of
                         [] \<Rightarrow> Exited 2
                       | v # args' \<Rightarrow>
                           (case set' v fl of None \<Rightarrow> Exited 2 | Some fl' \<Rightarrow> parse_args extra args' fl')))))"

declare parse_args.simps(2) [simp del]

definition main ::
  "(string \<rightharpoonup> library_flag) \<Rightarrow> env \<Rightarrow> manager \<Rightarrow> (string \<Rightarrow> string) \<Rightarrow> (string \<Rightarrow> error + quantity) \<Rightarrow> string list
     \<Rightarrow> (history, int + launched) state" where
  "main extra env mgr getenv parseQuantity args =
     (case parse_args extra args default_flags of
        Exited code \<Rightarrow> State_Monad.return (Inl code)
      | Parsed fl \<Rightarrow> startup env mgr getenv parseQuantity fl)"

subsection \<open>Durations\<close>

lemma leading_int_bound: "leading_int x s = Some (v, t) \<Longrightarrow> x \<le> 2 ^ 63 \<Longrightarrow> v \<le> 2 ^ 63"
  by (induction x s rule: leading_int.induct) (auto simp: Let_def split: if_splits)

lemma duration_terms_bound: "duration_terms d s = Some r \<Longrightarrow> d \<le> 2 ^ 63 \<Longrightarrow> r \<le> 2 ^ 63"
proof (induction d s rule: duration_terms.induct)
  case (1 d s)
  from 1(2) consider "s = []" "r = d"
    | v rest where "s \<noteq> []" "duration_term s = Some (v, rest)" "(d + v) mod 2 ^ 64 \<le> 2 ^ 63"
        "duration_terms ((d + v) mod 2 ^ 64) rest = Some r"
    unfolding duration_terms.simps [of d s] Let_def
    by (cases "s = []"; cases "duration_term s") (auto split: if_splits simp del: power_numeral)
  then show ?case
  proof cases
    case 2
    show ?thesis by (rule 1(1) [OF 2(1,2) refl refl _ 2(4) 2(3)]) (use 2(3) in linarith)
  qed (use 1(3) in simp)
qed

lemma ParseDuration_bounds:
  assumes "ParseDuration s = Some d"
  shows "- (2 ^ 63) \<le> d \<and> d < 2 ^ 63"
proof -
  have "int n \<le> 2 ^ 63" if "duration_terms 0 t = Some n" for t n
    using duration_terms_bound [OF that] by simp
  with assms show ?thesis
    by (auto simp: ParseDuration_def Let_def split: if_splits option.splits)
qed

text \<open>Reading back what \<^verbatim>\<open>strconv.Itoa\<close> writes.\<close>

definition number :: "nat \<Rightarrow> string \<Rightarrow> nat" where
  "number x s = foldl (\<lambda>x c. x * 10 + digit_value c) x s"

lemma number_mono: "x \<le> number x s"
proof (induction s arbitrary: x)
  case (Cons c s)
  have "x \<le> x * 10 + digit_value c" by simp
  also have "\<dots> \<le> number (x * 10 + digit_value c) s" by (rule Cons.IH)
  finally show ?case by (simp add: number_def)
qed (simp add: number_def)

lemma leading_int_number:
  "list_all is_digit s \<Longrightarrow> number x s \<le> 2 ^ 63 \<Longrightarrow> leading_int x (s @ t) = leading_int (number x s) t"
proof (induction s arbitrary: x)
  case (Cons c s)
  let ?y = "x * 10 + digit_value c"
  have "?y \<le> 2 ^ 63" using number_mono [of ?y s] Cons.prems(2) by (simp add: number_def)
  then have "\<not> x > 2 ^ 63 div 10" "\<not> ?y > 2 ^ 63" by simp_all
  with Cons show ?case by (simp add: number_def Let_def)
qed (simp add: number_def)

lemma digit_char: "n < 10 \<Longrightarrow> is_digit (char_of (48 + n)) \<and> digit_value (char_of (48 + n)) = n"
  by (simp add: is_digit_def digit_value_def)

lemma nat_text_number: "list_all is_digit (nat_text n) \<and> number 0 (nat_text n) = n \<and> nat_text n \<noteq> []"
proof (induction n rule: less_induct)
  case (less n)
  show ?case
  proof (cases "n < 10")
    case True
    then show ?thesis using digit_char [OF True] by (simp add: nat_text.simps [of n] number_def)
  next
    case False
    then have "n div 10 < n" by simp
    with less.IH False digit_char [of "n mod 10"] show ?thesis
      by (simp add: nat_text.simps [of n] number_def)
  qed
qed

lemma duration_term_nanoseconds:
  assumes "n \<le> 2 ^ 63"
  shows "duration_term (nat_text n @ ''ns'') = Some (n, [])"
proof -
  note d = nat_text_number [of n]
  then obtain c cs where c: "nat_text n = c # cs" "is_digit c" by (cases "nat_text n") auto
  have "leading_int 0 (nat_text n @ ''ns'') = leading_int n ''ns''"
    using leading_int_number [of "nat_text n" 0 "''ns''"] d assms by simp
  also have "\<dots> = Some (n, ''ns'')" by (simp add: is_digit_def)
  finally have i: "leading_int 0 (nat_text n @ ''ns'') = Some (n, ''ns'')" .
  have u: "takeWhile unit_char ''ns'' = ''ns''" "dropWhile unit_char ''ns'' = []"
    by (simp_all add: unit_char_def is_digit_def)
  have one: "unit_map ''ns'' = Some 1" by (simp add: unit_map_def)
  show ?thesis using i c assms u one by (simp add: duration_term_def after_point_def Let_def)
qed

lemma duration_terms_nanoseconds:
  assumes "n \<le> 2 ^ 63"
  shows "duration_terms 0 (nat_text n @ ''ns'') = Some n"
  using duration_term_nanoseconds [OF assms] assms
  by (simp add: duration_terms.simps [of 0] duration_terms.simps [of n] Let_def)

definition duration_text :: "int \<Rightarrow> string" where
  "duration_text d = itoa d @ ''ns''"

lemma ParseDuration_text:
  assumes "- (2 ^ 63) \<le> d" and "d < 2 ^ 63"
  shows "ParseDuration (duration_text d) = Some d"
proof -
  let ?t = "nat_text (nat \<bar>d\<bar>) @ ''ns''"
  have n: "nat \<bar>d\<bar> \<le> 2 ^ 63" using assms by (simp add: nat_le_iff)
  note t = duration_terms_nanoseconds [OF n]
  obtain c cs where c: "nat_text (nat \<bar>d\<bar>) = c # cs" "is_digit c"
    using nat_text_number [of "nat \<bar>d\<bar>"] by (cases "nat_text (nat \<bar>d\<bar>)") auto
  then have "c \<noteq> CHR ''-''" "c \<noteq> CHR ''+''" by (auto simp: is_digit_def)
  then show ?thesis
    using t c(1) assms by (cases "d < 0") (auto simp: ParseDuration_def duration_text_def itoa_def Let_def)
qed

subsection \<open>Arguments\<close>

text \<open>The form the deployment writes every argument in.\<close>

definition setting :: "string \<Rightarrow> string \<Rightarrow> string" where
  "setting name value = ''--'' @ name @ ''='' @ value"

definition plain_name :: "string \<Rightarrow> bool" where
  "plain_name name \<longleftrightarrow> name \<noteq> [] \<and> hd name \<noteq> CHR ''-'' \<and> CHR ''='' \<notin> set name"

lemma split_setting:
  assumes "plain_name name"
  shows "split_argument (setting name value) = Named name (Some value)"
proof -
  obtain c cs where name: "name = c # cs" using assms by (cases name) (auto simp: plain_name_def)
  have eq: "takeWhile (\<lambda>c. c \<noteq> CHR ''='') (name @ CHR ''='' # value) = name"
    "dropWhile (\<lambda>c. c \<noteq> CHR ''='') (name @ CHR ''='' # value) = CHR ''='' # value"
    using assms by (auto simp: plain_name_def takeWhile_append takeWhile_eq_all_conv dropWhile_append dropWhile_eq_Nil_conv)
  show ?thesis
    using assms eq name by (auto simp: split_argument_def setting_def plain_name_def Let_def)
qed

lemma table_names_plain: "list_all (\<lambda>(name, f). plain_name name) flag_table"
  by (simp add: flag_table_def plain_name_def)

lemma table_flag_plain: "map_of flag_table name = Some f \<Longrightarrow> plain_name name"
  using table_names_plain by (auto simp: list_all_iff dest: map_of_SomeD)

lemma parse_setting:
  assumes "map_of flag_table name = Some f" and "set_flag f value fl = Some fl'"
  shows "parse_args extra (setting name value # args) fl = parse_args extra args fl'"
  using assms split_setting [OF table_flag_plain [OF assms(1)], of "value"]
  by (simp add: parse_args.simps(2) formal_def split: flag_value.splits)

lemma set_flag_simps [simp]:
  "set_flag (StringVar assign) value fl = Some (assign value fl)"
  "set_flag (BoolVar assignb) ''true'' fl = Some (assignb True fl)"
  "set_flag (BoolVar assignb) ''false'' fl = Some (assignb False fl)"
  by (simp_all add: set_flag_def parse_bool_def)

lemma set_flag_duration:
  "- (2 ^ 63) \<le> d \<Longrightarrow> d < 2 ^ 63 \<Longrightarrow> set_flag (DurationVar assign) (duration_text d) fl = Some (assign d fl)"
  by (simp add: set_flag_def ParseDuration_text del: power_numeral)

definition bool_text :: "bool \<Rightarrow> string" where
  "bool_text b = (if b then ''true'' else ''false'')"

lemma set_flag_bool: "set_flag (BoolVar assign) (bool_text b) fl = Some (assign b fl)"
  by (cases b) (simp_all add: bool_text_def)

text \<open>A command line that states every flag.\<close>

definition flag_args :: "flags \<Rightarrow> string list" where
  "flag_args fl =
     [setting ''metrics-bind-address'' (fl_metricsAddr fl),
      setting ''health-probe-bind-address'' (fl_probeAddr fl),
      setting ''leader-elect'' (bool_text (fl_enableLeaderElection fl)),
      setting ''metrics-secure'' (bool_text (fl_secureMetrics fl)),
      setting ''webhook-cert-path'' (fl_webhookCertPath fl),
      setting ''webhook-cert-name'' (fl_webhookCertName fl),
      setting ''webhook-cert-key'' (fl_webhookCertKey fl),
      setting ''metrics-cert-path'' (fl_metricsCertPath fl),
      setting ''metrics-cert-name'' (fl_metricsCertName fl),
      setting ''metrics-cert-key'' (fl_metricsCertKey fl),
      setting ''enable-http2'' (bool_text (fl_enableHTTP2 fl)),
      setting ''garam-address'' (fl_garamAddress fl),
      setting ''garam-certificate-file'' (fl_garamCertificateFile fl),
      setting ''garam-key-file'' (fl_garamKeyFile fl),
      setting ''garam-trust-file'' (fl_garamTrustFile fl),
      setting ''garam-poll-interval'' (duration_text (fl_garamPollInterval fl)),
      setting ''garam-report-interval'' (duration_text (fl_garamReportInterval fl)),
      setting ''garam-credential-secret'' (fl_garamCredentialSecret fl),
      setting ''garam-renewal-interval'' (duration_text (fl_garamRenewalInterval fl)),
      setting ''garam-enrollment-token-file'' (fl_garamEnrollmentTokenFile fl),
      setting ''agent-image'' (fl_agentImage fl),
      setting ''agent-storage-size'' (fl_agentStorageSize fl),
      setting ''agent-copy-image'' (fl_agentCopyImage fl),
      setting ''agent-tools-image'' (fl_agentToolsImage fl),
      setting ''agent-workspace-image'' (fl_agentWorkspaceImage fl)]"

definition intervals_fit :: "flags \<Rightarrow> bool" where
  "intervals_fit fl \<longleftrightarrow>
     int64_range (fl_garamPollInterval fl) \<and> int64_range (fl_garamReportInterval fl) \<and> int64_range (fl_garamRenewalInterval fl)"

lemma set_flag_int64: "int64_range d \<Longrightarrow> set_flag (DurationVar assign) (duration_text d) fl = Some (assign d fl)"
  by (simp add: int64_range_def set_flag_duration)

subsection \<open>Properties\<close>

lemma demo_intervals: "intervals_fit demo_flags"
  by (simp add: intervals_fit_def int64_range_def demo_flags_def default_flags_def second_def)

lemma parse_flag_args:
  assumes "intervals_fit fl"
  shows "parse_args extra (flag_args fl) fl0 = Parsed fl"
proof -
  note d = assms [unfolded intervals_fit_def]
  show ?thesis
    unfolding flag_args_def
    by (simp add: parse_setting [OF _ set_flag_simps(1)] parse_setting [OF _ set_flag_bool] parse_setting [OF _ set_flag_int64] d
        flag_table_def)
qed

text \<open>C16: Every configuration can be written on the command line and is read back as it was written: each of the
  twenty-five flags reaches the variable of its own name and no other, whatever the flags were before, and a
  duration of 64 bits survives being written in nanoseconds.\<close>

theorem command_line_roundtrip:
  assumes "intervals_fit fl"
  shows "parse_args extra (flag_args fl) fl0 = Parsed fl"
  using assms by (rule parse_flag_args)

theorem command_line_roundtrip_witness:
  "parse_args (\<lambda>_. None) (flag_args demo_flags) default_flags = Parsed demo_flags"
  by (rule command_line_roundtrip [OF demo_intervals])

text \<open>One argument: the parse ends there, or goes on with what is left.\<close>

definition asks_help :: "string \<Rightarrow> bool" where
  "asks_help s \<longleftrightarrow> (\<exists>name v. split_argument s = Named name v \<and> name \<in> {''help'', ''h''})"

lemma parse_step:
  obtains "parse_args extra (s # args) fl = Parsed fl" | "parse_args extra (s # args) fl = Exited 2"
  | "parse_args extra (s # args) fl = Exited 0" "asks_help s"
  | args' fl' name isBool set' given where "parse_args extra (s # args) fl = parse_args extra args' fl'"
      "length args' \<le> length args" "set args' \<subseteq> set args" "formal extra name = Some (isBool, set')" "set' given fl = Some fl'"
proof (cases "split_argument s")
  case (Named name v)
  show ?thesis
  proof (cases "formal extra name")
    case None
    then show ?thesis using that(2,3) Named
      by (cases "name = ''help'' \<or> name = ''h''") (auto simp: parse_args.simps(2) asks_help_def)
  next
    case (Some p)
    obtain isBool set' where p: "p = (isBool, set')" by fastforce
    note goes_on = that(4) [OF _ _ _ Some [unfolded p]]
    note eq = parse_args.simps(2) [of extra s args fl, unfolded Named Some p argument.case option.case prod.case]
    show ?thesis
    proof (cases isBool)
      case True
      then show ?thesis
        using that(2) goes_on eq by (cases "set' (case v of None \<Rightarrow> ''true'' | Some v \<Rightarrow> v) fl") auto
    next
      case False
      note eq = eq [unfolded if_not_P [OF False]]
      show ?thesis
      proof (cases v)
        case (Some w)
        then show ?thesis using that(2) goes_on eq by (cases "set' w fl") auto
      next
        case None
        show ?thesis
        proof (cases args)
          case Nil
          then show ?thesis using that(2) eq None by simp
        next
          case (Cons w args')
          then show ?thesis
            using that(2) goes_on [of args'] eq None by (cases "set' w fl") (auto intro: set_subset_Cons)
        qed
      qed
    qed
  qed
qed (use that(1,2) in \<open>simp_all add: parse_args.simps(2)\<close>)

lemma parse_exits: "parse_args extra args fl = Exited c \<Longrightarrow> c = 2 \<or> c = 0 \<and> (\<exists>s\<in>set args. asks_help s)"
proof (induction args arbitrary: fl rule: length_induct)
  case (1 args)
  show ?case
  proof (cases args)
    case (Cons s rest)
    show ?thesis
    proof (rule parse_step [of extra s rest fl])
      fix args' fl'
      assume a: "parse_args extra (s # rest) fl = parse_args extra args' fl'" "length args' \<le> length rest" "set args' \<subseteq> set rest"
      have "length args' < length args" using a(2) Cons by simp
      with 1(1) have "c = 2 \<or> c = 0 \<and> (\<exists>s\<in>set args'. asks_help s)" using 1(2) a(1) Cons by metis
      then show ?thesis using a(3) Cons by auto
    qed (use 1(2) Cons in auto)
  qed (use 1 in simp)
qed

text \<open>Whatever is written for them, the three intervals that are read fit an \<^verbatim>\<open>int64\<close>.\<close>

lemma set_flag_intervals:
  assumes "map_of flag_table name = Some f" and "set_flag f value fl = Some fl'" and "intervals_fit fl"
  shows "intervals_fit fl'"
proof -
  have "f \<in> snd ` set flag_table" using assms(1) by (force dest: map_of_SomeD)
  then show ?thesis
    using assms(2,3) by (auto simp: flag_table_def set_flag_def intervals_fit_def int64_range_def dest!: ParseDuration_bounds)
qed

lemma formal_intervals:
  "formal extra name = Some (isBool, assign) \<Longrightarrow> assign value fl = Some fl' \<Longrightarrow> intervals_fit fl \<Longrightarrow> intervals_fit fl'"
  by (auto simp: formal_def split: option.splits if_splits dest: set_flag_intervals)

lemma parse_intervals: "parse_args extra args fl = Parsed fl' \<Longrightarrow> intervals_fit fl \<Longrightarrow> intervals_fit fl'"
proof (induction args arbitrary: fl rule: length_induct)
  case (1 args)
  show ?case
  proof (cases args)
    case (Cons s rest)
    show ?thesis
    proof (rule parse_step [of extra s rest fl])
      fix args' fl1 name isBool assign given
      assume a: "parse_args extra (s # rest) fl = parse_args extra args' fl1" "length args' \<le> length rest"
        and f: "formal extra name = Some (isBool, assign)" "assign given fl = Some fl1"
      have "length args' < length args" using a(2) Cons by simp
      moreover have "intervals_fit fl1" using f 1(3) by (rule formal_intervals)
      ultimately show ?thesis using 1(1,2) a(1) Cons by metis
    qed (use 1(2,3) Cons in auto)
  qed (use 1 in simp)
qed

lemma default_intervals: "intervals_fit default_flags"
  by (simp add: intervals_fit_def int64_range_def default_flags_def second_def)

text \<open>C31: Every way the process ends without running is told apart by its exit code. Code 0 is a request for
  help among the arguments and code 2 arguments that do not parse, and in both nothing was called, read or
  logged; every other end is code 1, and then the last line logged is the error. A command line that parses
  starts what its flags say.\<close>

theorem main_exit_codes:
  assumes "run_state (main extra env mgr getenv pq args) h = (r, t)"
  shows "(\<forall>c. r = Inl c \<longrightarrow>
       (c = 0 \<and> t = h \<and> (\<exists>s\<in>set args. asks_help s))
     \<or> (c = 2 \<and> t = h \<and> parse_args extra args default_flags = Exited 2)
     \<or> (c = 1 \<and> (\<exists>msg kvs. last t = Log LogError msg kvs)))
    \<and> (\<forall>fl. parse_args extra args default_flags = Parsed fl \<longrightarrow> run_state (startup env mgr getenv pq fl) h = (r, t))"
proof (cases "parse_args extra args default_flags")
  case (Parsed fl)
  then have run: "run_state (startup env mgr getenv pq fl) h = (r, t)" using assms by (simp add: main_def)
  have "exits_loudly (startup env mgr getenv pq fl)" by (rule exits_startup)
  then show ?thesis using run Parsed by (auto simp: exits_loudly_def)
next
  case (Exited c)
  then have "r = Inl c" "t = h" using assms by (simp_all add: main_def run_simps)
  with parse_exits [OF Exited] Exited show ?thesis by auto
qed

theorem main_exit_codes_witness:
  "run_state (main (\<lambda>_. None) refusing_env demo_manager (\<lambda>v. []) (\<lambda>s. Inr (Quantity s)) [''--garam-adress=x'']) [] = (Inl 2, [])
     \<and> parse_args (\<lambda>_. None) [''--garam-adress=x''] default_flags = Exited 2"
proof -
  have p: "parse_args (\<lambda>_. None) [''--garam-adress=x''] default_flags = Exited 2"
    by (simp add: parse_args.simps(2) split_argument_def formal_def flag_table_def Let_def)
  then have run: "run_state (main (\<lambda>_. None) refusing_env demo_manager (\<lambda>v. []) (\<lambda>s. Inr (Quantity s)) [''--garam-adress=x'']) []
      = (Inl 2, [])" by (simp add: main_def run_simps)
  from main_exit_codes [OF run] p run show ?thesis by simp
qed

text \<open>C32: An argument that is not a flag ends the flags, and nothing says so. After arguments that each carry
  their own value, a word with no leading dash leaves every argument behind it unread: the process starts with
  the flags before the word, as if it had been given nothing more. A boolean flag takes its value only after an
  equals sign, so \<^verbatim>\<open>--leader-elect true\<close> is such a word.\<close>

theorem stray_word_silences_rest:
  assumes "\<forall>s\<in>set args. \<exists>name v. split_argument s = Named name (Some v)" and "word = [] \<or> hd word \<noteq> CHR ''-''"
  shows "main extra env mgr getenv pq (args @ word # rest) = main extra env mgr getenv pq args
    \<and> main extra env mgr getenv pq (args @ ''--leader-elect'' # word # rest) = main extra env mgr getenv pq (args @ [''--leader-elect''])"
proof -
  have word: "split_argument word = Positional" using assms(2) by (auto simp: split_argument_def)
  have lead: "split_argument ''--leader-elect'' = Named ''leader-elect'' None"
    by (simp add: split_argument_def Let_def)
  have bool: "\<exists>set'. formal extra ''leader-elect'' = Some (True, set')" by (simp add: formal_def flag_table_def)
  have "parse_args extra (args @ word # rest) fl = parse_args extra args fl
      \<and> parse_args extra (args @ ''--leader-elect'' # word # rest) fl = parse_args extra (args @ [''--leader-elect'']) fl" for fl
    using assms(1)
  proof (induction args arbitrary: fl)
    case Nil
    then show ?case using word lead bool by (auto simp: parse_args.simps(2) split: option.splits)
  next
    case (Cons s args)
    then obtain name v where "split_argument s = Named name (Some v)" by auto
    with Cons show ?case by (auto simp: parse_args.simps(2) split: option.splits)
  qed
  then show ?thesis by (simp add: main_def)
qed

theorem stray_word_silences_rest_witness:
  "main (\<lambda>_. None) refusing_env demo_manager (\<lambda>v. []) (\<lambda>s. Inr (Quantity s))
       ([''--agent-copy-image=c''] @ ''--leader-elect'' # ''true'' # [''--garam-address=garam:8443''])
     = main (\<lambda>_. None) refusing_env demo_manager (\<lambda>v. []) (\<lambda>s. Inr (Quantity s)) [''--agent-copy-image=c'', ''--leader-elect'']"
proof -
  have "\<forall>s\<in>set [''--agent-copy-image=c'']. \<exists>name v. split_argument s = Named name (Some v)"
    by (simp add: split_argument_def Let_def)
  from stray_word_silences_rest [OF this, of "''true''" "\<lambda>_. None" refusing_env demo_manager "\<lambda>v. []" "\<lambda>s. Inr (Quantity s)"
      "[''--garam-address=garam:8443'']"]
  show ?thesis by simp
qed

text \<open>The arguments the repository's own deployment passes (\<^verbatim>\<open>config/manager/manager.yaml\<close>).\<close>

definition shipped_args :: "string list" where
  "shipped_args =
     [''--leader-elect'',
      setting ''health-probe-bind-address'' '':8081'',
      setting ''agent-copy-image''
        ''busybox:stable-musl@sha256:3c6ae8008e2c2eedd141725c30b20d9c36b026eb796688f88205845ef17aa213'',
      setting ''garam-credential-secret'' ''garam-credential'',
      setting ''garam-certificate-file'' ''/etc/garam/credential/certificate.pem'',
      setting ''garam-key-file'' ''/etc/garam/credential/key.pem'',
      setting ''garam-trust-file'' ''/etc/garam/credential/server-root.pem'',
      setting ''garam-enrollment-token-file'' ''/etc/garam/credential/enrollment-token'']"

lemma parse_bare_bool:
  assumes "split_argument s = Named name None" and "map_of flag_table name = Some (BoolVar assign)"
  shows "parse_args extra (s # args) fl = parse_args extra args (assign True fl)"
  using assms by (simp add: parse_args.simps(2) formal_def)

text \<open>The deployment this repository ships, completed the way it says, is one that enrolls and cannot tear its
  credential. With the three arguments an overlay adds, whatever their values, the command line parses; the
  operator then elects a leader, reads its certificate and key from the files the Secret is mounted as, renews
  and enrolls into that Secret under two different keys, which are those files' names, and keeps HTTP/2 off
  and its metrics behind authorization.\<close>

theorem shipped_deployment_enrolls:
  "\<exists>fl. parse_args extra (shipped_args @ [setting ''garam-address'' address, setting ''agent-image'' img,
          setting ''agent-storage-size'' qty]) default_flags = Parsed fl
     \<and> fl_garamAddress fl = address \<and> fl_agentImage fl = img \<and> fl_agentStorageSize fl = qty
     \<and> fl_agentCopyImage fl \<noteq> [] \<and> enrolling fl
     \<and> operator_store fl ns = NewSecret (ns, ''garam-credential'') ''certificate.pem'' ''key.pem''
     \<and> mo_LeaderElection (managerOptions fl)
     \<and> next_protos (so_TLSOpts (mo_Metrics (managerOptions fl))) = Some [''http/1.1'']
     \<and> so_Filtered (mo_Metrics (managerOptions fl))"
proof -
  let ?fl = "default_flags\<lparr>fl_enableLeaderElection := True, fl_probeAddr := '':8081'',
     fl_agentCopyImage := ''busybox:stable-musl@sha256:3c6ae8008e2c2eedd141725c30b20d9c36b026eb796688f88205845ef17aa213'',
     fl_garamCredentialSecret := ''garam-credential'', fl_garamCertificateFile := ''/etc/garam/credential/certificate.pem'',
     fl_garamKeyFile := ''/etc/garam/credential/key.pem'', fl_garamTrustFile := ''/etc/garam/credential/server-root.pem'',
     fl_garamEnrollmentTokenFile := ''/etc/garam/credential/enrollment-token'',
     fl_garamAddress := address, fl_agentImage := img, fl_agentStorageSize := qty\<rparr>"
  have lead: "split_argument ''--leader-elect'' = Named ''leader-elect'' None"
    by (simp add: split_argument_def Let_def)
  have "parse_args extra (shipped_args @ [setting ''garam-address'' address, setting ''agent-image'' img,
      setting ''agent-storage-size'' qty]) default_flags = Parsed ?fl"
    unfolding shipped_args_def
    by (simp add: parse_bare_bool [OF lead] parse_setting [OF _ set_flag_simps(1)] flag_table_def)
  moreover have "filepath_base ''/etc/garam/credential/certificate.pem'' = ''certificate.pem''"
    "filepath_base ''/etc/garam/credential/key.pem'' = ''key.pem''" by (simp_all add: filepath_base_def)
  ultimately show ?thesis
    by (intro exI [of _ ?fl])
      (simp add: enrolling_def operator_store_def managerOptions_def metricsServerOptions_def tlsOpts_def
        default_flags_def Let_def)
qed

end
