(* ===== verification/Registration.thy ===== *)
theory Registration
  imports Garam_Types
begin

text \<open>
  How the Agent types come to be known to the process: the package variables of the API group
  (\<^verbatim>\<open>src/api/v1alpha1/groupversion_info.go\<close>), the \<^verbatim>\<open>init\<close> that registers the two types
  (\<^verbatim>\<open>agent_types.go\<close>) and the \<^verbatim>\<open>init\<close> of \<^verbatim>\<open>src/cmd/main.go\<close> that fills the scheme the manager is made with.
  Kubernetes' scheme and its functions are parameters; a scheme builder is the list of functions it documents
  itself as, which are applied in order until one fails. \<^verbatim>\<open>AddToScheme\<close> is bound to the variable, so it sees
  what \<^verbatim>\<open>init\<close> registered after it. A panic is \<open>None\<close>.
\<close>

record GroupVersion =
  gv_Group :: string
  gv_Version :: string

type_synonym 's add_func = "'s \<Rightarrow> error option \<times> 's"

record 's scheme_lib =
  sc_NewScheme :: 's
  sc_AddToGroupVersion :: "GroupVersion \<Rightarrow> 's \<Rightarrow> 's"
  sc_AddKnownTypes :: "GroupVersion \<Rightarrow> string list \<Rightarrow> 's \<Rightarrow> 's"
  sc_clientgo :: "'s add_func"
  sc_AddToScheme :: "'s add_func list \<Rightarrow> 's add_func"
  sc_Recognizes :: "'s \<Rightarrow> GroupVersion \<Rightarrow> string \<Rightarrow> bool"

subsection \<open>The package and the two \<^verbatim>\<open>init\<close>s\<close>

definition SchemeGroupVersion :: GroupVersion where
  "SchemeGroupVersion = \<lparr>gv_Group = ''agent.garam.sh'', gv_Version = ''v1alpha1''\<rparr>"

definition v1alpha1_GroupVersion :: GroupVersion where
  "v1alpha1_GroupVersion = SchemeGroupVersion"

definition SchemeBuilder :: "'s scheme_lib \<Rightarrow> 's add_func list" where
  "SchemeBuilder lib = [\<lambda>s. (None, sc_AddToGroupVersion lib SchemeGroupVersion s)]"

definition v1alpha1_init :: "'s scheme_lib \<Rightarrow> 's add_func list \<Rightarrow> 's add_func list" where
  "v1alpha1_init lib builder =
     builder @ [\<lambda>s. (None, sc_AddKnownTypes lib SchemeGroupVersion [''Agent'', ''AgentList''] s)]"

definition AddToScheme :: "'s scheme_lib \<Rightarrow> 's add_func" where
  "AddToScheme lib = sc_AddToScheme lib (v1alpha1_init lib (SchemeBuilder lib))"

definition Must :: "error option \<times> 's \<Rightarrow> 's option" where
  "Must r = (case r of (None, s) \<Rightarrow> Some s | (Some e, s) \<Rightarrow> None)"

definition main_init :: "'s scheme_lib \<Rightarrow> 's option" where
  "main_init lib =
     (case Must (sc_clientgo lib (sc_NewScheme lib)) of
        None \<Rightarrow> None
      | Some s \<Rightarrow> Must (AddToScheme lib s))"

subsection \<open>What a scheme does\<close>

text \<open>Adding types makes them recognized and forgets none; a builder applies its functions in order.\<close>

definition scheme_laws :: "'s scheme_lib \<Rightarrow> bool" where
  "scheme_laws lib \<longleftrightarrow>
     (\<forall>gv ts s v k. sc_Recognizes lib (sc_AddKnownTypes lib gv ts s) v k \<longleftrightarrow>
        sc_Recognizes lib s v k \<or> v = gv \<and> k \<in> set ts)
     \<and> (\<forall>gv s v k. sc_Recognizes lib s v k \<longrightarrow> sc_Recognizes lib (sc_AddToGroupVersion lib gv s) v k)
     \<and> (\<forall>s. sc_AddToScheme lib [] s = (None, s))
     \<and> (\<forall>f fs s. sc_AddToScheme lib (f # fs) s =
          (case f s of (None, s') \<Rightarrow> sc_AddToScheme lib fs s' | (Some e, s') \<Rightarrow> (Some e, s')))"

text \<open>
  The process starts with a scheme that knows both Agent types under the group the resource is served at, and
  everything client-go registered, or it does not start: it panics exactly where client-go's own types were
  refused.
\<close>

theorem main_init_registers:
  assumes "scheme_laws lib" and "sc_clientgo lib (sc_NewScheme lib) = (e, s)"
  shows "(main_init lib = None \<longleftrightarrow> e \<noteq> None)
    \<and> (\<forall>s'. main_init lib = Some s' \<longrightarrow>
         sc_Recognizes lib s' \<lparr>gv_Group = ''agent.garam.sh'', gv_Version = ''v1alpha1''\<rparr> ''Agent''
         \<and> sc_Recognizes lib s' \<lparr>gv_Group = ''agent.garam.sh'', gv_Version = ''v1alpha1''\<rparr> ''AgentList''
         \<and> (\<forall>v k. sc_Recognizes lib s v k \<longrightarrow> sc_Recognizes lib s' v k))"
  using assms
  by (auto simp: main_init_def Must_def AddToScheme_def v1alpha1_init_def SchemeBuilder_def SchemeGroupVersion_def
      scheme_laws_def split: option.splits)

text \<open>A scheme that is the list of what it knows.\<close>

definition listed_scheme :: "(GroupVersion \<times> string) list scheme_lib" where
  "listed_scheme =
     \<lparr>sc_NewScheme = [], sc_AddToGroupVersion = (\<lambda>gv s. s),
      sc_AddKnownTypes = (\<lambda>gv ts s. map (Pair gv) ts @ s),
      sc_clientgo = (\<lambda>s. (None, (\<lparr>gv_Group = ''apps'', gv_Version = ''v1''\<rparr>, ''StatefulSet'') # s)),
      sc_AddToScheme = rec_list (\<lambda>s. (None, s))
        (\<lambda>f fs run s. case f s of (None, s') \<Rightarrow> run s' | (Some e, s') \<Rightarrow> (Some e, s')),
      sc_Recognizes = (\<lambda>s gv k. (gv, k) \<in> set s)\<rparr>"

theorem main_init_registers_witness:
  "\<exists>s. main_init listed_scheme = Some s
     \<and> sc_Recognizes listed_scheme s \<lparr>gv_Group = ''agent.garam.sh'', gv_Version = ''v1alpha1''\<rparr> ''Agent''
     \<and> sc_Recognizes listed_scheme s \<lparr>gv_Group = ''apps'', gv_Version = ''v1''\<rparr> ''StatefulSet''"
proof -
  have laws: "scheme_laws listed_scheme" 
    by (auto simp: scheme_laws_def listed_scheme_def split: prod.splits option.splits)
  have run: "sc_clientgo listed_scheme (sc_NewScheme listed_scheme) =
      (None, [(\<lparr>gv_Group = ''apps'', gv_Version = ''v1''\<rparr>, ''StatefulSet'')])"
    by (simp add: listed_scheme_def)
  have known: "sc_Recognizes listed_scheme [(\<lparr>gv_Group = ''apps'', gv_Version = ''v1''\<rparr>, ''StatefulSet'')]
      \<lparr>gv_Group = ''apps'', gv_Version = ''v1''\<rparr> ''StatefulSet''" by (simp add: listed_scheme_def)
  from main_init_registers [OF laws run] known show ?thesis by blast
qed

end
