(* ===== verification/Convergence.thy ===== *)
theory Convergence
  imports Poller
begin

text \<open>
  Where the poller takes a cluster. What the poller can see of the cluster is a \<open>view\<close>: of each Agent
  its image, the Secret it names and the GRN on its status, and which Secrets there are. A pass of
  \<^verbatim>\<open>src/internal/garam/poller.go\<close> over \<^verbatim>\<open>constructor/agent.go\<close>, call by call against an API server that
  keeps what it is told, refines one function on views (\<open>poll_agent\<close>); what repeated passes come to is
  then a fact about that function. Nothing is assumed of how the cluster came to be as it is, so a
  process that stopped between any two of its writes is covered.
\<close>

subsection \<open>What a cluster shows the poller\<close>

definition brief :: "Agent \<Rightarrow> string \<times> string \<times> string" where
  "brief x = (as_Image (ag_Spec x), as_CredentialsSecretName (ag_Spec x), st_Agent (ag_Status x))"

record view =
  v_agents :: "object_key \<Rightarrow> (string \<times> string \<times> string) option"
  v_secrets :: "object_key set"

definition view_of :: "env \<Rightarrow> history \<Rightarrow> view" where
  "view_of env h =
     \<lparr>v_agents = (\<lambda>k. case getAgent env h k of Inl e \<Rightarrow> None | Inr x \<Rightarrow> Some (brief x)),
      v_secrets = {k. \<not> isl (getSecretMeta env h k)}\<rparr>"

text \<open>What a call the API server answered does to the view; a refused one does nothing.\<close>

fun effect :: "event \<Rightarrow> view \<Rightarrow> view" where
  "effect (CreateAgent x (Inr x')) v = v\<lparr>v_agents := (v_agents v)(key_of (ag_Meta x) \<mapsto> brief x')\<rparr>"
| "effect (PatchAgent k p (Inr x')) v = v\<lparr>v_agents := (v_agents v)(k \<mapsto> brief x')\<rparr>"
| "effect (PatchAgentStatus k p (Inr x')) v = v\<lparr>v_agents := (v_agents v)(k \<mapsto> brief x')\<rparr>"
| "effect (CreateSecret s (Inr u)) v = v\<lparr>v_secrets := insert (key_of (sec_Meta s)) (v_secrets v)\<rparr>"
| "effect e v = v"

text \<open>The events this world answers with at a history; of those that leave the view alone, any.\<close>

fun answered :: "env \<Rightarrow> history \<Rightarrow> event \<Rightarrow> bool" where
  "answered env h (CreateAgent x r) = (r = createAgent env h x)"
| "answered env h (PatchAgent k p r) = (r = patchAgent env h k p)"
| "answered env h (PatchAgentStatus k p r) = (r = patchAgentStatus env h k p)"
| "answered env h (CreateSecret s r) = (r = createSecret env h s)"
| "answered env h e = True"

text \<open>
  What the API server documents, while it can be reached and nobody else writes these objects: a read
  fails only where there is nothing, a create is refused exactly where there is something, a merge patch
  changes the fields it names, and every later read shows what was written. Other writers may change what
  the view leaves out, the conditions the reconciler sets among it.
\<close>

definition api_reads :: "env \<Rightarrow> bool" where
  "api_reads env \<longleftrightarrow>
     (\<forall>h e. answered env h e \<longrightarrow> view_of env (h @ [e]) = effect e (view_of env h))
     \<and> (\<forall>h k e. getAgent env h k = Inl e \<longrightarrow> IsNotFound e)
     \<and> (\<forall>h k x. getAgent env h k = Inr x \<longrightarrow> key_of (ag_Meta x) = k)
     \<and> (\<forall>h k e. getSecretMeta env h k = Inl e \<longrightarrow> IsNotFound e)"

definition api_writes :: "env \<Rightarrow> bool" where
  "api_writes env \<longleftrightarrow>
     (\<forall>h x. v_agents (view_of env h) (key_of (ag_Meta x)) = None \<longrightarrow>
          (\<exists>x'. createAgent env h x = Inr x' \<and> key_of (ag_Meta x') = key_of (ag_Meta x) \<and> brief x' = brief x))
     \<and> (\<forall>h x b. v_agents (view_of env h) (key_of (ag_Meta x)) = Some b \<longrightarrow>
          (\<exists>e. createAgent env h x = Inl e \<and> IsAlreadyExists e))
     \<and> (\<forall>h k img i s own. v_agents (view_of env h) k = Some (i, s, own) \<longrightarrow>
          (\<exists>x'. patchAgent env h k (image_patch img) = Inr x' \<and> brief x' = (img, s, own)))
     \<and> (\<forall>h k g ep i s own. v_agents (view_of env h) k = Some (i, s, own) \<longrightarrow>
          (\<exists>x'. patchAgentStatus env h k (status_patch g ep) = Inr x' \<and> key_of (ag_Meta x') = k \<and> brief x' = (i, s, g)))
     \<and> (\<forall>h s. key_of (sec_Meta s) \<in> v_secrets (view_of env h) \<longrightarrow>
          (\<exists>e. createSecret env h s = Inl e \<and> IsAlreadyExists e))
     \<and> (\<forall>h s. key_of (sec_Meta s) \<notin> v_secrets (view_of env h) \<longrightarrow> createSecret env h s = Inr ())
     \<and> (\<forall>owner ns n. \<exists>m. setControllerReference env owner (object_meta ns n) = Inr m \<and> key_of m = (ns, n))"

text \<open>garam holds the agents \<open>G\<close> for this operator: it lists them, grants each claim and certifies each.\<close>

definition garam_serves :: "env \<Rightarrow> Client \<Rightarrow> GRN set \<Rightarrow> bool" where
  "garam_serves env c G \<longleftrightarrow>
     (\<forall>h. \<exists>ds. fst (run_state (ListDefinitions env c) h) = Inr ds \<and> def_Agent ` set ds = G)
     \<and> (\<forall>g\<in>G. \<forall>h. \<not> isl (fst (run_state (ClaimDefinition env c g) h)))
     \<and> (\<forall>g\<in>G. \<forall>h. \<not> isl (fst (run_state (IssueAgentCertificate env c g) h)))"

subsection \<open>The specification: one agent, on views\<close>

definition correct_agent :: "AgentConstructor \<Rightarrow> GRN \<Rightarrow> view \<Rightarrow> view" where
  "correct_agent a g v =
     (case v_agents v (ctor_namespace a, Name g) of
        None \<Rightarrow> v
      | Some (i, s, own) \<Rightarrow>
          if own = g then v\<lparr>v_agents := (v_agents v)((ctor_namespace a, Name g) \<mapsto> (ctor_image a, s, own))\<rparr>
          else v)"

definition place_agent :: "AgentConstructor \<Rightarrow> GRN \<Rightarrow> view \<Rightarrow> view" where
  "place_agent a g v =
     (let (i, s) = (case v_agents v (ctor_namespace a, Name g) of
                      None \<Rightarrow> (ctor_image a, Name g @ credentialsSecretSuffix)
                    | Some (i, s, own) \<Rightarrow> (i, s))
      in v\<lparr>v_agents := (v_agents v)((ctor_namespace a, Name g) \<mapsto> (i, s, g)),
           v_secrets := insert (ctor_namespace a, s) (v_secrets v)\<rparr>)"

definition poll_agent :: "AgentConstructor \<Rightarrow> GRN \<Rightarrow> view \<Rightarrow> view" where
  "poll_agent a g v =
     (if credentialsKey a g \<in> v_secrets v then correct_agent a g v
      else place_agent a g (correct_agent a g v))"

subsection \<open>Every call, on the view\<close>

lemma api_readsD:
  assumes "api_reads env"
  shows "answered env h e \<Longrightarrow> view_of env (h @ [e]) = effect e (view_of env h)"
    and "getAgent env h k = Inl err \<Longrightarrow> IsNotFound err"
    and "getAgent env h k = Inr x \<Longrightarrow> key_of (ag_Meta x) = k"
    and "getSecretMeta env h k = Inl err \<Longrightarrow> IsNotFound err"
  using assms unfolding api_reads_def by blast+

lemmas view_snoc = api_readsD(1)

lemma view_agent:
  assumes "api_reads env"
  shows "v_agents (view_of env h) k = None \<Longrightarrow> \<exists>e. getAgent env h k = Inl e \<and> IsNotFound e"
    and "v_agents (view_of env h) k = Some b \<Longrightarrow> \<exists>x. getAgent env h k = Inr x \<and> brief x = b \<and> key_of (ag_Meta x) = k"
  using api_readsD(2,3) [OF assms] by (auto simp: view_of_def split: sum.splits)

lemma view_secret:
  assumes "api_reads env"
  shows "k \<notin> v_secrets (view_of env h) \<Longrightarrow> \<exists>e. getSecretMeta env h k = Inl e \<and> IsNotFound e"
    and "k \<in> v_secrets (view_of env h) \<Longrightarrow> getSecretMeta env h k = Inr ()"
  using api_readsD(4) [OF assms] by (cases "getSecretMeta env h k"; simp add: view_of_def)+

text \<open>Events that neither create nor patch leave the view, and so do operations that append no others.\<close>

lemma view_appended:
  assumes "api_reads env" and "\<forall>e\<in>set es. \<not> is_kube_write e"
  shows "view_of env (h @ es) = view_of env h"
  using assms(2)
proof (induction es rule: rev_induct)
  case (snoc e es)
  then have "answered env (h @ es) e" and "effect e v = v" for v by (cases e; simp)+
  with snoc view_snoc [OF assms(1), of "h @ es" e] show ?case by simp
qed simp

lemma view_kept:
  assumes "api_reads env" and "emits (\<lambda>e. \<not> is_kube_write e) m"
  shows "view_of env (snd (run_state m h)) = view_of env h"
proof -
  obtain es where "snd (run_state m h) = h @ es" and "\<forall>e\<in>set es. \<not> is_kube_write e"
    using assms(2) by (metis emitsE surjective_pairing)
  then show ?thesis by (simp add: view_appended [OF assms(1)])
qed

lemma view_upd_triv: "v_agents v k = Some b \<Longrightarrow> v\<lparr>v_agents := (v_agents v)(k \<mapsto> b)\<rparr> = v"
  by (simp add: map_upd_triv)

lemma view_quiet:
  assumes "api_reads env"
  shows "view_of env (h @ [Log l m kvs]) = view_of env h" "view_of env (h @ [GetAgent k ra]) = view_of env h"
    "view_of env (h @ [GetSecretMeta k ru]) = view_of env h"
  by (simp_all add: view_snoc [OF assms])

lemma api_writesD:
  assumes "api_writes env"
  shows "v_agents (view_of env h) (key_of (ag_Meta x)) = None \<Longrightarrow>
      \<exists>x'. createAgent env h x = Inr x' \<and> key_of (ag_Meta x') = key_of (ag_Meta x) \<and> brief x' = brief x"
    and "v_agents (view_of env h) (key_of (ag_Meta x)) = Some b \<Longrightarrow> \<exists>e. createAgent env h x = Inl e \<and> IsAlreadyExists e"
    and "v_agents (view_of env h) k = Some (i, s, own) \<Longrightarrow>
      \<exists>x'. patchAgent env h k (image_patch img) = Inr x' \<and> brief x' = (img, s, own)"
    and "v_agents (view_of env h) k = Some (i, s, own) \<Longrightarrow>
      \<exists>x'. patchAgentStatus env h k (status_patch g ep) = Inr x' \<and> key_of (ag_Meta x') = k \<and> brief x' = (i, s, g)"
    and "key_of (sec_Meta sec) \<in> v_secrets (view_of env h) \<Longrightarrow> \<exists>e. createSecret env h sec = Inl e \<and> IsAlreadyExists e"
    and "key_of (sec_Meta sec) \<notin> v_secrets (view_of env h) \<Longrightarrow> createSecret env h sec = Inr ()"
    and "\<exists>m. setControllerReference env owner (object_meta ns n) = Inr m \<and> key_of m = (ns, n)"
  using assms unfolding api_writes_def by (elim conjE; meson)+

lemma correct_refines:
  assumes "api_reads env" "api_writes env"
  shows "view_of env (snd (run_state (Agent_CorrectImage env a g) h)) = correct_agent a g (view_of env h)"
proof (cases "v_agents (view_of env h) (ctor_namespace a, Name g)")
  case None
  with view_agent(1) [OF assms(1) None] show ?thesis
    by (auto simp: Agent_CorrectImage_def correct_agent_def run_simps view_quiet [OF assms(1)])
next
  case (Some b)
  let ?k = "(ctor_namespace a, Name g)"
  obtain i s own where b: "b = (i, s, own)" by (cases b)
  obtain x where x: "getAgent env h ?k = Inr x" "brief x = b" "key_of (ag_Meta x) = ?k"
    using view_agent(2) [OF assms(1) Some] by blast
  let ?h = "h @ [GetAgent ?k (Inr x)]"
  have same: "view_of env ?h = view_of env h" by (simp add: view_quiet [OF assms(1)])
  obtain x' where x': "patchAgent env ?h ?k (image_patch (ctor_image a)) = Inr x'" "brief x' = (ctor_image a, s, own)"
    using api_writesD(3) [OF assms(2), of ?h ?k] Some b same by auto
  have "view_of env (?h @ [PatchAgent ?k (image_patch (ctor_image a)) (Inr x')]) =
      (view_of env h)\<lparr>v_agents := (v_agents (view_of env h))(?k \<mapsto> (ctor_image a, s, own))\<rparr>"
    using view_snoc [OF assms(1), of ?h "PatchAgent ?k (image_patch (ctor_image a)) (Inr x')"] x' same by simp
  moreover have "as_Image (ag_Spec x) = i" "st_Agent (ag_Status x) = own" using x b by (simp_all add: brief_def)
  ultimately show ?thesis
    using Some b x x' same view_upd_triv [of "view_of env h" ?k b]
    by (auto simp: Agent_CorrectImage_def correct_agent_def run_simps)
qed

lemma poller_correct_refines:
  assumes "api_reads env" "api_writes env" and "po_constructor p = agent_constructor env a"
  shows "view_of env (snd (run_state (poller_correct p g) h)) = correct_agent a g (view_of env h)"
proof -
  obtain r t where r: "run_state (Agent_CorrectImage env a g) h = (r, t)" by fastforce
  then have "view_of env t = correct_agent a g (view_of env h)" using correct_refines [OF assms(1,2), of a g h] by simp
  with r show ?thesis
    by (cases r) (simp_all add: poller_correct_def assms(3) agent_constructor_def run_simps view_quiet [OF assms(1)])
qed

subsection \<open>A construction, on the view\<close>

lemma createOrGetAgent_refines:
  assumes "api_reads env" "api_writes env" and k: "k = (ctor_namespace a, Name (def_Agent d))"
  obtains x t where "run_state (createOrGetAgent env g (constructed_agent a d)) h = (Inr x, t)"
    and "key_of (ag_Meta x) = k"
    and "brief x = (case v_agents (view_of env h) k of
        None \<Rightarrow> (ctor_image a, Name (def_Agent d) @ credentialsSecretSuffix, []) | Some b \<Rightarrow> b)"
    and "view_of env t = (view_of env h)\<lparr>v_agents := (v_agents (view_of env h))(k \<mapsto> brief x)\<rparr>"
proof (cases "v_agents (view_of env h) k")
  case None
  let ?y = "constructed_agent a d"
  have y: "key_of (ag_Meta ?y) = k"
    "brief ?y = (ctor_image a, Name (def_Agent d) @ credentialsSecretSuffix, [])"
    by (simp_all add: constructed_agent_def constructed_spec_def object_meta_def key_of_def k brief_def empty_status_def)
  obtain x where x: "createAgent env h ?y = Inr x" "key_of (ag_Meta x) = k" "brief x = brief ?y"
    using api_writesD(1) [OF assms(2), of h ?y] None y by auto
  show thesis
    by (rule that [of x "h @ [CreateAgent ?y (Inr x)]"])
      (use x y None view_snoc [OF assms(1), of h "CreateAgent ?y (Inr x)"] in \<open>simp_all add: createOrGetAgent_def run_simps\<close>)
next
  case (Some b)
  let ?y = "constructed_agent a d"
  have y: "key_of (ag_Meta ?y) = k" by (simp add: constructed_agent_def object_meta_def key_of_def k)
  obtain e where e: "createAgent env h ?y = Inl e" "IsAlreadyExists e"
    using api_writesD(2) [OF assms(2), of h ?y b] Some y by auto
  let ?h = "h @ [CreateAgent ?y (Inl e)]"
  have same: "view_of env ?h = view_of env h" using view_snoc [OF assms(1), of h "CreateAgent ?y (Inl e)"] e by simp
  obtain x where x: "getAgent env ?h k = Inr x" "brief x = b" "key_of (ag_Meta x) = k"
    using view_agent(2) [OF assms(1), of ?h k b] Some same by auto
  show thesis
    by (rule that [of x "?h @ [GetAgent k (Inr x)]"])
      (use x y e Some same view_quiet(2) [OF assms(1), of ?h k "Inr x"] in
        \<open>simp_all add: createOrGetAgent_def run_simps view_upd_triv\<close>)
qed

lemma ensureAgent_refines:
  assumes "api_reads env" "api_writes env" and k: "k = (ctor_namespace a, Name (def_Agent d))"
  obtains x t i s own where "run_state (ensureAgent env a d epoch) h = (Inr x, t)"
    and "key_of (ag_Meta x) = k" and "as_CredentialsSecretName (ag_Spec x) = s"
    and "(i, s, own) = (case v_agents (view_of env h) k of
        None \<Rightarrow> (ctor_image a, Name (def_Agent d) @ credentialsSecretSuffix, []) | Some b \<Rightarrow> b)"
    and "view_of env t = (view_of env h)\<lparr>v_agents := (v_agents (view_of env h))(k \<mapsto> (i, s, def_Agent d))\<rparr>"
proof -
  let ?g = "def_Agent d" and ?v = "view_of env h"
  obtain x t where run: "run_state (createOrGetAgent env ?g (constructed_agent a d)) h = (Inr x, t)"
    and key: "key_of (ag_Meta x) = k"
    and bx: "brief x = (case v_agents ?v k of
        None \<Rightarrow> (ctor_image a, Name ?g @ credentialsSecretSuffix, []) | Some b \<Rightarrow> b)"
    and vt: "view_of env t = ?v\<lparr>v_agents := (v_agents ?v)(k \<mapsto> brief x)\<rparr>"
    by (rule createOrGetAgent_refines [OF assms])
  obtain i s own where b: "brief x = (i, s, own)" by (cases "brief x")
  have s: "as_CredentialsSecretName (ag_Spec x) = s" "st_Agent (ag_Status x) = own" using b by (simp_all add: brief_def)
  show thesis
  proof (cases "own = ?g \<and> st_Epoch (ag_Status x) = epoch")
    case True
    show ?thesis
      by (rule that [of x t s i own])
        (use True run key bx vt b s in \<open>simp_all add: ensureAgent_def run_simps\<close>)
  next
    case False
    have "v_agents (view_of env t) k = Some (i, s, own)" using vt b by simp
    from api_writesD(4) [OF assms(2) this] obtain y where
      y: "patchAgentStatus env t k (status_patch ?g epoch) = Inr y" "key_of (ag_Meta y) = k" "brief y = (i, s, ?g)" by blast
    let ?y = "y\<lparr>ag_Status := (ag_Status y)\<lparr>st_Agent := ?g, st_Epoch := epoch\<rparr>\<rparr>"
    have "view_of env (t @ [PatchAgentStatus k (status_patch ?g epoch) (Inr y)]) =
        ?v\<lparr>v_agents := (v_agents ?v)(k \<mapsto> (i, s, ?g))\<rparr>"
      using view_snoc [OF assms(1), of t "PatchAgentStatus k (status_patch ?g epoch) (Inr y)"] y vt by simp
    then show ?thesis
      by (intro that [of ?y "t @ [PatchAgentStatus k (status_patch ?g epoch) (Inr y)]" s i own])
        (use False run key bx b s y in \<open>auto simp: ensureAgent_def run_simps brief_def\<close>)
  qed
qed

lemma Construct_refines:
  assumes "api_reads env" "api_writes env"
  obtains t where "run_state (Agent_Construct env a d epoch credential) h = (Inr (), t)"
    and "view_of env t = place_agent a (def_Agent d) (view_of env h)"
proof -
  let ?k = "(ctor_namespace a, Name (def_Agent d))" and ?v = "view_of env h"
  obtain x t i s own where run: "run_state (ensureAgent env a d epoch) h = (Inr x, t)"
    and key: "key_of (ag_Meta x) = ?k" and s: "as_CredentialsSecretName (ag_Spec x) = s"
    and old: "(i, s, own) = (case v_agents ?v ?k of
        None \<Rightarrow> (ctor_image a, Name (def_Agent d) @ credentialsSecretSuffix, []) | Some b \<Rightarrow> b)"
    and vt: "view_of env t = ?v\<lparr>v_agents := (v_agents ?v)(?k \<mapsto> (i, s, def_Agent d))\<rparr>"
    by (rule ensureAgent_refines [OF assms refl])
  have ns: "om_Namespace (ag_Meta x) = ctor_namespace a" using key by (simp add: key_of_def)
  obtain m where m: "setControllerReference env (ag_Meta x) (object_meta (ctor_namespace a) s) = Inr m"
    "key_of m = (ctor_namespace a, s)" using api_writesD(7) [OF assms(2)] by blast
  let ?s = "\<lparr>sec_Meta = m, sec_Data = credential_data credential\<rparr>"
  have "\<not> isl (createSecret env t ?s) \<or> (\<exists>e. createSecret env t ?s = Inl e \<and> IsAlreadyExists e)"
    and v: "view_of env (t @ [CreateSecret ?s (createSecret env t ?s)]) =
      (view_of env t)\<lparr>v_secrets := insert (ctor_namespace a, s) (v_secrets (view_of env t))\<rparr>"
    using api_writesD(5,6) [OF assms(2), of ?s t] m
      view_snoc [OF assms(1), of t "CreateSecret ?s (createSecret env t ?s)"]
    by (cases "(ctor_namespace a, s) \<in> v_secrets (view_of env t)"; auto simp: insert_absorb)+
  then have "run_state (Agent_Construct env a d epoch credential) h =
      (Inr (), t @ [CreateSecret ?s (createSecret env t ?s)])"
    using run s ns m by (auto simp: Agent_Construct_def placeCredential_def run_simps isl_def split: sum.splits)
  moreover have "view_of env (t @ [CreateSecret ?s (createSecret env t ?s)]) = place_agent a (def_Agent d) ?v"
    using v vt old by (auto simp: place_agent_def split: option.splits)
  ultimately show thesis by (rule that)
qed

subsection \<open>One definition, on the view\<close>

lemma garam_servesD:
  assumes "garam_serves env c G"
  shows "\<exists>ds. fst (run_state (ListDefinitions env c) h) = Inr ds \<and> def_Agent ` set ds = G"
    and "g \<in> G \<Longrightarrow> \<exists>x. fst (run_state (ClaimDefinition env c g) h) = Inr x"
    and "g \<in> G \<Longrightarrow> \<exists>x. fst (run_state (IssueAgentCertificate env c g) h) = Inr x"
proof -
  have "\<exists>y. x = Inr y" if "\<not> isl x" for x :: "error + AgentCredential" using that by (cases x) simp_all
  moreover have "\<exists>y. x = Inr y" if "\<not> isl x" for x :: "error + Assignment" using that by (cases x) simp_all
  ultimately show
    "\<exists>ds. fst (run_state (ListDefinitions env c) h) = Inr ds \<and> def_Agent ` set ds = G"
    "g \<in> G \<Longrightarrow> \<exists>x. fst (run_state (ClaimDefinition env c g) h) = Inr x"
    "g \<in> G \<Longrightarrow> \<exists>x. fst (run_state (IssueAgentCertificate env c g) h) = Inr x"
    using assms unfolding garam_serves_def by auto
qed

lemma correct_keeps_secrets [simp]: "v_secrets (correct_agent a g v) = v_secrets v"
  by (simp add: correct_agent_def split: option.splits)

lemma construct_refines:
  assumes "api_reads env" "api_writes env" "garam_serves env c G" and "def_Agent d \<in> G"
    and p: "p = NewPoller c (agent_constructor env a) interval"
  shows "view_of env (snd (run_state (poller_construct env p d epoch) h)) =
      (if credentialsKey a (def_Agent d) \<in> v_secrets (view_of env h) then view_of env h
       else place_agent a (def_Agent d) (view_of env h))"
proof (cases "credentialsKey a (def_Agent d) \<in> v_secrets (view_of env h)")
  case True
  then show ?thesis using view_secret(2) [OF assms(1)]
    by (simp add: poller_construct_def p NewPoller_def agent_constructor_def Agent_HasCredential_def run_simps
        view_quiet [OF assms(1)])
next
  case False
  let ?g = "def_Agent d" and ?k = "credentialsKey a (def_Agent d)"
  obtain e where e: "getSecretMeta env h ?k = Inl e" "IsNotFound e" using view_secret(1) [OF assms(1) False] by blast
  let ?h = "h @ [GetSecretMeta ?k (Inl e)]"
  obtain x where x: "fst (run_state (IssueAgentCertificate env c ?g) ?h) = Inr x"
    using garam_servesD(3) [OF assms(3,4)] by blast
  then obtain t where t: "run_state (IssueAgentCertificate env c ?g) ?h = (Inr x, t)" by (metis prod.collapse)
  have "view_of env t = view_of env ?h"
    using view_kept [OF assms(1) emits_routes(3) [of _ c ?g env], of ?h] t by simp
  then have vt: "view_of env t = view_of env h" by (simp add: view_quiet [OF assms(1)])
  obtain u where "run_state (Agent_Construct env a d epoch x) t = (Inr (), u)"
    and "view_of env u = place_agent a ?g (view_of env t)" by (rule Construct_refines [OF assms(1,2)])
  then show ?thesis using False e t vt
    by (simp add: poller_construct_def poller_place_def p NewPoller_def agent_constructor_def Agent_HasCredential_def
        run_simps view_quiet [OF assms(1)])
qed

text \<open>The loop's body refines the specification, whether the definition was claimed before or is claimed now.\<close>

lemma poll_definition_claimed:
  assumes "garam_serves env c G" and "def_Agent d \<in> G" and "po_client p = c"
  obtains t epoch where "snd (run_state (poll_definition env p d) h) =
      snd (run_state (do { poller_correct p (def_Agent d); poller_construct env p d epoch }) t)"
    and "\<exists>es. t = h @ es \<and> (\<forall>e\<in>set es. \<not> is_kube_write e \<and> (\<forall>g. \<not> asks_certificate c g e))"
proof -
  let ?quiet = "\<lambda>es. \<forall>e\<in>set es. \<not> is_kube_write e \<and> (\<forall>g. \<not> asks_certificate c g e)"
  let ?body = "\<lambda>epoch. do { poller_correct p (def_Agent d); poller_construct env p d epoch }"
  let ?l = "if def_Ignored d \<noteq> [] then [Log LogDebug ''Ignored the values of a definition this operator holds no contract for''
      [(''agent'', LvStr (def_Agent d)), (''keys'', LvStrs (def_Ignored d))]] else []"
  have l: "?quiet ?l" by (simp add: asks_certificate_def)
  show thesis
  proof (cases "def_Claim d")
    case (Some cl)
    show ?thesis
      by (rule that [of "claim_Epoch cl" "h @ ?l"]) (use Some l in \<open>auto simp: poll_definition_def run_simps\<close>)
  next
    case None
    obtain x where x: "fst (run_state (ClaimDefinition env c (def_Agent d)) h) = Inr x"
      using garam_servesD(2) [OF assms(1,2)] by blast
    then obtain t where t: "run_state (ClaimDefinition env c (def_Agent d)) h = (Inr x, t)" by (metis prod.collapse)
    have "emits (\<lambda>e. \<not> is_kube_write e \<and> (\<forall>g. \<not> asks_certificate c g e)) (ClaimDefinition env c (def_Agent d))"
      by (intro emits_routes) (auto simp: asks_certificate_def request_for_def claim_path_def certificate_path_def)
    from emitsE [OF this t] obtain es where es: "t = h @ es" "?quiet es" by blast
    let ?c = "Log LogInfo ''Claimed a definition'' [(''agent'', LvStr (asg_Agent x)), (''epoch'', LvInt (asg_Epoch x))]"
    show ?thesis
      by (rule that [of "asg_Epoch x" "h @ es @ ?c # ?l"])
        (use None t es l assms(3) in \<open>auto simp: poll_definition_def poller_claim_def run_simps asks_certificate_def\<close>)
  qed
qed

lemma poll_definition_refines:
  assumes "api_reads env" "api_writes env" "garam_serves env c G" and "def_Agent d \<in> G"
    and p: "p = NewPoller c (agent_constructor env a) interval"
  shows "view_of env (snd (run_state (poll_definition env p d) h)) = poll_agent a (def_Agent d) (view_of env h)"
proof -
  let ?g = "def_Agent d"
  have fields: "po_client p = c" "po_constructor p = agent_constructor env a" by (simp_all add: p NewPoller_def)
  obtain t epoch where run: "snd (run_state (poll_definition env p d) h) =
      snd (run_state (do { poller_correct p ?g; poller_construct env p d epoch }) t)"
    and quiet: "\<exists>es. t = h @ es \<and> (\<forall>e\<in>set es. \<not> is_kube_write e \<and> (\<forall>g. \<not> asks_certificate c g e))"
    by (rule poll_definition_claimed [OF assms(3,4) fields(1)])
  then obtain es where es: "t = h @ es" "\<forall>e\<in>set es. \<not> is_kube_write e" by blast
  have vt: "view_of env t = view_of env h" using view_appended [OF assms(1) es(2)] es(1) by simp
  obtain u where u: "run_state (poller_correct p ?g) t = ((), u)" by (metis old.unit.exhaust surj_pair)
  have "view_of env u = correct_agent a ?g (view_of env h)"
    using poller_correct_refines [OF assms(1,2) fields(2), of ?g t] u vt by simp
  then show ?thesis
    using run u construct_refines [OF assms(1-4) p, of epoch u] by (simp add: run_simps poll_agent_def)
qed

subsection \<open>One pass, on the view\<close>

lemma for_each_refines:
  assumes "api_reads env" "api_writes env" "garam_serves env c G" and "def_Agent ` set ds \<subseteq> G"
    and "p = NewPoller c (agent_constructor env a) interval"
  shows "view_of env (snd (run_state (for_each ds (poll_definition env p)) h)) =
      fold (poll_agent a) (map def_Agent ds) (view_of env h)"
  using assms(4)
  by (induction ds arbitrary: h) (simp_all add: run_simps poll_definition_refines [OF assms(1-3) _ assms(5)])

text \<open>What a pass does first, up to the loop.\<close>

lemma poll_listed:
  assumes "garam_serves env c G" and "po_client p = c"
  obtains ds t es where "run_state (poll env p) h = run_state (for_each ds (poll_definition env p)) t"
    and "def_Agent ` set ds = G" and "t = h @ es"
    and "\<forall>e\<in>set es. \<not> is_kube_write e \<and> (\<forall>g. \<not> asks_certificate c g e)"
proof -
  obtain ds where ds: "fst (run_state (ListDefinitions env c) h) = Inr ds" "def_Agent ` set ds = G"
    using garam_servesD(1) [OF assms(1)] by blast
  then obtain t where t: "run_state (ListDefinitions env c) h = (Inr ds, t)" by (metis prod.collapse)
  have "emits (\<lambda>e. \<not> is_kube_write e \<and> (\<forall>g. \<not> asks_certificate c g e)) (ListDefinitions env c)"
    by (intro emits_routes) (auto simp: asks_certificate_def request_for_def)
  from emitsE [OF this t] obtain es where es: "t = h @ es"
    "\<forall>e\<in>set es. \<not> is_kube_write e \<and> (\<forall>g. \<not> asks_certificate c g e)" by blast
  let ?l = "Log LogDebug ''Read the definitions garam holds for this operator'' [(''count'', LvInt (int (length ds)))]"
  show thesis
    by (rule that [of ds "h @ es @ [?l]" "es @ [?l]"])
      (use ds t es assms(2) in \<open>auto simp: run_poll asks_certificate_def\<close>)
qed

lemma poll_refines:
  assumes "api_reads env" "api_writes env" "garam_serves env c G"
    and p: "p = NewPoller c (agent_constructor env a) interval"
  obtains gs where "set gs = G"
    and "view_of env (snd (run_state (poll env p) h)) = fold (poll_agent a) gs (view_of env h)"
proof -
  have "po_client p = c" by (simp add: p NewPoller_def)
  then obtain ds t es where "run_state (poll env p) h = run_state (for_each ds (poll_definition env p)) t"
    and "def_Agent ` set ds = G" and "t = h @ es"
    and "\<forall>e\<in>set es. \<not> is_kube_write e \<and> (\<forall>g. \<not> asks_certificate c g e)"
    by (rule poll_listed [OF assms(3)])
  then show thesis
    using for_each_refines [OF assms(1-3) _ p, of ds t] view_appended [OF assms(1), of es h]
    by (intro that [of "map def_Agent ds"]) auto
qed

subsection \<open>What the specification comes to\<close>

definition placed :: "AgentConstructor \<Rightarrow> view \<Rightarrow> GRN \<Rightarrow> bool" where
  "placed a v g \<longleftrightarrow> credentialsKey a g \<in> v_secrets v"

definition built_for :: "AgentConstructor \<Rightarrow> view \<Rightarrow> GRN \<Rightarrow> bool" where
  "built_for a v g \<longleftrightarrow> (\<exists>i s. v_agents v (ctor_namespace a, Name g) = Some (i, s, g))"

definition settled :: "AgentConstructor \<Rightarrow> view \<Rightarrow> GRN \<Rightarrow> bool" where
  "settled a v g \<longleftrightarrow> placed a v g \<and>
     (\<forall>i s. v_agents v (ctor_namespace a, Name g) = Some (i, s, g) \<longrightarrow> i = ctor_image a)"

text \<open>Every Agent under a listed agent's name names the Secret of that agent: none was written by somebody else.\<close>

definition owned :: "AgentConstructor \<Rightarrow> GRN set \<Rightarrow> view \<Rightarrow> bool" where
  "owned a G v \<longleftrightarrow> (\<forall>g\<in>G. \<forall>i s own. v_agents v (ctor_namespace a, Name g) = Some (i, s, own)
     \<longrightarrow> s = Name g @ credentialsSecretSuffix)"

lemmas spec_defs = poll_agent_def correct_agent_def place_agent_def

lemma poll_agent_owned: "owned a G v \<Longrightarrow> g \<in> G \<Longrightarrow> owned a G (poll_agent a g v)"
  unfolding owned_def spec_defs by (auto simp: Let_def split: option.splits if_splits prod.splits)

lemma poll_agent_placed: "placed a v g' \<Longrightarrow> placed a (poll_agent a g v) g'"
  by (auto simp: placed_def poll_agent_def place_agent_def Let_def split: prod.splits)

lemma poll_agent_places: "owned a G v \<Longrightarrow> g \<in> G \<Longrightarrow> placed a (poll_agent a g v) g"
  unfolding owned_def placed_def spec_defs credentialsKey_def
  by (auto simp: Let_def split: option.splits if_splits prod.splits)

lemma poll_agent_settles: "placed a v g \<Longrightarrow> settled a (poll_agent a g v) g"
  by (auto simp: settled_def placed_def poll_agent_def correct_agent_def split: option.splits if_splits)

lemma poll_agent_idle: "settled a v g \<Longrightarrow> poll_agent a g v = v"
  by (auto simp: settled_def placed_def poll_agent_def correct_agent_def view_upd_triv split: option.splits)

lemma poll_agent_elsewhere:
  assumes "Name g \<noteq> Name g'"
  shows "v_agents (poll_agent a g v) (ctor_namespace a, Name g') = v_agents v (ctor_namespace a, Name g')"
  using assms unfolding spec_defs by (auto simp: Let_def split: option.splits prod.splits)

lemma poll_agent_settled:
  assumes "settled a v g'" and "Name g = Name g' \<Longrightarrow> g = g'"
  shows "settled a (poll_agent a g v) g'"
proof (cases "g = g'")
  case True
  with assms(1) show ?thesis by (simp add: poll_agent_idle)
next
  case False
  then have "Name g \<noteq> Name g'" using assms(2) by blast
  with assms(1) show ?thesis by (simp add: settled_def poll_agent_elsewhere poll_agent_placed)
qed

text \<open>A credential that is there was there or has its Agent: no pass places one without the other.\<close>

lemma poll_agent_builds:
  assumes "owned a G v" and "g \<in> G" and "Name g = Name g' \<Longrightarrow> g = g'" and "placed a v g' \<longrightarrow> Q \<or> built_for a v g'"
  shows "placed a (poll_agent a g v) g' \<longrightarrow> Q \<or> built_for a (poll_agent a g v) g'"
proof (cases "g = g'")
  case True
  then show ?thesis
    using assms(4) unfolding placed_def built_for_def spec_defs
    by (auto simp: Let_def split: option.splits if_splits prod.splits)
next
  case False
  then have n: "Name g \<noteq> Name g'" using assms(3) by blast
  then have "placed a (poll_agent a g v) g' \<Longrightarrow> placed a v g'"
    using assms(1,2) unfolding placed_def owned_def spec_defs credentialsKey_def
    by (auto simp: Let_def split: option.splits if_splits prod.splits)
  with n assms(4) show ?thesis by (auto simp: built_for_def poll_agent_elsewhere)
qed

lemma fold_preserves:
  assumes "P v" and "\<And>g v. g \<in> set gs \<Longrightarrow> P v \<Longrightarrow> P (poll_agent a g v)"
  shows "P (fold (poll_agent a) gs v)"
  using assms by (induction gs arbitrary: v) simp_all

lemma fold_reaches:
  assumes "g \<in> set gs" and "I v" and "\<And>g v. g \<in> set gs \<Longrightarrow> I v \<Longrightarrow> I (poll_agent a g v)"
    and "\<And>v. I v \<Longrightarrow> Q (poll_agent a g v)" and "\<And>g v. g \<in> set gs \<Longrightarrow> Q v \<Longrightarrow> Q (poll_agent a g v)"
  shows "Q (fold (poll_agent a) gs v)"
proof -
  obtain xs ys where gs: "gs = xs @ g # ys" using assms(1) by (meson split_list)
  have "I (fold (poll_agent a) xs v)" by (rule fold_preserves [of I, OF assms(2,3)]) (simp_all add: gs)
  then have "Q (poll_agent a g (fold (poll_agent a) xs v))" by (rule assms(4))
  then have "Q (fold (poll_agent a) ys (poll_agent a g (fold (poll_agent a) xs v)))"
    by (rule fold_preserves [of Q]) (simp add: assms(5) gs)
  then show ?thesis by (simp add: gs)
qed

definition converging :: "AgentConstructor \<Rightarrow> GRN set \<Rightarrow> view \<Rightarrow> view \<Rightarrow> bool" where
  "converging a G v0 v \<longleftrightarrow> owned a G v \<and> (\<forall>g\<in>G. placed a v g \<longrightarrow> placed a v0 g \<or> built_for a v g)"

lemma pass_converging:
  assumes "converging a G v0 v" and "set gs = G" and "inj_on Name G"
  shows "converging a G v0 (fold (poll_agent a) gs v)"
    and "\<forall>g\<in>G. placed a (fold (poll_agent a) gs v) g"
    and "\<forall>g\<in>G. placed a v g \<Longrightarrow> \<forall>g\<in>G. settled a (fold (poll_agent a) gs v) g"
proof -
  have same: "g = g'" if "g \<in> G" "g' \<in> G" "Name g = Name g'" for g g'
    using assms(3) that by (simp add: inj_on_eq_iff)
  have step: "converging a G v0 (poll_agent a g v)" if "g \<in> set gs" "converging a G v0 v" for g v
  proof -
    have "placed a (poll_agent a g v) g' \<longrightarrow> placed a v0 g' \<or> built_for a (poll_agent a g v) g'" if "g' \<in> G" for g'
      using \<open>g \<in> set gs\<close> \<open>converging a G v0 v\<close> assms(2) that same unfolding converging_def
      by (intro poll_agent_builds [of a G]) blast+
    with that assms(2) show ?thesis by (simp add: converging_def poll_agent_owned)
  qed
  show "converging a G v0 (fold (poll_agent a) gs v)" using assms(1) step by (rule fold_preserves)
  show "\<forall>g\<in>G. placed a (fold (poll_agent a) gs v) g"
  proof
    fix g assume "g \<in> G"
    then show "placed a (fold (poll_agent a) gs v) g"
      using assms(1,2) step
      by (intro fold_reaches [where I = "converging a G v0" and Q = "\<lambda>v. placed a v g"])
        (auto simp: converging_def poll_agent_placed intro: poll_agent_places)
  qed
  show "\<forall>g\<in>G. settled a (fold (poll_agent a) gs v) g" if "\<forall>g\<in>G. placed a v g"
  proof
    fix g assume "g \<in> G"
    then show "settled a (fold (poll_agent a) gs v) g"
      using assms(2) that same
      by (intro fold_reaches [where I = "\<lambda>v. placed a v g" and Q = "\<lambda>v. settled a v g"])
        (auto simp: poll_agent_placed poll_agent_settles intro: poll_agent_settled)
  qed
qed

subsection \<open>A settled agent is left alone\<close>

lemma settled_quiet:
  assumes "api_reads env" "garam_serves env c G" and "def_Agent d \<in> G"
    and p: "p = NewPoller c (agent_constructor env a) interval" and "settled a (view_of env h) (def_Agent d)"
  obtains es where "snd (run_state (poll_definition env p d) h) = h @ es"
    and "\<forall>e\<in>set es. \<not> is_kube_write e \<and> (\<forall>g. \<not> asks_certificate c g e)"
proof -
  let ?g = "def_Agent d" and ?k = "(ctor_namespace a, Name (def_Agent d))"
  have fields: "po_client p = c" "po_constructor p = agent_constructor env a" by (simp_all add: p NewPoller_def)
  obtain t epoch where run: "snd (run_state (poll_definition env p d) h) =
      snd (run_state (do { poller_correct p ?g; poller_construct env p d epoch }) t)"
    and "\<exists>es. t = h @ es \<and> (\<forall>e\<in>set es. \<not> is_kube_write e \<and> (\<forall>g. \<not> asks_certificate c g e))"
    by (rule poll_definition_claimed [OF assms(2,3) fields(1)])
  then obtain es where es: "t = h @ es" "\<forall>e\<in>set es. \<not> is_kube_write e \<and> (\<forall>g. \<not> asks_certificate c g e)" by blast
  have vt: "view_of env t = view_of env h" using view_appended [OF assms(1), of es h] es by simp
  let ?e = "GetAgent ?k (getAgent env t ?k)"
  have right: "as_Image (ag_Spec x) = ctor_image a" if "getAgent env t ?k = Inr x" "st_Agent (ag_Status x) = ?g" for x
    using assms(5) that unfolding vt [symmetric] by (auto simp: settled_def view_of_def brief_def)
  have "run_state (poller_correct p ?g) t = ((), t @ [?e])"
    using api_readsD(2) [OF assms(1), of t ?k] right
    by (cases "getAgent env t ?k")
      (simp_all add: poller_correct_def fields agent_constructor_def Agent_CorrectImage_def run_simps)
  moreover have "getSecretMeta env (t @ [?e]) (credentialsKey a ?g) = Inr ()"
    using assms(5) view_secret(2) [OF assms(1), of "credentialsKey a ?g" "t @ [?e]"]
    by (simp add: settled_def placed_def view_quiet [OF assms(1)] vt)
  ultimately have "snd (run_state (poll_definition env p d) h) =
      h @ (es @ [?e, GetSecretMeta (credentialsKey a ?g) (Inr ())])"
    using run es by (simp add: poller_construct_def fields agent_constructor_def Agent_HasCredential_def run_simps)
  then show thesis by (rule that) (use es(2) in \<open>auto simp: asks_certificate_def\<close>)
qed

definition idle :: "Client \<Rightarrow> history \<Rightarrow> bool" where
  "idle c es \<longleftrightarrow> (\<forall>e\<in>set es. \<not> is_kube_write e \<and> (\<forall>g. \<not> asks_certificate c g e))"

lemma idle_simps [simp]: "idle c []" "idle c (xs @ ys) \<longleftrightarrow> idle c xs \<and> idle c ys"
  by (auto simp: idle_def)

lemma view_idle: "api_reads env \<Longrightarrow> idle c es \<Longrightarrow> view_of env (h @ es) = view_of env h"
  by (simp add: idle_def view_appended)

lemma settled_for_each:
  assumes "api_reads env" "garam_serves env c G" "def_Agent ` set ds \<subseteq> G"
    and "p = NewPoller c (agent_constructor env a) interval" and "\<forall>g\<in>G. settled a (view_of env h) g"
  shows "\<exists>es. snd (run_state (for_each ds (poll_definition env p)) h) = h @ es \<and> idle c es"
  using assms(3,5)
proof (induction ds arbitrary: h)
  case (Cons d ds)
  have "def_Agent d \<in> G" and "settled a (view_of env h) (def_Agent d)" using Cons.prems by auto
  from settled_quiet [OF assms(1,2) this(1) assms(4) this(2)] obtain es where
    es: "snd (run_state (poll_definition env p d) h) = h @ es" "idle c es" unfolding idle_def by blast
  from Cons.IH [of "h @ es"] Cons.prems es(2) obtain fs where
    "snd (run_state (for_each ds (poll_definition env p)) (h @ es)) = h @ es @ fs" "idle c fs"
    by (auto simp: view_idle [OF assms(1)])
  with es show ?case by (intro exI [of _ "es @ fs"]) (simp add: run_simps)
qed (simp add: run_simps)

lemma settled_passes:
  assumes "api_reads env" "garam_serves env c G"
    and p: "p = NewPoller c (agent_constructor env a) interval" and "\<forall>g\<in>G. settled a (view_of env h) g"
  shows "\<exists>es. snd (run_state (repeat_n n (poll env p)) h) = h @ es \<and> idle c es"
  using assms(4)
proof (induction n arbitrary: h)
  case (Suc n)
  have "po_client p = c" by (simp add: p NewPoller_def)
  then obtain ds t es where run: "run_state (poll env p) h = run_state (for_each ds (poll_definition env p)) t"
    and ds: "def_Agent ` set ds = G" and t: "t = h @ es"
    and "\<forall>e\<in>set es. \<not> is_kube_write e \<and> (\<forall>g. \<not> asks_certificate c g e)"
    by (rule poll_listed [OF assms(2)])
  then have es: "idle c es" by (simp add: idle_def)
  obtain fs where fs: "snd (run_state (for_each ds (poll_definition env p)) t) = t @ fs" "idle c fs"
    using settled_for_each [OF assms(1,2) _ p, of ds t] ds Suc.prems t es by (auto simp: view_idle [OF assms(1)])
  let ?h = "snd (run_state (poll env p) h)"
  have h: "?h = h @ es @ fs" using run fs t by simp
  have "\<forall>g\<in>G. settled a (view_of env ?h) g" using Suc.prems es fs by (simp add: h view_idle [OF assms(1), of c])
  from Suc.IH [OF this] obtain gs where "snd (run_state (repeat_n n (poll env p)) ?h) = ?h @ gs" "idle c gs" by blast
  with h es fs show ?case by (intro exI [of _ "es @ fs @ gs"]) (simp add: run_simps)
qed (simp add: run_simps)

subsection \<open>Properties\<close>

text \<open>C7: The poller converges from wherever it is left. Whatever Agents and Secrets an earlier process left
  behind, stopped between any two of its writes, two passes against an API server that keeps what it is
  told and a garam that certifies what it assigned bring every assigned agent to a placed credential, and to
  an Agent that carries the agent's name and runs the configured image wherever the credential was not
  there before. From then on no pass writes anything to the cluster or asks garam for a certificate.\<close>

theorem poller_converges:
  assumes "api_reads env" and "api_writes env" and "garam_serves env c G" and "inj_on Name G"
    and "owned a G (view_of env h)"
    and "t = snd (run_state (Poller_Start 2 env (NewPoller c (agent_constructor env a) interval)) h)"
  shows "(\<forall>g\<in>G. getSecretMeta env t (credentialsKey a g) = Inr ()
      \<and> (getSecretMeta env h (credentialsKey a g) = Inr ()
         \<or> (\<exists>x. getAgent env t (ctor_namespace a, Name g) = Inr x
              \<and> st_Agent (ag_Status x) = g \<and> as_Image (ag_Spec x) = ctor_image a)))
    \<and> (\<forall>n. \<forall>e\<in>set (appended (repeat_n n (poll env (NewPoller c (agent_constructor env a) interval))) t).
        \<not> is_kube_write e \<and> (\<forall>g. \<not> asks_certificate c g e))"
proof -
  let ?p = "NewPoller c (agent_constructor env a) interval"
  let ?l = "Log LogInfo ''Polling garam for definitions'' [(''interval'', LvInt (po_interval ?p))]"
  let ?h = "h @ [?l]" let ?u = "snd (run_state (poll env ?p) (h @ [?l]))"
  have t: "t = snd (run_state (poll env ?p) ?u)"
    using assms(6) by (simp add: Poller_Start_def run_simps numeral_2_eq_2)
  have vh: "view_of env ?h = view_of env h" by (simp add: view_quiet [OF assms(1)])
  obtain gs where gs: "set gs = G" and u: "view_of env ?u = fold (poll_agent a) gs (view_of env h)"
    using poll_refines [OF assms(1-3) refl, of a interval ?h] vh by metis
  obtain gs' where gs': "set gs' = G" and vt: "view_of env t = fold (poll_agent a) gs' (view_of env ?u)"
    using poll_refines [OF assms(1-3) refl, of a interval ?u] t by metis
  have "converging a G (view_of env h) (view_of env h)" using assms(5) by (simp add: converging_def)
  note one = pass_converging [OF this gs assms(4), folded u]
  note two = pass_converging [OF one(1) gs' assms(4), folded vt]
  have settled: "\<forall>g\<in>G. settled a (view_of env t) g" using two(3) one(2) by blast
  have built: "\<exists>x. getAgent env t (ctor_namespace a, Name g) = Inr x
      \<and> st_Agent (ag_Status x) = g \<and> as_Image (ag_Spec x) = ctor_image a"
    if "g \<in> G" "\<not> placed a (view_of env h) g" for g
  proof -
    have "built_for a (view_of env t) g" using two that by (auto simp: converging_def)
    then obtain i s where b: "v_agents (view_of env t) (ctor_namespace a, Name g) = Some (i, s, g)"
      by (auto simp: built_for_def)
    then have "i = ctor_image a" using settled that by (auto simp: settled_def)
    with view_agent(2) [OF assms(1) b] show ?thesis by (auto simp: brief_def)
  qed
  have "appended (repeat_n n (poll env ?p)) t = es" if "snd (run_state (repeat_n n (poll env ?p)) t) = t @ es" for n es
    using that by (simp add: appended_def)
  then have "idle c (appended (repeat_n n (poll env ?p)) t)" for n
    using settled_passes [OF assms(1,3) refl settled] by metis
  then show ?thesis
    using two(2) built view_secret(2) [OF assms(1)] unfolding idle_def placed_def by blast
qed

subsection \<open>An Agent somebody else wrote\<close>

text \<open>Under the agent's name stands an Agent that names another Secret, and nothing names the derived one.\<close>

definition stranded :: "AgentConstructor \<Rightarrow> GRN \<Rightarrow> view \<Rightarrow> bool" where
  "stranded a g v \<longleftrightarrow> \<not> placed a v g \<and> v_agents v (ctor_namespace a, Name g) \<noteq> None
     \<and> (\<forall>k i own. v_agents v k \<noteq> Some (i, Name g @ credentialsSecretSuffix, own))"

lemma poll_agent_stranded:
  assumes "stranded a g v" and "Name g' = Name g \<Longrightarrow> g' = g"
  shows "stranded a g (poll_agent a g' v)"
proof -
  have "v_agents v (ctor_namespace a, Name g') = None \<Longrightarrow> Name g' \<noteq> Name g"
    using assms unfolding stranded_def by auto
  then show ?thesis
    using assms(1) unfolding stranded_def placed_def spec_defs credentialsKey_def
    by (auto simp: Let_def split: option.splits if_splits prod.splits)
qed

lemma issue_sent:
  assumes "run_state (IssueAgentCertificate env c g) h = (Inr x, t)"
  shows "\<exists>e. t = h @ [e] \<and> asks_certificate c g e"
  using assms
  by (auto simp: IssueAgentCertificate_def run_simps run_send Let_def asks_certificate_def
      split: prod.splits option.splits if_splits)

lemma poll_definition_appends:
  assumes "po_constructor p = agent_constructor env a"
  obtains es where "snd (run_state (poll_definition env p d) h) = h @ es"
  using built.poll_definition_guarded [OF assms, of env d] unfolding traces_def by blast

lemma absent_asks:
  assumes "api_reads env" "api_writes env" "garam_serves env c G" and "def_Agent d \<in> G"
    and p: "p = NewPoller c (agent_constructor env a) interval" and "\<not> placed a (view_of env h) (def_Agent d)"
  shows "\<exists>e\<in>set (appended (poll_definition env p d) h). asks_certificate c (def_Agent d) e"
proof -
  let ?g = "def_Agent d" and ?k = "credentialsKey a (def_Agent d)"
  have fields: "po_client p = c" "po_constructor p = agent_constructor env a" by (simp_all add: p NewPoller_def)
  obtain t epoch where run: "snd (run_state (poll_definition env p d) h) =
      snd (run_state (do { poller_correct p ?g; poller_construct env p d epoch }) t)"
    and "\<exists>es. t = h @ es \<and> (\<forall>e\<in>set es. \<not> is_kube_write e \<and> (\<forall>g. \<not> asks_certificate c g e))"
    by (rule poll_definition_claimed [OF assms(3,4) fields(1)])
  then obtain es where es: "t = h @ es" "\<forall>e\<in>set es. \<not> is_kube_write e" by blast
  obtain u where u: "run_state (poller_correct p ?g) t = ((), u)" by (metis old.unit.exhaust surj_pair)
  obtain fs where fs: "u = t @ fs" using built.correct_quiet [OF fields(2), of ?g] u by (metis emitsE)
  have "v_secrets (view_of env u) = v_secrets (view_of env h)"
    using poller_correct_refines [OF assms(1,2) fields(2), of ?g t] u view_appended [OF assms(1) es(2)] es(1) by simp
  then obtain e where e: "getSecretMeta env u ?k = Inl e" "IsNotFound e"
    using view_secret(1) [OF assms(1), of ?k u] assms(6) by (auto simp: placed_def)
  let ?u = "u @ [GetSecretMeta ?k (Inl e)]"
  obtain x where "fst (run_state (IssueAgentCertificate env c ?g) ?u) = Inr x"
    using garam_servesD(3) [OF assms(3,4)] by blast
  then obtain w where w: "run_state (IssueAgentCertificate env c ?g) ?u = (Inr x, w)" by (metis prod.collapse)
  from issue_sent [OF this] obtain ask where ask: "w = ?u @ [ask]" "asks_certificate c ?g ask" by blast
  have "emits (\<lambda>e. \<not> is_http e) (poller_place p d epoch (Inr x))" by (rule built.place_local [OF fields(2)])
  then obtain gs where gs: "snd (run_state (poller_place p d epoch (Inr x)) w) = w @ gs"
    by (metis emitsE surjective_pairing)
  have "snd (run_state (poll_definition env p d) h) = h @ es @ fs @ [GetSecretMeta ?k (Inl e), ask] @ gs"
    using run u e w ask gs es fs
    by (simp add: poller_construct_def fields agent_constructor_def Agent_HasCredential_def run_simps)
  with ask(2) show ?thesis by (simp add: appended_def)
qed

lemma stranded_asks:
  assumes "api_reads env" "api_writes env" "garam_serves env c G" "inj_on Name G" and "def_Agent ` set ds \<subseteq> G"
    and p: "p = NewPoller c (agent_constructor env a) interval" and "g \<in> def_Agent ` set ds" "stranded a g (view_of env h)"
  shows "\<exists>es. snd (run_state (for_each ds (poll_definition env p)) h) = h @ es \<and> (\<exists>e\<in>set es. asks_certificate c g e)"
  using assms(5,7,8)
proof (induction ds arbitrary: h)
  case (Cons d ds)
  have ct: "po_constructor p = agent_constructor env a" by (simp add: p NewPoller_def)
  obtain es where es: "snd (run_state (poll_definition env p d) h) = h @ es"
    using ct by (rule poll_definition_appends)
  have "traces (\<lambda>es. True) (for_each ds (poll_definition env p))"
    using every_event.traces_for_each [of ds "\<lambda>e. True" "poll_definition env p"] built.poll_definition_requests [OF ct]
    unfolding emits_def by (auto simp: every_def traces_def) (metis)
  then obtain fs where fs: "snd (run_state (for_each ds (poll_definition env p)) (h @ es)) = h @ es @ fs"
    unfolding traces_def by (metis append.assoc)
  have run: "snd (run_state (for_each (d # ds) (poll_definition env p)) h) = h @ es @ fs"
    using es fs by (simp add: run_simps)
  show ?case
  proof (cases "def_Agent d = g")
    case True
    with absent_asks [OF assms(1-3) _ p, of d h] Cons.prems es run show ?thesis
      by (intro exI [of _ "es @ fs"]) (auto simp: stranded_def appended_def)
  next
    case False
    have "view_of env (h @ es) = poll_agent a (def_Agent d) (view_of env h)"
      using poll_definition_refines [OF assms(1-3) _ p, of d h] Cons.prems(1) es by simp
    moreover have "Name (def_Agent d) = Name g \<Longrightarrow> def_Agent d = g"
      using assms(4) Cons.prems(1,2) by (auto dest: inj_onD)
    ultimately have "stranded a g (view_of env (h @ es))" using Cons.prems(3) by (simp add: poll_agent_stranded)
    with Cons.IH [of "h @ es"] Cons.prems False fs run show ?thesis
      by (intro exI [of _ "es @ fs"]) auto
  qed
qed simp

lemma stranded_pass:
  assumes "api_reads env" "api_writes env" "garam_serves env c G" "inj_on Name G" and "g \<in> G"
    and p: "p = NewPoller c (agent_constructor env a) interval" and "stranded a g (view_of env h)"
  shows "\<exists>es. snd (run_state (poll env p) h) = h @ es \<and> (\<exists>e\<in>set es. asks_certificate c g e)"
    and "stranded a g (view_of env (snd (run_state (poll env p) h)))"
proof -
  have "po_client p = c" by (simp add: p NewPoller_def)
  then obtain ds t es where run: "run_state (poll env p) h = run_state (for_each ds (poll_definition env p)) t"
    and ds: "def_Agent ` set ds = G" and t: "t = h @ es"
    and es: "\<forall>e\<in>set es. \<not> is_kube_write e \<and> (\<forall>g. \<not> asks_certificate c g e)"
    by (rule poll_listed [OF assms(3)])
  have "stranded a g (view_of env t)" using assms(7) view_appended [OF assms(1), of es h] es t by simp
  then obtain fs where "snd (run_state (for_each ds (poll_definition env p)) t) = t @ fs"
    "\<exists>e\<in>set fs. asks_certificate c g e"
    using stranded_asks [OF assms(1-4) _ p, of ds g t] ds assms(5) by blast
  then show "\<exists>es. snd (run_state (poll env p) h) = h @ es \<and> (\<exists>e\<in>set es. asks_certificate c g e)"
    using run t by (intro exI [of _ "es @ fs"]) auto
  obtain gs where gs: "set gs = G" "view_of env (snd (run_state (poll env p) h)) = fold (poll_agent a) gs (view_of env h)"
    using poll_refines [OF assms(1-3) p] by blast
  have "stranded a g (poll_agent a g' v)" if "g' \<in> set gs" "stranded a g v" for g' v
    using that gs(1) assms(4,5) by (auto simp: inj_on_eq_iff intro: poll_agent_stranded)
  with assms(7) have "stranded a g (fold (poll_agent a) gs (view_of env h))" by (rule fold_preserves)
  then show "stranded a g (view_of env (snd (run_state (poll env p) h)))" by (simp add: gs(2))
qed

text \<open>C37: An Agent somebody else wrote under the name an agent of garam's would have keeps that agent from ever
  being done: the credential goes into the Secret that Agent names, the poller looks for the Secret of the
  derived name, and so every pass, for as long as the operator runs, asks garam for another certificate, while
  the Secret it looks for is never there.\<close>

theorem foreign_agent_asks_every_pass:
  assumes "api_reads env" and "api_writes env" and "garam_serves env c G" and "inj_on Name G"
    and "g \<in> G" and "stranded a g (view_of env h)"
  shows "n \<le> length (filter (asks_certificate c g)
      (appended (repeat_n n (poll env (NewPoller c (agent_constructor env a) interval))) h))
    \<and> isl (getSecretMeta env (snd (run_state (repeat_n n (poll env (NewPoller c (agent_constructor env a) interval))) h))
        (credentialsKey a g))"
proof -
  let ?p = "NewPoller c (agent_constructor env a) interval"
  have "\<exists>es. snd (run_state (repeat_n n (poll env ?p)) h) = h @ es \<and> n \<le> length (filter (asks_certificate c g) es)
      \<and> stranded a g (view_of env (h @ es))"
    using assms(6)
  proof (induction n arbitrary: h)
    case (Suc n)
    note pass = stranded_pass [OF assms(1-5) refl Suc.prems, of interval]
    obtain es where es: "snd (run_state (poll env ?p) h) = h @ es" "\<exists>e\<in>set es. asks_certificate c g e"
      using pass(1) by blast
    with Suc.IH [of "h @ es"] pass(2) obtain fs where
      fs: "snd (run_state (repeat_n n (poll env ?p)) (h @ es)) = (h @ es) @ fs"
        "n \<le> length (filter (asks_certificate c g) fs)" "stranded a g (view_of env ((h @ es) @ fs))" by auto
    have "1 \<le> length (filter (asks_certificate c g) es)" using es(2) by (auto simp: Suc_le_eq filter_empty_conv)
    with fs(2) have "Suc n \<le> length (filter (asks_certificate c g) es) + length (filter (asks_certificate c g) fs)" by linarith
    with es fs show ?case by (intro exI [of _ "es @ fs"]) (simp add: run_simps)
  qed (simp add: run_simps)
  then show ?thesis by (auto simp: appended_def stranded_def placed_def view_of_def)
qed

subsection \<open>A cluster that keeps what it is told\<close>

text \<open>Reads answer by the last write to the object, found from the end of the history.\<close>

definition at_key :: "object_key \<Rightarrow> Agent \<Rightarrow> Agent" where
  "at_key k x = x\<lparr>ag_Meta := object_meta (fst k) (snd k)\<rparr>"

fun stored_agent :: "event list \<Rightarrow> object_key \<Rightarrow> Agent option" where
  "stored_agent [] k = None"
| "stored_agent (CreateAgent x (Inr y) # es) k =
     (if key_of (ag_Meta x) = k then Some (at_key k y) else stored_agent es k)"
| "stored_agent (PatchAgent l p (Inr y) # es) k = (if l = k then Some (at_key k y) else stored_agent es k)"
| "stored_agent (PatchAgentStatus l p (Inr y) # es) k = (if l = k then Some (at_key k y) else stored_agent es k)"
| "stored_agent (e # es) k = stored_agent es k"

fun stores_secret :: "object_key \<Rightarrow> event \<Rightarrow> bool" where
  "stores_secret k (CreateSecret s (Inr u)) = (key_of (sec_Meta s) = k)"
| "stores_secret k e = False"

fun merged :: "json \<Rightarrow> Agent \<Rightarrow> Agent" where
  "merged (JObj [(_, JObj [(_, JStr img)])]) x = x\<lparr>ag_Spec := (ag_Spec x)\<lparr>as_Image := img\<rparr>\<rparr>"
| "merged (JObj [(_, JObj [(_, JStr g), (_, JInt ep)])]) x =
     x\<lparr>ag_Status := (ag_Status x)\<lparr>st_Agent := g, st_Epoch := ep\<rparr>\<rparr>"
| "merged p x = x"

definition merge_stored :: "history \<Rightarrow> object_key \<Rightarrow> json \<Rightarrow> error + Agent" where
  "merge_stored h k p =
     (case stored_agent (rev h) k of None \<Rightarrow> Inl (ApiStatus NotFound []) | Some x \<Rightarrow> Inr (merged p x))"

definition demo_grant :: json where
  "demo_grant = JObj [(''grn'', JStr ''grn:a''), (''operator'', JStr ''grn:o''), (''epoch'', JInt 3),
     (''certificatePem'', JStr ''c''), (''privateKeyPem'', JStr ''k''), (''issuerPem'', JStr ''i''),
     (''serverRootPem'', JStr ''r''), (''notAfter'', JStr ''t'')]"

definition demo_store :: env where
  "demo_store = refusing_env\<lparr>
     httpDo := (\<lambda>h q. Inr \<lparr>resp_Status = 200, resp_Body = Inr
       (Document (if hr_Method q = ''GET'' then JArr [demo_definition] else demo_grant))\<rparr>),
     parseTime := (\<lambda>s. Inr 7),
     getAgent := (\<lambda>h k. case stored_agent (rev h) k of None \<Rightarrow> Inl (ApiStatus NotFound []) | Some x \<Rightarrow> Inr x),
     createAgent := (\<lambda>h x. case stored_agent (rev h) (key_of (ag_Meta x)) of
       None \<Rightarrow> Inr x | Some y \<Rightarrow> Inl (ApiStatus AlreadyExists [])),
     patchAgent := merge_stored, patchAgentStatus := merge_stored,
     getSecretMeta := (\<lambda>h k. if list_ex (stores_secret k) h then Inr () else Inl (ApiStatus NotFound [])),
     createSecret := (\<lambda>h s. if list_ex (stores_secret (key_of (sec_Meta s))) h then Inl (ApiStatus AlreadyExists []) else Inr ())\<rparr>"

lemma demo_store_calls:
  "getAgent demo_store h k = (case stored_agent (rev h) k of None \<Rightarrow> Inl (ApiStatus NotFound []) | Some x \<Rightarrow> Inr x)"
  "createAgent demo_store h x = (case stored_agent (rev h) (key_of (ag_Meta x)) of
       None \<Rightarrow> Inr x | Some y \<Rightarrow> Inl (ApiStatus AlreadyExists []))"
  "patchAgent demo_store = merge_stored" "patchAgentStatus demo_store = merge_stored"
  "getSecretMeta demo_store h k = (if list_ex (stores_secret k) h then Inr () else Inl (ApiStatus NotFound []))"
  "createSecret demo_store h s =
     (if list_ex (stores_secret (key_of (sec_Meta s))) h then Inl (ApiStatus AlreadyExists []) else Inr ())"
  "setControllerReference demo_store owner m = Inr m"
  by (simp_all add: demo_store_def refusing_env_def)

lemma stored_agent_key: "stored_agent es k = Some x \<Longrightarrow> ag_Meta x = object_meta (fst k) (snd k)"
  by (induction es k rule: stored_agent.induct) (auto simp: at_key_def split: if_splits)

lemma demo_store_view:
  "view_of demo_store h = \<lparr>v_agents = (\<lambda>k. map_option brief (stored_agent (rev h) k)),
     v_secrets = {k. list_ex (stores_secret k) h}\<rparr>"
  by (auto simp: view_of_def demo_store_calls split: option.splits)

lemma brief_at_key [simp]: "brief (at_key k x) = brief x"
  by (simp add: brief_def at_key_def)

lemma demo_store_reads: "api_reads demo_store"
proof -
  have "view_of demo_store (h @ [e]) = effect e (view_of demo_store h)" for h e
    by (cases "(e, view_of demo_store h)" rule: effect.cases) (auto simp: demo_store_view fun_eq_iff)
  then show ?thesis
    by (auto simp: api_reads_def demo_store_calls demo_not_found key_of_def object_meta_def
        split: option.splits if_splits dest!: stored_agent_key)
qed

lemma brief_merged:
  "brief (merged (image_patch img) x) = (img, snd (brief x))"
  "brief (merged (status_patch g ep) x) = (fst (brief x), fst (snd (brief x)), g)"
  "ag_Meta (merged (status_patch g ep) x) = ag_Meta x"
  by (simp_all add: brief_def image_patch_def status_patch_def)

lemma demo_store_writes: "api_writes demo_store"
  unfolding api_writes_def
  by (intro conjI allI impI)
    (auto simp: demo_store_view demo_store_calls merge_stored_def brief_merged IsAlreadyExists_def key_of_def
      object_meta_def split: option.splits dest: stored_agent_key)

lemma demo_store_answers:
  "newRequestError demo_store m u = None" "parseTime demo_store = (\<lambda>s. Inr 7)"
  "httpDo demo_store h (request_for c ''GET'' path b) =
     Inr \<lparr>resp_Status = 200, resp_Body = Inr (Document (JArr [demo_definition]))\<rparr>"
  "httpDo demo_store h (request_for c ''POST'' path b) = Inr \<lparr>resp_Status = 200, resp_Body = Inr (Document demo_grant)\<rparr>"
  by (simp_all add: demo_store_def refusing_env_def request_for_def)

lemma demo_store_garam: "garam_serves demo_store demo_client {''grn:a''}"
proof -
  have "dec_struct (dec_agentCredential_fields (\<lambda>s. Inr 7)) demo_grant = Inr
      \<lparr>acp_CertificatePEM = ''c'', acp_PrivateKeyPEM = ''k'', acp_IssuerPEM = ''i'', acp_ServerRootPEM = ''r'', acp_NotAfter = 7\<rparr>"
    and "dec_struct dec_assignment_fields demo_grant = Inr \<lparr>ap_GRN = ''grn:a'', ap_Operator = ''grn:o'', ap_Epoch = 3\<rparr>"
    by code_simp+
  then show ?thesis
    by (simp add: garam_serves_def ListDefinitions_def ClaimDefinition_def IssueAgentCertificate_def demo_store_answers
        run_simps run_send Let_def read_response_def into_def demo_definition_decodes demo_definition_reads
        payload_agentCredential_def payload_assignment_def IsZero_def)
qed

text \<open>A process stopped right after it created the Agent, with the image it was configured with then.\<close>

definition demo_left :: history where
  "demo_left = [CreateAgent (constructed_agent (demo_constructor\<lparr>ctor_image := ''old''\<rparr>) demo_held)
     (Inr (constructed_agent (demo_constructor\<lparr>ctor_image := ''old''\<rparr>) demo_held))]"

lemma demo_left_view:
  "v_agents (view_of demo_store demo_left) (ctor_namespace demo_constructor, Name ''grn:a'') =
     Some (''old'', Name ''grn:a'' @ credentialsSecretSuffix, [])"
  "getSecretMeta demo_store demo_left k = Inl (ApiStatus NotFound [])"
  by (simp_all add: demo_store_view demo_store_calls demo_left_def constructed_agent_def constructed_spec_def object_meta_def
      key_of_def brief_def at_key_def empty_status_def demo_held_def)

theorem poller_converges_witness:
  "\<exists>x. getAgent demo_store (snd (run_state (Poller_Start 2 demo_store
       (NewPoller demo_client (agent_constructor demo_store demo_constructor) 5)) demo_left)) (''ns'', Name ''grn:a'') = Inr x
     \<and> st_Agent (ag_Status x) = ''grn:a'' \<and> as_Image (ag_Spec x) = ''img''"
proof -
  have "owned demo_constructor {''grn:a''} (view_of demo_store demo_left)"
    using demo_left_view(1) by (simp add: owned_def)
  from poller_converges [OF demo_store_reads demo_store_writes demo_store_garam _ this refl, of 5]
  show ?thesis by (simp add: demo_left_view(2)) (simp add: demo_constructor_def NewAgent_def)
qed

text \<open>An Agent a user wrote under the name, naming a Secret of their own.\<close>

definition demo_foreign :: history where
  "demo_foreign = [CreateAgent (constructed_agent demo_constructor demo_held)
     (Inr ((constructed_agent demo_constructor demo_held)\<lparr>ag_Spec := (constructed_spec demo_constructor demo_held)
        \<lparr>as_CredentialsSecretName := ''theirs''\<rparr>\<rparr>))]"

theorem foreign_agent_asks_every_pass_witness:
  "3 \<le> length (filter (asks_certificate demo_client ''grn:a'') (appended
     (repeat_n 3 (poll demo_store (NewPoller demo_client (agent_constructor demo_store demo_constructor) 5))) demo_foreign))"
proof -
  have "view_of demo_store demo_foreign = \<lparr>v_agents = (\<lambda>k. if k = (''ns'', Name ''grn:a'') then Some (''img'', ''theirs'', [])
      else None), v_secrets = {}\<rparr>"
    by (auto simp: demo_store_view demo_foreign_def constructed_agent_def constructed_spec_def object_meta_def key_of_def
        brief_def at_key_def empty_status_def demo_held_def demo_constructor_def NewAgent_def fun_eq_iff)
  moreover have "''theirs'' \<noteq> Name ''grn:a'' @ credentialsSecretSuffix" by (simp add: Name_def)
  ultimately have "stranded demo_constructor ''grn:a'' (view_of demo_store demo_foreign)"
    by (auto simp: stranded_def placed_def demo_constructor_def NewAgent_def split: if_splits)
  from foreign_agent_asks_every_pass [OF demo_store_reads demo_store_writes demo_store_garam _ _ this, of 3 5]
  show ?thesis by simp
qed

end
