(* ===== verification/Steady_State.thy ===== *)
theory Steady_State
  imports Controller
begin

text \<open>
  What a second reconcile does (\<^verbatim>\<open>src/internal/controller\<close>): the reconciler is woken by its own writes, so
  a reconcile of what the last one left has to change nothing, or the operator would never come to rest.
  What the API server fills in by itself (identity, times, the ready count, the fields this operator
  does not name) may differ from what was written.
\<close>

subsection \<open>What a reconcile says\<close>

text \<open>The two conditions, as a function of the Agent and of the workload where one was reconciled.\<close>

definition says :: "env \<Rightarrow> Agent \<Rightarrow> StatefulSet option \<Rightarrow> Condition \<times> Condition" where
  "says env agent workload =
     (case workload of
        None \<Rightarrow>
          (condition agent ConditionSynced ConditionFalse ReasonCredentialsSecretMissing
             (''Secret '' @ quoted (snd (credentials_key agent))
              @ '' does not exist, and the workload is not built until it does''),
           condition agent ConditionAvailable ConditionUnknown ReasonWorkloadNotObserved
             (''The workload was not reconciled, so its readiness was not observed. ''
              @ ''The Synced condition says why''))
      | Some ss \<Rightarrow>
          (if quantityCmp env (claimedStorageSize ss) (as_StorageSize (ag_Spec agent)) \<noteq> 0
           then condition agent ConditionSynced ConditionFalse ReasonStorageSizeImmutable
             (''The volume was claimed at '' @ quantityString env (claimedStorageSize ss)
              @ '' and spec.storageSize now asks for '' @ quantityString env (as_StorageSize (ag_Spec agent))
              @ '', which a StatefulSet's claim template cannot be changed to'')
           else condition agent ConditionSynced ConditionTrue ReasonWorkloadReconciled
             (''StatefulSet '' @ quoted (om_Name (ss_Meta ss)) @ '' carries what this Agent's spec asks for''),
           if ss_ReadyReplicas ss > 0
           then condition agent ConditionAvailable ConditionTrue ReasonReplicaReady
             (''StatefulSet '' @ quoted (om_Name (ss_Meta ss)) @ '' reports its replica ready. The workload carries no readiness probe, ''
              @ ''so this says the agent's containers are running and nothing about whether the agent inside them works'')
           else condition agent ConditionAvailable ConditionFalse ReasonReplicaNotReady
             (''StatefulSet '' @ quoted (om_Name (ss_Meta ss)) @ '' reports no ready replica. This covers a replica still starting as ''
              @ ''much as one that cannot start, and does not say which'')))"

lemma says_types: "cond_Type (fst (says env agent w)) = ConditionSynced" "cond_Type (snd (says env agent w)) = ConditionAvailable"
  by (simp_all add: says_def condition_def split: option.splits)

definition with_conditions :: "env \<Rightarrow> history \<Rightarrow> Condition \<times> Condition \<Rightarrow> Agent \<Rightarrow> Agent" where
  "with_conditions env h cs agent =
     agent\<lparr>ag_Status := (ag_Status agent)\<lparr>st_Conditions :=
       setStatusCondition env h (setStatusCondition env h (st_Conditions (ag_Status agent)) (fst cs)) (snd cs)\<rparr>\<rparr>"

lemma reconcileWorkload_missing:
  assumes "getSecretMeta env h (credentials_key agent) = Inl e" and "IsNotFound e"
  shows "run_state (reconcileWorkload env r agent) h =
    (let t = h @ [GetSecretMeta (credentials_key agent) (Inl e)] in (Inr (with_conditions env t (says env agent None) agent), t))"
  using assms
  by (simp add: reconcileWorkload_def credentialsExist_def run_simps condition_setters says_def with_conditions_def
      Let_def condition_def credentials_key_def)

lemma reconcileWorkload_present:
  assumes "getSecretMeta env h (credentials_key agent) = Inr ()"
    and "createOrUpdate env (h @ [GetSecretMeta (credentials_key agent) (Inr ())]) (key_of (ag_Meta agent)) (applyAgent env r agent)
      = Inr (operation, ss)"
  obtains ls where "run_state (reconcileWorkload env r agent) h =
    (let t = h @ [GetSecretMeta (credentials_key agent) (Inr ()), CreateOrUpdate (key_of (ag_Meta agent)) (Inr (operation, ss))] @ ls
     in (Inr (with_conditions env t (says env agent (Some ss)) agent), t))"
    and "\<forall>e\<in>set ls. is_log e" and "operation = OperationResultNone \<Longrightarrow> ls = []"
proof -
  let ?l = "if operation = OperationResultNone then [] else [Log LogInfo ''Reconciled the StatefulSet''
      [(''statefulSet'', LvStr (om_Name (ss_Meta ss))), (''operation'', LvStr (operation_text operation))]]"
  show thesis
    by (rule that [of ?l])
      (use assms in \<open>simp_all add: reconcileWorkload_def credentialsExist_def reconcileStatefulSet_def run_simps condition_setters
        says_def with_conditions_def Let_def condition_def key_of_def\<close>)
qed

text \<open>A reconcile that reports no error read no Agent, or found its Secret missing, or has its workload in hand.\<close>

lemma reconcileWorkload_cases:
  assumes "run_state (reconcileWorkload env r agent) h = (Inr agent', t)"
  obtains (missing) e where "getSecretMeta env h (credentials_key agent) = Inl e" "IsNotFound e"
  | (present) operation ss where "getSecretMeta env h (credentials_key agent) = Inr ()"
    "createOrUpdate env (h @ [GetSecretMeta (credentials_key agent) (Inr ())]) (key_of (ag_Meta agent)) (applyAgent env r agent)
      = Inr (operation, ss)"
  using assms
  by (auto simp: reconcileWorkload_def credentialsExist_def reconcileStatefulSet_def run_simps key_of_def Let_def
      split: sum.splits prod.splits if_splits)

subsection \<open>What the libraries document\<close>

text \<open>\<^verbatim>\<open>meta.SetStatusCondition\<close> leaves a slice that already holds the condition, up to its time, as it is.\<close>

definition condition_kept :: "env \<Rightarrow> bool" where
  "condition_kept env \<longleftrightarrow>
     (\<forall>h cs c lt. findStatusCondition env cs (cond_Type c) = Some (c\<lparr>cond_LastTransitionTime := lt\<rparr>)
        \<longrightarrow> setStatusCondition env h cs c = cs)"

text \<open>
  \<^verbatim>\<open>SetControllerReference\<close> reads the owner's name, namespace and UID, and of the object its namespace and
  its owner references.
\<close>

definition owner_reference_reads :: "env \<Rightarrow> bool" where
  "owner_reference_reads env \<longleftrightarrow>
     (\<forall>owner owner2 m m2 m'. key_of owner2 = key_of owner \<longrightarrow> om_UID owner2 = om_UID owner
        \<longrightarrow> om_OwnerReferences m2 = om_OwnerReferences m \<longrightarrow> om_Namespace m2 = om_Namespace m
        \<longrightarrow> setControllerReference env owner m = Inr m'
        \<longrightarrow> setControllerReference env owner2 m2 = Inr (m2\<lparr>om_OwnerReferences := om_OwnerReferences m'\<rparr>))"

lemma condition_found:
  assumes "condition_laws env"
  shows "\<exists>lt. findStatusCondition env (setStatusCondition env h cs c) (cond_Type c) = Some (c\<lparr>cond_LastTransitionTime := lt\<rparr>)"
    and "t \<noteq> cond_Type c \<Longrightarrow> findStatusCondition env (setStatusCondition env h cs c) t = findStatusCondition env cs t"
  using assms unfolding condition_laws_def by blast+

text \<open>Saying the same again changes nothing.\<close>

lemma with_conditions_again:
  assumes "condition_laws env" "condition_kept env"
    and "st_Conditions (ag_Status y) = st_Conditions (ag_Status (with_conditions env h (says env agent w) x))"
  shows "with_conditions env h' (says env agent w) y = y"
proof -
  let ?c = "says env agent w" and ?f = "findStatusCondition env"
  let ?cs = "st_Conditions (ag_Status x)"
  let ?one = "setStatusCondition env h ?cs (fst ?c)"
  let ?two = "setStatusCondition env h ?one (snd ?c)"
  have cs: "st_Conditions (ag_Status y) = ?two" using assms(3) by (simp add: with_conditions_def)
  obtain lt where "?f ?one (cond_Type (fst ?c)) = Some ((fst ?c)\<lparr>cond_LastTransitionTime := lt\<rparr>)"
    using condition_found(1) [OF assms(1)] by blast
  then have "?f ?two (cond_Type (fst ?c)) = Some ((fst ?c)\<lparr>cond_LastTransitionTime := lt\<rparr>)"
    using condition_found(2) [OF assms(1)] conditions_differ by (simp add: says_types)
  then have "setStatusCondition env h' ?two (fst ?c) = ?two" using assms(2) unfolding condition_kept_def by blast
  moreover have "setStatusCondition env h' ?two (snd ?c) = ?two"
    using condition_found(1) [OF assms(1), of h ?one "snd ?c"] assms(2) unfolding condition_kept_def by blast
  ultimately show ?thesis by (simp add: with_conditions_def cs)
qed

subsection \<open>What the API server fills in\<close>

text \<open>An Agent as read after its status was written: what the reconciler reads of its metadata is as it was.\<close>

definition same_agent :: "Agent \<Rightarrow> Agent \<Rightarrow> bool" where
  "same_agent x y \<longleftrightarrow> ag_Spec y = ag_Spec x \<and> key_of (ag_Meta y) = key_of (ag_Meta x)
     \<and> om_UID (ag_Meta y) = om_UID (ag_Meta x) \<and> om_Generation (ag_Meta y) = om_Generation (ag_Meta x)"

text \<open>
  A StatefulSet as the API server answers it: with its identity and its times, with the fields of each
  container and of the object this operator does not name filled in, and with the replicas it counts.
\<close>

definition fill :: "(string \<Rightarrow> other) \<Rightarrow> Container \<Rightarrow> Container" where
  "fill others c = c\<lparr>c_other := others (c_Name c)\<rparr>"

definition filled_in :: "StatefulSet \<Rightarrow> StatefulSet \<Rightarrow> bool" where
  "filled_in ss ss' \<longleftrightarrow>
     (\<exists>uid generation created rest others others_init other ready. created \<noteq> 0
        \<and> ss' = ss\<lparr>ss_Meta := (ss_Meta ss)\<lparr>om_UID := uid, om_Generation := generation,
             om_CreationTimestamp := created, om_other := rest\<rparr>,
           ss_InitContainers := map (fill others_init) (ss_InitContainers ss),
           ss_Containers := map (fill others) (ss_Containers ss), ss_other := other, ss_ReadyReplicas := ready\<rparr>)"

lemma named_fill: "named n (map (fill others) cs) = map_option (fill others) (named n cs)"
  by (induction cs) (simp_all add: named_def fill_def)

lemma fill_commutes:
  "agent_writes r y (fill others c) = fill others (agent_writes r y c)"
  "write_workspace r (fill others c) = fill others (write_workspace r c)"
  "write_credentials r (fill others c) = fill others (write_credentials r c)"
  "write_config r content (fill others c) = fill others (write_config r content c)"
  by (simp_all add: fill_def agent_writes_def write_agent_def point_at_tools_def point_at_workspace_def
      point_at_config_def write_workspace_def write_credentials_def write_config_def Let_def)

lemma spec_decides:
  assumes "ag_Spec y = ag_Spec x"
  shows "agent_writes r y = agent_writes r x" "main_containers r y = main_containers r x"
    "init_containers r y = init_containers r x" "pod_volumes lib r y = pod_volumes lib r x"
    "config_text lib y = config_text lib x"
proof -
  show a: "agent_writes r y = agent_writes r x" by (simp add: fun_eq_iff agent_writes_def write_agent_def assms)
  show "main_containers r y = main_containers r x" "init_containers r y = init_containers r x"
    "pod_volumes lib r y = pod_volumes lib r x" "config_text lib y = config_text lib x"
    by (simp_all add: fun_eq_iff main_containers_def init_containers_def pod_volumes_def config_text_def
        credential_volumes_def a assms)
qed

lemma put_filled:
  assumes "named n cs = Some c" and "f c = c" and "\<And>c. f (fill others c) = fill others (f c)"
  shows "put n f (map (fill others) cs) = map (fill others) cs"
  by (rule put_fixpoint [where c = "fill others c"]) (simp_all add: named_fill assms)

lemma delete_filled:
  "delete_func (\<lambda>c. c_Name c = n) cs = cs \<Longrightarrow>
     delete_func (\<lambda>c. c_Name c = n) (map (fill others) cs) = map (fill others) cs"
  by (simp add: delete_func_def filter_map o_def fill_def)

lemma main_containers_filled:
  "main_containers r x (map (fill others) (main_containers r x cs)) = map (fill others) (main_containers r x cs)"
proof -
  have a: "put agentContainerName (agent_writes r x) (map (fill others) (main_containers r x cs)) =
      map (fill others) (main_containers r x cs)"
    by (rule put_filled [OF named_main(1)]) (simp_all add: put_simps fill_commutes)
  have w: "put workspaceContainerName (write_workspace r) (map (fill others) (main_containers r x cs)) =
      map (fill others) (main_containers r x cs)" if "rc_WorkspaceImage r \<noteq> []"
    using that by (intro put_filled [OF trans [OF named_main(2) if_not_P]]) (simp_all add: put_simps fill_commutes)
  have "delete_func (\<lambda>c. c_Name c = workspaceContainerName) (map (fill others) (main_containers r x cs)) =
      map (fill others) (main_containers r x cs)" if "rc_WorkspaceImage r = []"
    using that by (intro delete_filled) (simp add: main_containers_def Let_def delete_func_def)
  with a w show ?thesis unfolding main_containers_def [of r x "map _ _"] by (simp add: Let_def)
qed

lemma init_containers_filled:
  "init_containers r x content (map (fill others) (init_containers r x content cs)) =
     map (fill others) (init_containers r x content cs)"
proof -
  let ?cs = "init_containers r x content cs"
  have a: "put credentialsContainerName (write_credentials r) (map (fill others) ?cs) = map (fill others) ?cs"
    by (rule put_filled [OF named_init(1)]) (simp_all add: put_simps fill_commutes)
  have w: "put configContainerName (write_config r content) (map (fill others) ?cs) = map (fill others) ?cs"
    if "ats_Pins (as_Tools (ag_Spec x)) \<noteq> []"
    using that by (intro put_filled [OF trans [OF named_init(2) if_not_P]]) (simp_all add: put_simps fill_commutes)
  have "delete_func (\<lambda>c. c_Name c = configContainerName) (map (fill others) ?cs) = map (fill others) ?cs"
    if "ats_Pins (as_Tools (ag_Spec x)) = []"
    using that by (intro delete_filled) (simp add: init_containers_def Let_def delete_func_def)
  with a w show ?thesis unfolding init_containers_def [of r x content "map _ _"] by (simp add: Let_def)
qed

text \<open>What was filled in is left alone: writing the Agent again onto what the API server answered changes nothing.\<close>

lemma applyAgent_filled:
  assumes "owner_reference_laws env" "owner_reference_reads env" and "same_agent x y"
    and "applyAgent env r x ss = Inr ss'" and "filled_in ss' stored"
  shows "applyAgent env r y stored = Inr stored"
proof -
  obtain ct owner where ct: "config_text env x = Inr ct"
    and owner: "setControllerReference env (ag_Meta x) (ss_Meta (at_creation x ss)) = Inr owner"
    and ss': "ss' = written env r x ct owner ss"
    using assms(4) by (rule applyAgent_cases)
  have "setControllerReference env (ag_Meta x) owner = Inr owner"
    using owner_reference_keeps [OF assms(1) owner] by blast
  moreover have "ss_Meta ss' = owner" by (simp add: ss' written_def)
  moreover have meta: "om_OwnerReferences (ss_Meta stored) = om_OwnerReferences (ss_Meta ss')"
    "om_Namespace (ss_Meta stored) = om_Namespace (ss_Meta ss')" "om_CreationTimestamp (ss_Meta stored) \<noteq> 0"
    using assms(5) by (auto simp: filled_in_def)
  ultimately have "setControllerReference env (ag_Meta y) (ss_Meta stored) =
      Inr ((ss_Meta stored)\<lparr>om_OwnerReferences := om_OwnerReferences (ss_Meta stored)\<rparr>)"
    using assms(2,3) unfolding owner_reference_reads_def same_agent_def by metis
  then have refs: "setControllerReference env (ag_Meta y) (ss_Meta stored) = Inr (ss_Meta stored)" by simp
  have new: "at_creation y stored = stored" using meta(3) by (simp add: at_creation_def IsZero_def)
  have spec: "ag_Spec y = ag_Spec x" using assms(3) by (simp add: same_agent_def)
  have "written env r y ct (ss_Meta stored) stored = stored"
    unfolding written_def new spec_decides [OF spec]
    using assms(5) by (auto simp: filled_in_def ss' written_def main_containers_filled init_containers_filled pod_security_def)
  then show ?thesis using ct refs new by (simp add: applyAgent_written spec_decides(5) [OF spec])
qed

subsection \<open>A second reconcile\<close>

text \<open>The Agent and the workload a reconcile leaves, by what it was answered.\<close>

fun left_agent :: "Agent \<Rightarrow> history \<Rightarrow> Agent" where
  "left_agent x [] = x"
| "left_agent x (MergeAgentStatus a b (Inr y) # es) = left_agent (x\<lparr>ag_Status := ag_Status a\<rparr>) es"
| "left_agent x (e # es) = left_agent x es"

fun left_workload :: "history \<Rightarrow> StatefulSet option" where
  "left_workload [] = None"
| "left_workload (CreateOrUpdate k (Inr (operation, ss)) # es) = Some ss"
| "left_workload (e # es) = left_workload es"

lemma left_agent_append: "left_agent x (xs @ ys) = left_agent (left_agent x xs) ys"
  by (induction x xs rule: left_agent.induct) simp_all

lemma left_agent_quiet: "\<forall>e\<in>set es. \<not> is_kube_write e \<Longrightarrow> left_agent x es = x"
  by (induction x es rule: left_agent.induct) simp_all

lemma writeStatus_leaves:
  assumes "\<And>s t. statusDeepEqual env s t \<longleftrightarrow> s = t" and "run_state (writeStatus env agent held) h = (Inr (), t)"
  obtains es where "t = h @ es" and "ag_Status (left_agent held es) = ag_Status agent"
    and "left_agent held es = held\<lparr>ag_Status := ag_Status agent\<rparr>" and "left_workload es = None"
proof (cases "ag_Status held = ag_Status agent")
  case True
  with assms that [of "[]"] show thesis by (simp add: writeStatus_def run_simps)
next
  case False
  then obtain y l kvs where "t = h @ [MergeAgentStatus agent held (Inr y), Log LogInfo l kvs]"
    using assms by (auto simp: writeStatus_def run_simps split: sum.splits)
  with that show thesis by simp
qed

text \<open>
  \<^verbatim>\<open>controllerutil.CreateOrUpdate\<close> answers the object the mutation gave, as the API server filled it in;
  \<^verbatim>\<open>equality.Semantic.DeepEqual\<close> is equality on what the model keeps of a status.
\<close>

definition workload_answered :: "env \<Rightarrow> bool" where
  "workload_answered env \<longleftrightarrow>
     (\<forall>h k f operation stored. createOrUpdate env h k f = Inr (operation, stored)
        \<longrightarrow> (\<exists>ss ss'. f ss = Inr ss' \<and> filled_in ss' stored))"

definition status_equality :: "env \<Rightarrow> bool" where
  "status_equality env \<longleftrightarrow> (\<forall>s t. statusDeepEqual env s t \<longleftrightarrow> s = t)"

text \<open>What a reconcile that reports no error leaves: the two conditions, and the generation it looked at.\<close>

lemma Reconcile_leaves:
  assumes "status_equality env" and "run_state (Reconcile env r req) h = (Inr (), t)" and "getAgent env h req = Inr held"
  obtains es h1 w where "t = h @ es" and "left_workload es = w"
    and "left_agent held es = held\<lparr>ag_Status := (ag_Status (with_conditions env h1 (says env held w) held))
        \<lparr>st_ObservedGeneration := om_Generation (ag_Meta held)\<rparr>\<rparr>"
    and "(\<exists>e. w = None \<and> getSecretMeta env (h @ [GetAgent req (Inr held)]) (credentials_key held) = Inl e \<and> IsNotFound e)
       \<or> (\<exists>ss op. w = Some ss \<and> getSecretMeta env (h @ [GetAgent req (Inr held)]) (credentials_key held) = Inr ()
            \<and> createOrUpdate env (h @ [GetAgent req (Inr held), GetSecretMeta (credentials_key held) (Inr ())])
                (key_of (ag_Meta held)) (applyAgent env r held) = Inr (op, ss))"
proof -
  let ?h = "h @ [GetAgent req (Inr held)]"
  let ?seen = "\<lambda>x. x\<lparr>ag_Status := (ag_Status x)\<lparr>st_ObservedGeneration := om_Generation (ag_Meta x)\<rparr>\<rparr>"
  have eq: "\<And>s t. statusDeepEqual env s t \<longleftrightarrow> s = t" using assms(1) by (simp add: status_equality_def)
  obtain agent u where w: "run_state (reconcileWorkload env r held) ?h = (Inr agent, u)"
    and s: "run_state (writeStatus env (?seen agent) held) u = (Inr (), t)"
    using assms(2,3) by (auto simp: Reconcile_def run_simps split: prod.splits sum.splits)
  obtain fs where fs: "t = u @ fs" "left_agent held fs = held\<lparr>ag_Status := ag_Status (?seen agent)\<rparr>" "left_workload fs = None"
    using writeStatus_leaves [OF eq s] by blast
  from w show thesis
  proof (cases rule: reconcileWorkload_cases)
    case (missing e)
    let ?es = "[GetAgent req (Inr held), GetSecretMeta (credentials_key held) (Inl e)]"
    have "u = h @ ?es" "agent = with_conditions env u (says env held None) held"
      using reconcileWorkload_missing [OF missing, of r] w by (auto simp: Let_def)
    with fs missing show thesis
      by (intro that [of "?es @ fs" None u]) (simp_all add: left_agent_append with_conditions_def)
  next
    case (present op ss)
    let ?es = "\<lambda>ls. [GetAgent req (Inr held), GetSecretMeta (credentials_key held) (Inr ()),
      CreateOrUpdate (key_of (ag_Meta held)) (Inr (op, ss))] @ ls"
    obtain ls where "u = h @ ?es ls" "agent = with_conditions env u (says env held (Some ss)) held" "\<forall>e\<in>set ls. is_log e"
      by (rule reconcileWorkload_present [OF present]) (use w in \<open>auto simp: Let_def\<close>)
    moreover have "left_agent x (?es ls) = x" if "\<forall>e\<in>set ls. is_log e" for x ls
    proof -
      have "\<not> is_kube_write e" if "is_log e" for e using that by (cases e) simp_all
      with that left_agent_quiet [of ls x] show ?thesis by simp
    qed
    ultimately show thesis
      using fs present by (intro that [of "?es ls @ fs" "Some ss" u]) (simp_all add: left_agent_append with_conditions_def)
  qed
qed

lemma says_same:
  assumes "same_agent x y"
  shows "says env y w = says env x w" "credentials_key y = credentials_key x"
  using assms by (simp_all add: same_agent_def says_def condition_def credentials_key_def key_of_def split: option.splits)

text \<open>C8: A reconcile of what the last one left changes nothing. After a reconcile that reported no error, with
  the Secret and the workload as they were answered, the next one reads the Agent and looks for the Secret,
  and where there is a workload the create-or-update finds nothing to write; the status it would report is
  the one that stands, so it is not patched and nothing is logged. That holds whatever the API server filled
  in on the StatefulSet, so the reconciler, which its own writes wake, comes to rest after one pass.\<close>

theorem reconcile_settles:
  assumes "condition_laws env" and "condition_kept env" and "status_equality env" and "owner_reference_laws env"
    and "owner_reference_reads env" and "workload_answered env"
    and "getAgent env h req = Inr held" and "run_state (Reconcile env r req) h = (Inr (), h @ es)"
    and "same_agent (left_agent held es) x" and "ag_Status x = ag_Status (left_agent held es)"
    and "getAgent env h' req = Inr x"
    and "getSecretMeta env (h' @ [GetAgent req (Inr x)]) (credentials_key held)
      = getSecretMeta env (h @ [GetAgent req (Inr held)]) (credentials_key held)"
    and "\<And>ss f t. left_workload es = Some ss \<Longrightarrow> f ss = Inr ss
      \<Longrightarrow> createOrUpdate env (h' @ t) (key_of (ag_Meta held)) f = Inr (OperationResultNone, ss)"
  shows "run_state (Reconcile env r req) h' = (Inr (), h' @ [GetAgent req (Inr x),
      GetSecretMeta (credentials_key held) (getSecretMeta env (h @ [GetAgent req (Inr held)]) (credentials_key held))]
      @ (case left_workload es of None \<Rightarrow> []
         | Some ss \<Rightarrow> [CreateOrUpdate (key_of (ag_Meta held)) (Inr (OperationResultNone, ss))]))"
proof -
  let ?seen = "\<lambda>x. x\<lparr>ag_Status := (ag_Status x)\<lparr>st_ObservedGeneration := om_Generation (ag_Meta x)\<rparr>\<rparr>"
  obtain h1 w where w: "left_workload es = w"
    and left: "left_agent held es = held\<lparr>ag_Status := (ag_Status (with_conditions env h1 (says env held w) held))
        \<lparr>st_ObservedGeneration := om_Generation (ag_Meta held)\<rparr>\<rparr>"
    and how: "(\<exists>e. w = None \<and> getSecretMeta env (h @ [GetAgent req (Inr held)]) (credentials_key held) = Inl e \<and> IsNotFound e)
       \<or> (\<exists>ss op. w = Some ss \<and> getSecretMeta env (h @ [GetAgent req (Inr held)]) (credentials_key held) = Inr ()
            \<and> createOrUpdate env (h @ [GetAgent req (Inr held), GetSecretMeta (credentials_key held) (Inr ())])
                (key_of (ag_Meta held)) (applyAgent env r held) = Inr (op, ss))"
    by (rule Reconcile_leaves [OF assms(3,8,7)]) (auto intro: that)
  have same: "same_agent held x" using assms(9) left by (simp add: same_agent_def)
  note x = says_same [OF same]
  have "with_conditions env t (says env x w) x = x" for t
    unfolding x(1) using left assms(10) by (intro with_conditions_again [OF assms(1,2), where h = h1 and x = held]) simp
  moreover have "?seen x = x"
  proof -
    have "st_ObservedGeneration (ag_Status x) = om_Generation (ag_Meta x)"
      using left assms(10) same by (simp add: same_agent_def)
    then show ?thesis by simp
  qed
  moreover have "run_state (writeStatus env x x) t = (Inr (), t)" for t
    using assms(3) by (simp add: writeStatus_def status_equality_def run_simps)
  ultimately have rest: "run_state (Reconcile env r req) h' = (Inr (), t)"
    if "run_state (reconcileWorkload env r x) (h' @ [GetAgent req (Inr x)]) = (Inr (with_conditions env t (says env x w) x), t)"
    for t using that assms(11) by (simp add: Reconcile_def run_simps)
  from how show ?thesis
  proof (elim disjE exE conjE)
    fix e assume "w = None" "getSecretMeta env (h @ [GetAgent req (Inr held)]) (credentials_key held) = Inl e" "IsNotFound e"
    then show ?thesis
      using rest assms(12) w x(2) reconcileWorkload_missing [of env "h' @ [GetAgent req (Inr x)]" x e r]
      by (simp add: Let_def)
  next
    fix ss op
    assume some: "w = Some ss" "getSecretMeta env (h @ [GetAgent req (Inr held)]) (credentials_key held) = Inr ()"
      and answer: "createOrUpdate env (h @ [GetAgent req (Inr held), GetSecretMeta (credentials_key held) (Inr ())])
                (key_of (ag_Meta held)) (applyAgent env r held) = Inr (op, ss)"
    obtain old ss' where "applyAgent env r held old = Inr ss'" "filled_in ss' ss"
      using assms(6) answer unfolding workload_answered_def by blast
    then have "applyAgent env r x ss = Inr ss" by (rule applyAgent_filled [OF assms(4,5) same])
    then have "createOrUpdate env ((h' @ [GetAgent req (Inr x)]) @ [GetSecretMeta (credentials_key x) (Inr ())])
        (key_of (ag_Meta x)) (applyAgent env r x) = Inr (OperationResultNone, ss)"
      using assms(13) some w same by (simp add: same_agent_def)
    moreover have "getSecretMeta env (h' @ [GetAgent req (Inr x)]) (credentials_key x) = Inr ()"
      using assms(12) some x by simp
    ultimately obtain ls where run: "run_state (reconcileWorkload env r x) (h' @ [GetAgent req (Inr x)]) =
        (let t = (h' @ [GetAgent req (Inr x)]) @ [GetSecretMeta (credentials_key x) (Inr ()),
           CreateOrUpdate (key_of (ag_Meta x)) (Inr (OperationResultNone, ss))] @ ls
         in (Inr (with_conditions env t (says env x (Some ss)) x), t))" and "ls = []"
      by (metis reconcileWorkload_present)
    then show ?thesis
      using rest some w x(2) same by (simp add: Let_def same_agent_def)
  qed
qed

subsection \<open>A cluster that keeps the Agent and the workload\<close>

definition demo_keep :: "history \<Rightarrow> Condition list \<Rightarrow> Condition \<Rightarrow> Condition list" where
  "demo_keep h cs c =
     (case demo_find cs (cond_Type c) of
        Some d \<Rightarrow> if d\<lparr>cond_LastTransitionTime := 0\<rparr> = c\<lparr>cond_LastTransitionTime := 0\<rparr> then cs else demo_set h cs c
      | None \<Rightarrow> demo_set h cs c)"

definition created_at :: "StatefulSet \<Rightarrow> StatefulSet" where
  "created_at ss = ss\<lparr>ss_Meta := (ss_Meta ss)\<lparr>om_CreationTimestamp := 5\<rparr>,
     ss_InitContainers := map (fill (\<lambda>n. [(''terminationMessagePolicy'', ''File'')])) (ss_InitContainers ss),
     ss_Containers := map (fill (\<lambda>n. [(''terminationMessagePolicy'', ''File'')])) (ss_Containers ss)\<rparr>"

definition demo_update :: "history \<Rightarrow> (StatefulSet \<Rightarrow> error + StatefulSet) \<Rightarrow> error + (OperationResult \<times> StatefulSet)" where
  "demo_update h f =
     (let old = (case left_workload h of None \<Rightarrow> demo_fresh | Some ss \<Rightarrow> ss) in
      case f old of Inl e \<Rightarrow> Inl e
      | Inr ss \<Rightarrow> Inr (if created_at ss = old then OperationResultNone else OperationResultCreated, created_at ss))"

definition demo_steady :: env where
  "demo_steady = refusing_env\<lparr>getAgent := (\<lambda>h k. Inr (left_agent demo_agent h)), getSecretMeta := (\<lambda>h k. Inr ()),
     createOrUpdate := (\<lambda>h k. demo_update h), mergeAgentStatus := (\<lambda>h a b. Inr a),
     setStatusCondition := demo_keep, findStatusCondition := demo_find\<rparr>"

lemma demo_steady_calls:
  "getAgent demo_steady h k = Inr (left_agent demo_agent h)" "getSecretMeta demo_steady h k = Inr ()"
  "createOrUpdate demo_steady h k = demo_update h" "mergeAgentStatus demo_steady h a b = Inr a"
  "setStatusCondition demo_steady = demo_keep" "findStatusCondition demo_steady = demo_find"
  "statusDeepEqual demo_steady u v = (u = v)" "setControllerReference demo_steady owner m = Inr m"
  by (simp_all add: demo_steady_def refusing_env_def)

lemma demo_steady_laws:
  "condition_laws demo_steady" "condition_kept demo_steady" "status_equality demo_steady"
  "owner_reference_laws demo_steady" "owner_reference_reads demo_steady" "workload_answered demo_steady"
proof -
  have self: "\<exists>lt. c = c\<lparr>cond_LastTransitionTime := lt\<rparr>" for c :: Condition
    by (rule exI [of _ "cond_LastTransitionTime c"]) simp
  have stamp: "\<exists>lt. d = c\<lparr>cond_LastTransitionTime := lt\<rparr>"
    if "d\<lparr>cond_LastTransitionTime := 0\<rparr> = c\<lparr>cond_LastTransitionTime := 0\<rparr>" for c d :: Condition
    using that by (intro exI [of _ "cond_LastTransitionTime d"]) (cases c, cases d, simp)
  have set: "\<exists>lt. demo_find (demo_set h cs c) (cond_Type c) = Some (c\<lparr>cond_LastTransitionTime := lt\<rparr>)"
    "t \<noteq> cond_Type c \<Longrightarrow> demo_find (demo_set h cs c) t = demo_find cs t" for h cs c t
    using demo_condition_laws unfolding condition_laws_def demo_reconcile_env_def by auto
  show "condition_laws demo_steady"
    unfolding condition_laws_def demo_steady_calls demo_keep_def
    using set by (auto split: option.splits dest: stamp)
  show "condition_kept demo_steady"
    by (simp add: condition_kept_def demo_steady_calls demo_keep_def)
  show "status_equality demo_steady" "owner_reference_laws demo_steady" "owner_reference_reads demo_steady"
    by (simp_all add: status_equality_def owner_reference_laws_def owner_reference_reads_def demo_steady_calls)
  have "filled_in ss (created_at ss)" for ss
    unfolding filled_in_def created_at_def
    by (rule exI [of _ "om_UID (ss_Meta ss)"], rule exI [of _ "om_Generation (ss_Meta ss)"], rule exI [of _ 5],
        rule exI [of _ "om_other (ss_Meta ss)"], intro exI [of _ "\<lambda>n. [(''terminationMessagePolicy'', ''File'')]"] exI [of _ "ss_other ss"]
        exI [of _ "ss_ReadyReplicas ss"]) simp
  then show "workload_answered demo_steady"
    by (auto simp: workload_answered_def demo_steady_calls demo_update_def Let_def split: sum.splits)
qed

lemma created_at_again: "created_at (created_at ss) = created_at ss"
  by (simp add: created_at_def fill_def)

lemma demo_steady_applies: "\<exists>ss. applyAgent demo_steady demo_reconciler demo_agent demo_fresh = Inr ss"
proof -
  have "config_text demo_steady demo_agent = Inr ''grepsha256:1''"
    by (simp add: config_text_def demo_agent_def renderAgentConfig_def demo_steady_def refusing_env_def)
  then show ?thesis unfolding applyAgent_written by (simp add: demo_steady_calls)
qed

lemma demo_steady_runs:
  "\<exists>es ss. run_state (Reconcile demo_steady demo_reconciler (''ns'', ''a'')) [] = (Inr (), es) \<and> left_workload es = Some (created_at ss)"
proof -
  obtain ss where ss: "applyAgent demo_steady demo_reconciler demo_agent demo_fresh = Inr ss" using demo_steady_applies by blast
  have key: "om_Namespace (ag_Meta demo_agent) = ''ns''" "om_Name (ag_Meta demo_agent) = ''a''"
    by (simp_all add: demo_agent_def object_meta_def)
  have w: "run_state (writeStatus demo_steady x y) h = (Inr (), h) \<or>
      (\<exists>e f. run_state (writeStatus demo_steady x y) h = (Inr (), h @ [e, f]))" for x y h
    by (simp add: writeStatus_def run_simps demo_steady_calls)
  have first: "\<exists>agent op ls. run_state (reconcileWorkload demo_steady demo_reconciler demo_agent) [GetAgent (''ns'', ''a'') (Inr demo_agent)] =
     (Inr agent, GetAgent (''ns'', ''a'') (Inr demo_agent) # GetSecretMeta (credentials_key demo_agent) (Inr ())
        # CreateOrUpdate (''ns'', ''a'') (Inr (op, created_at ss)) # ls)"
    by (simp add: reconcileWorkload_def credentialsExist_def reconcileStatefulSet_def run_simps condition_setters Let_def
        demo_steady_calls demo_update_def ss key)
  then obtain agent op ls where a: "run_state (reconcileWorkload demo_steady demo_reconciler demo_agent)
      [GetAgent (''ns'', ''a'') (Inr demo_agent)] =
     (Inr agent, GetAgent (''ns'', ''a'') (Inr demo_agent) # GetSecretMeta (credentials_key demo_agent) (Inr ())
        # CreateOrUpdate (''ns'', ''a'') (Inr (op, created_at ss)) # ls)" by blast
  show ?thesis
    using w [of "agent\<lparr>ag_Status := (ag_Status agent)\<lparr>st_ObservedGeneration := om_Generation (ag_Meta agent)\<rparr>\<rparr>" demo_agent
        "snd (run_state (reconcileWorkload demo_steady demo_reconciler demo_agent) [GetAgent (''ns'', ''a'') (Inr demo_agent)])"] a
    by (auto simp: Reconcile_def run_simps demo_steady_calls)
qed

theorem reconcile_settles_witness:
  "\<exists>es ss x. run_state (Reconcile demo_steady demo_reconciler (''ns'', ''a'')) [] = (Inr (), es)
     \<and> run_state (Reconcile demo_steady demo_reconciler (''ns'', ''a'')) es = (Inr (), es @ [GetAgent (''ns'', ''a'') (Inr x),
         GetSecretMeta (credentials_key demo_agent) (Inr ()),
         CreateOrUpdate (key_of (ag_Meta demo_agent)) (Inr (OperationResultNone, ss))])"
proof -
  obtain es ss where run: "run_state (Reconcile demo_steady demo_reconciler (''ns'', ''a'')) [] = (Inr (), [] @ es)"
    and ss: "left_workload es = Some (created_at ss)" using demo_steady_runs by auto
  have "left_workload (es @ t) = Some (created_at ss)" for t
    using ss by (induction es rule: left_workload.induct) simp_all
  then have "createOrUpdate demo_steady (es @ t) (key_of (ag_Meta demo_agent)) f = Inr (OperationResultNone, s)"
    if "left_workload es = Some s" "f s = Inr s" for s f t
    using that ss created_at_again [of ss] by (auto simp: demo_steady_calls demo_update_def)
  then have "run_state (Reconcile demo_steady demo_reconciler (''ns'', ''a'')) es = (Inr (), es @ [GetAgent (''ns'', ''a'') (Inr (left_agent demo_agent es)),
      GetSecretMeta (credentials_key demo_agent) (Inr ()), CreateOrUpdate (key_of (ag_Meta demo_agent)) (Inr (OperationResultNone, created_at ss))])"
    using reconcile_settles [OF demo_steady_laws _ run, of demo_agent "left_agent demo_agent es" es] ss
    by (simp add: demo_steady_calls same_agent_def)
  with run show ?thesis by auto
qed

end
