(* ===== verification/Test_Utils.thy ===== *)
theory Test_Utils
  imports Controller
begin

text \<open>
  The utilities of the end-to-end tests (\<^verbatim>\<open>src/test/utils/utils.go\<close>, \<^verbatim>\<open>kube_context.go\<close>). They run commands, so
  what matters of them is which commands run, where, and what stands between a run and a cluster it did
  not create. The state is the list of what was done; the machine that answers (\<open>tools\<close>) is a parameter.
\<close>

subsection \<open>What a run does\<close>

datatype util_event =
    Chdir string "error option"
  | Exec string "string list" "string list" "string \<times> error option"
      \<comment> \<open>the directory, the variables added to the environment, the arguments\<close>
  | Printed string
  | Read_file string "error + string"
  | Written_file string string "error option"

type_synonym deeds = "util_event list"

record tools =
  tu_getwd :: "deeds \<Rightarrow> string \<times> error option"
  tu_chdir :: "deeds \<Rightarrow> string \<Rightarrow> error option"
  tu_exec :: "deeds \<Rightarrow> string \<Rightarrow> string list \<Rightarrow> string list \<Rightarrow> string \<times> error option"
  tu_lookupEnv :: "string \<Rightarrow> string option"
  tu_readFile :: "deeds \<Rightarrow> string \<Rightarrow> error + string"
  tu_writeFile :: "deeds \<Rightarrow> string \<Rightarrow> string \<Rightarrow> error option"

definition act :: "(deeds \<Rightarrow> 'r) \<Rightarrow> ('r \<Rightarrow> util_event) \<Rightarrow> (deeds, 'r) state" where
  "act answer ev = State (\<lambda>d. (answer d, d @ [ev (answer d)]))"

lemma run_act [run_simps]: "run_state (act f ev) d = (f d, d @ [ev (f d)])"
  by (simp add: act_def)

definition printed :: "string \<Rightarrow> (deeds, unit) state" where
  "printed s = act (\<lambda>_. ()) (\<lambda>_. Printed s)"

subsection \<open>Text\<close>

definition newline :: char where
  "newline = CHR 0x0A"

text \<open>\<^verbatim>\<open>strings.ReplaceAll\<close> of a text that is not empty.\<close>

function replace_all :: "string \<Rightarrow> string \<Rightarrow> string \<Rightarrow> string" where
  "replace_all old new [] = []"
| "replace_all old new (c # s) =
     (if old \<noteq> [] \<and> prefix old (c # s) then new @ replace_all old new (drop (length old) (c # s))
      else c # replace_all old new s)"
  by pat_completeness auto

termination
  by (relation "measure (\<lambda>(old, new, s). length s)") (auto simp: Suc_le_eq)

fun split_lines :: "string \<Rightarrow> string list" where
  "split_lines [] = [[]]"
| "split_lines (c # s) =
     (if c = newline then [] # split_lines s
      else (case split_lines s of [] \<Rightarrow> [[c]] | l # ls \<Rightarrow> (c # l) # ls))"

definition GetNonEmptyLines :: "string \<Rightarrow> string list" where
  "GetNonEmptyLines output = filter (\<lambda>element. element \<noteq> []) (split_lines output)"

fun join_with :: "string \<Rightarrow> string list \<Rightarrow> string" where
  "join_with sep [] = []"
| "join_with sep [l] = l"
| "join_with sep (l # l' # ls) = l @ sep @ join_with sep (l' # ls)"

subsection \<open>Running a command\<close>

definition GetProjectDir :: "tools \<Rightarrow> deeds \<Rightarrow> string \<times> error option" where
  "GetProjectDir t d =
     (case tu_getwd t d of
        (wd, Some e) \<Rightarrow> (wd, Some (Wrapped ''failed to get current working directory'' e))
      | (wd, None) \<Rightarrow> (replace_all ''/test/e2e'' [] wd, None))"

definition Run :: "tools \<Rightarrow> string list \<Rightarrow> (deeds, string \<times> error option) state" where
  "Run t args = do {
     dir \<leftarrow> State (\<lambda>d. (fst (GetProjectDir t d), d));
     c \<leftarrow> act (\<lambda>d. tu_chdir t d dir) (Chdir dir);
     (case c of
        Some e \<Rightarrow> printed (''chdir dir: '' @ quoted (error_text e) @ [newline])
      | None \<Rightarrow> State_Monad.return ());
     printed (''running: '' @ quoted (join_with '' '' args) @ [newline]);
     r \<leftarrow> act (\<lambda>d. tu_exec t d dir [''GO111MODULE=on''] args) (Exec dir [''GO111MODULE=on''] args);
     State_Monad.return
       (case r of
          (output, Some e) \<Rightarrow>
            (output, Some (Wrapped (quoted (join_with '' '' args) @ '' failed with error '' @ quoted output) e))
        | (output, None) \<Rightarrow> (output, None))
   }"

definition warnError :: "error \<Rightarrow> (deeds, unit) state" where
  "warnError e = printed (''warning: '' @ error_text e @ [newline])"

subsection \<open>The context\<close>

definition defaultKindCluster :: string where
  "defaultKindCluster = ''kind''"

definition KindCluster :: "tools \<Rightarrow> string" where
  "KindCluster t = (case tu_lookupEnv t ''KIND_CLUSTER'' of None \<Rightarrow> defaultKindCluster | Some v \<Rightarrow> v)"

definition CheckContext :: "string \<Rightarrow> string \<Rightarrow> error option" where
  "CheckContext current cluster =
     (let want = ''kind-'' @ cluster in
      if current \<noteq> want
      then Some (New (''kubectl resolves context '' @ quoted current @ '', so every command this run makes would act on it; ''
        @ ''this run owns kind cluster '' @ quoted cluster @ '', whose context is '' @ quoted want))
      else None)"

definition CheckKindContext :: "tools \<Rightarrow> (deeds, error option) state" where
  "CheckKindContext t = do {
     r \<leftarrow> Run t [''kubectl'', ''config'', ''current-context''];
     State_Monad.return
       (case r of
          (current, Some e) \<Rightarrow> Some (New (''read the context kubectl resolves: '' @ error_text e))
        | (current, None) \<Rightarrow> CheckContext (trim_space current) (KindCluster t))
   }"

subsection \<open>cert-manager and kind\<close>

definition certmanagerVersion :: string where
  "certmanagerVersion = ''v1.20.2''"

definition certmanager_url :: string where
  "certmanager_url = ''https://github.com/cert-manager/cert-manager/releases/download/''
     @ certmanagerVersion @ ''/cert-manager.yaml''"

definition run_or_warn :: "tools \<Rightarrow> string list \<Rightarrow> (deeds, unit) state" where
  "run_or_warn t args = do {
     r \<leftarrow> Run t args;
     (case snd r of Some e \<Rightarrow> warnError e | None \<Rightarrow> State_Monad.return ())
   }"

definition UninstallCertManager :: "tools \<Rightarrow> (deeds, unit) state" where
  "UninstallCertManager t = do {
     run_or_warn t [''kubectl'', ''delete'', ''-f'', certmanager_url];
     for_each [''cert-manager-cainjector-leader-election'', ''cert-manager-controller'']
       (\<lambda>lease. run_or_warn t [''kubectl'', ''delete'', ''lease'', lease,
          ''-n'', ''kube-system'', ''--ignore-not-found'', ''--force'', ''--grace-period=0''])
   }"

definition InstallCertManager :: "tools \<Rightarrow> (deeds, error option) state" where
  "InstallCertManager t = do {
     r \<leftarrow> Run t [''kubectl'', ''apply'', ''-f'', certmanager_url];
     (case snd r of
        Some e \<Rightarrow> State_Monad.return (Some e)
      | None \<Rightarrow> do {
          w \<leftarrow> Run t [''kubectl'', ''wait'', ''deployment.apps/cert-manager-webhook'', ''--for'', ''condition=Available'',
            ''--namespace'', ''cert-manager'', ''--timeout'', ''5m''];
          State_Monad.return (snd w)
        })
   }"

text \<open>\<^verbatim>\<open>strings.Index\<close>: where a text first occurs in another.\<close>

fun index_of :: "string \<Rightarrow> string \<Rightarrow> nat option" where
  "index_of [] sub = (if sub = [] then Some 0 else None)"
| "index_of (c # s) sub = (if prefix sub (c # s) then Some 0 else map_option Suc (index_of s sub))"

definition certManagerCRDs :: "string list" where
  "certManagerCRDs = [''certificates.cert-manager.io'', ''issuers.cert-manager.io'', ''clusterissuers.cert-manager.io'',
     ''certificaterequests.cert-manager.io'', ''orders.acme.cert-manager.io'', ''challenges.acme.cert-manager.io'']"

definition IsCertManagerCRDsInstalled :: "tools \<Rightarrow> (deeds, bool) state" where
  "IsCertManagerCRDsInstalled t = do {
     r \<leftarrow> Run t [''kubectl'', ''get'', ''crds''];
     State_Monad.return
       (case r of
          (output, Some e) \<Rightarrow> False
        | (output, None) \<Rightarrow>
            list_ex (\<lambda>crd. list_ex (\<lambda>line. index_of line crd \<noteq> None) (GetNonEmptyLines output)) certManagerCRDs)
   }"

definition defaultKindBinary :: string where
  "defaultKindBinary = ''kind''"

definition LoadImageToKindClusterWithName :: "tools \<Rightarrow> string \<Rightarrow> (deeds, error option) state" where
  "LoadImageToKindClusterWithName t name = do {
     r \<leftarrow> Run t ((case tu_lookupEnv t ''KIND'' of None \<Rightarrow> defaultKindBinary | Some v \<Rightarrow> v)
                  # [''load'', ''docker-image'', name, ''--name'', KindCluster t]);
     State_Monad.return (snd r)
   }"

subsection \<open>UncommentCode\<close>

text \<open>
  \<^verbatim>\<open>bufio.Scanner\<close> over lines: a line ends at a newline or at the end of the text, a carriage return before
  it is dropped, no empty line follows the last newline, and a line that does not fit the scanner's 64 KiB
  ends the scan, which the code does not look into.
\<close>

definition drop_carriage :: "string \<Rightarrow> string" where
  "drop_carriage l = (if l \<noteq> [] \<and> last l = CHR 0x0D then butlast l else l)"

definition maxScanTokenSize :: nat where
  "maxScanTokenSize = 65536"

function scan_lines :: "string \<Rightarrow> string list" where
  "scan_lines s =
     (let l = takeWhile (\<lambda>c. c \<noteq> newline) s; rest = dropWhile (\<lambda>c. c \<noteq> newline) s in
      if s = [] \<or> maxScanTokenSize \<le> length l then []
      else drop_carriage l # (case rest of [] \<Rightarrow> [] | _ # s' \<Rightarrow> scan_lines s'))"
  by pat_completeness auto

termination
proof (relation "measure length")
  fix s :: string and l rest c s'
  assume "rest = dropWhile (\<lambda>c. c \<noteq> newline) s" and "rest = c # s'"
  then have "length (c # s') \<le> length s" using length_dropWhile_le [of "\<lambda>c. c \<noteq> newline" s] by metis
  then show "(s', s) \<in> measure length" by simp
qed simp

declare scan_lines.simps [simp del]

definition uncommented :: "string \<Rightarrow> string \<Rightarrow> string" where
  "uncommented pre target = join_with [newline] (map (\<lambda>l. fst (cut_prefix l pre)) (scan_lines target))"

definition UncommentCode :: "tools \<Rightarrow> string \<Rightarrow> string \<Rightarrow> string \<Rightarrow> (deeds, error option) state" where
  "UncommentCode t filename target pre = do {
     r \<leftarrow> act (\<lambda>d. tu_readFile t d filename) (Read_file filename);
     (case r of
        Inl e \<Rightarrow> State_Monad.return (Some (Wrapped (''failed to read file '' @ quoted filename) e))
      | Inr content \<Rightarrow>
          (case index_of content target of
             None \<Rightarrow> State_Monad.return (Some (New (''unable to find the code '' @ quoted target @ '' to be uncommented'')))
           | Some idx \<Rightarrow>
               if scan_lines target = [] then State_Monad.return None
               else do {
                 w \<leftarrow> act (\<lambda>d. tu_writeFile t d filename
                          (take idx content @ uncommented pre target @ drop (idx + length target) content))
                        (Written_file filename (take idx content @ uncommented pre target @ drop (idx + length target) content));
                 State_Monad.return
                   (case w of Some e \<Rightarrow> Some (Wrapped (''failed to write file '' @ quoted filename) e) | None \<Rightarrow> None)
               }))
   }"

subsection \<open>The command a check runs\<close>

lemma run_printed [run_simps]: "run_state (printed m) d = ((), d @ [Printed m])"
  by (simp add: printed_def run_simps)

fun is_exec :: "util_event \<Rightarrow> bool" where
  "is_exec (Exec dir vars args r) = True"
| "is_exec e = False"

lemma Run_trace:
  "\<exists>dir d0 es. run_state (Run t args) d =
     (let r = tu_exec t d0 dir [''GO111MODULE=on''] args in
      ((fst r, map_option (Wrapped (quoted (join_with '' '' args) @ '' failed with error '' @ quoted (fst r))) (snd r)),
       d @ es @ [Exec dir [''GO111MODULE=on''] args r]))
     \<and> d0 = d @ es \<and> (\<forall>e\<in>set es. \<not> is_exec e)"
proof -
  let ?dir = "fst (GetProjectDir t d)"
  let ?es = "Chdir ?dir (tu_chdir t d ?dir)
    # (case tu_chdir t d ?dir of Some e \<Rightarrow> [Printed (''chdir dir: '' @ quoted (error_text e) @ [newline])] | None \<Rightarrow> [])
    @ [Printed (''running: '' @ quoted (join_with '' '' args) @ [newline])]"
  have "run_state (Run t args) d =
     (let r = tu_exec t (d @ ?es) ?dir [''GO111MODULE=on''] args in
      ((fst r, map_option (Wrapped (quoted (join_with '' '' args) @ '' failed with error '' @ quoted (fst r))) (snd r)),
       d @ ?es @ [Exec ?dir [''GO111MODULE=on''] args r]))"
    by (simp add: Run_def run_simps Let_def split: option.splits prod.splits)
  moreover have "\<forall>e\<in>set ?es. \<not> is_exec e" by (auto split: option.splits)
  ultimately show ?thesis by blast
qed


subsection \<open>Uncommenting what was commented\<close>

definition plain_line :: "string \<Rightarrow> bool" where
  "plain_line l \<longleftrightarrow> newline \<notin> set l \<and> length l < maxScanTokenSize \<and> (l \<noteq> [] \<longrightarrow> last l \<noteq> CHR 0x0D)"

lemma scan_line:
  assumes "plain_line l"
  shows "l \<noteq> [] \<Longrightarrow> scan_lines l = [l]" and "scan_lines (l @ newline # s) = l # scan_lines s"
proof -
  have t: "takeWhile (\<lambda>c. c \<noteq> newline) l = l" "takeWhile (\<lambda>c. c \<noteq> newline) (l @ newline # s) = l"
    "dropWhile (\<lambda>c. c \<noteq> newline) l = []" "dropWhile (\<lambda>c. c \<noteq> newline) (l @ newline # s) = newline # s"
    using assms by (auto simp: plain_line_def takeWhile_eq_all_conv dropWhile_append takeWhile_append)
  have d: "drop_carriage l = l" "\<not> maxScanTokenSize \<le> length l" using assms by (auto simp: plain_line_def drop_carriage_def)
  show "l \<noteq> [] \<Longrightarrow> scan_lines l = [l]" by (subst scan_lines.simps) (simp add: t d Let_def)
  show "scan_lines (l @ newline # s) = l # scan_lines s" by (subst scan_lines.simps) (simp add: t d Let_def)
qed

lemma scan_join:
  "\<forall>l\<in>set ls. plain_line l \<Longrightarrow> ls \<noteq> [] \<Longrightarrow> last ls \<noteq> [] \<Longrightarrow> scan_lines (join_with [newline] ls) = ls"
  by (induction "[newline]" ls rule: join_with.induct) (simp_all add: scan_line)

text \<open>Uncommenting undoes commenting. Where each line of a text was prefixed, lines of plain text that fit the
  scanner, the last of them not empty, uncommenting its first occurrence in a file writes the file back with
  the lines as they were and everything around them untouched.\<close>

theorem UncommentCode_roundtrip:
  assumes "tu_readFile t d f = Inr (before @ join_with [newline] (map (\<lambda>l. pre @ l) ls) @ after)"
    and "index_of (before @ join_with [newline] (map (\<lambda>l. pre @ l) ls) @ after)
      (join_with [newline] (map (\<lambda>l. pre @ l) ls)) = Some (length before)"
    and "ls \<noteq> []" and "pre @ last ls \<noteq> []" and "\<forall>l\<in>set ls. plain_line (pre @ l)"
  shows "\<exists>w. snd (run_state (UncommentCode t f (join_with [newline] (map (\<lambda>l. pre @ l) ls)) pre) d) =
    d @ [Read_file f (Inr (before @ join_with [newline] (map (\<lambda>l. pre @ l) ls) @ after)),
         Written_file f (before @ join_with [newline] ls @ after) w]"
proof -
  let ?target = "join_with [newline] (map (\<lambda>l. pre @ l) ls)"
  have scan: "scan_lines ?target = map (\<lambda>l. pre @ l) ls"
    using assms(3-5) by (intro scan_join) (auto simp: last_map)
  then have "uncommented pre ?target = join_with [newline] ls" by (simp add: uncommented_def comp_def)
  with scan assms(1-3) show ?thesis by (auto simp: UncommentCode_def run_simps)
qed

definition demo_tools :: tools where
  "demo_tools = \<lparr>tu_getwd = (\<lambda>d. (''/src/test/e2e'', None)), tu_chdir = (\<lambda>d f. None),
     tu_exec = (\<lambda>d dir vars args. (''kind-kind'' @ [newline], None)), tu_lookupEnv = (\<lambda>v. None),
     tu_readFile = (\<lambda>d f. Inr (''x'' @ newline # ''#a'' @ newline # ''#b'' @ newline # ''y'')), tu_writeFile = (\<lambda>d f s. None)\<rparr>"

theorem UncommentCode_roundtrip_witness:
  "\<exists>w. snd (run_state (UncommentCode demo_tools ''f'' (join_with [newline] [''#a'', ''#b'']) ''#'') []) =
    [Read_file ''f'' (Inr (''x'' @ newline # ''#a'' @ newline # ''#b'' @ newline # ''y'')),
     Written_file ''f'' (''x'' @ newline # ''a'' @ newline # ''b'' @ newline # ''y'') w]"
  using UncommentCode_roundtrip [of demo_tools "[]" "''f''" "''x'' @ [newline]" "''#''" "[''a'', ''b'']" "newline # ''y''"]
  by (simp add: demo_tools_def newline_def plain_line_def maxScanTokenSize_def)

text \<open>
  What the round trip needs its premises for: a target that ends in a newline loses it, so what follows is
  joined to its last line, and a line that does not fit the scanner takes the rest of the target with it.
\<close>

theorem uncommented_loses:
  assumes "\<forall>l\<in>set ls. plain_line l" and "ls \<noteq> []" and "last ls \<noteq> []"
  shows "uncommented pre (join_with [newline] ls @ [newline]) = uncommented pre (join_with [newline] ls)"
    and "maxScanTokenSize \<le> length (takeWhile (\<lambda>c. c \<noteq> newline) long) \<Longrightarrow>
      uncommented pre (join_with [newline] ls @ newline # long) = uncommented pre (join_with [newline] ls)"
proof -
  have step: "scan_lines (join_with [newline] ls @ newline # s) = ls @ scan_lines s" for s
    using assms(1,2) by (induction "[newline]" ls rule: join_with.induct) (simp_all add: scan_line)
  have "scan_lines [] = []" by (simp add: scan_lines.simps)
  then show "uncommented pre (join_with [newline] ls @ [newline]) = uncommented pre (join_with [newline] ls)"
    using step [of "[]"] scan_join [OF assms] by (simp add: uncommented_def)
  show "uncommented pre (join_with [newline] ls @ newline # long) = uncommented pre (join_with [newline] ls)"
    if "maxScanTokenSize \<le> length (takeWhile (\<lambda>c. c \<noteq> newline) long)"
  proof -
    have "scan_lines long = []" using that by (subst scan_lines.simps) (simp add: Let_def)
    then show ?thesis using step [of long] scan_join [OF assms] by (simp add: uncommented_def)
  qed
qed

end
