(* ===== verification/Spec2Isabelle.thy ===== *)
theory Spec2Isabelle
  imports Epochs Reconcile_Memory Command_Line Registration Convergence Steady_State Test_Utils
begin

text \<open>
  A verification of the agent operator: the Kubernetes operator that builds and runs the agents garam
  assigns to it.

  \<^bold>\<open>The program.\<close> Five parts of one process share a cluster and a connection to garam. The poller
  (\<^verbatim>\<open>internal/garam/poller.go\<close>) reads the definitions garam holds for this operator, claims the ones
  nobody claimed, corrects the image of Agents it built, and for an agent with no credential asks garam for
  a certificate and constructs the agent (\<^verbatim>\<open>internal/garam/constructor\<close>): an Agent object with the GRN and
  the epoch on its status, and a Secret with the credential. The reconciler (\<^verbatim>\<open>internal/controller\<close>) turns
  an Agent whose Secret exists into a StatefulSet and reports two conditions. The reporter
  (\<^verbatim>\<open>reporter.go\<close>) tells garam what those conditions say. The renewer (\<^verbatim>\<open>renewer.go\<close>) and the enroller
  (\<^verbatim>\<open>enroller.go\<close>) obtain the certificate the operator authenticates with and keep it in one Secret
  (\<^verbatim>\<open>credentialstore/secret.go\<close>). \<^verbatim>\<open>cmd/main.go\<close> decides which of them run.

  \<^bold>\<open>How code is modelled.\<close> An operation is a \<open>State_Monad\<close> action over the history of calls made so far.
  A call to garam, the API server, the file system, the clock or the key generator appends an event with
  what was answered; the answer is a parameter (\<open>env\<close>, theory \<open>World\<close>) that may depend on the whole history,
  so every theorem holds for every behaviour of the outside, concurrent writers included, unless it names
  a hypothesis. A Go error is a value of the datatype \<open>error\<close>, with \<^verbatim>\<open>errors.Is\<close> and \<^verbatim>\<open>errors.As\<close> over
  its wrapping. A Go map is an association list sorted by key (\<open>gomap\<close>). A pointer into a slice of
  containers is the slice with an index. A \<^verbatim>\<open>time.Duration\<close> and an \<^verbatim>\<open>int64\<close> are integers no operation
  computes with. Log lines are events too. An Agent is a value; that the code's pointers and copies come to
  that is proved, over an explicit memory, in \<open>Deep_Copy\<close> and \<open>Reconcile_Memory\<close>.

  \<^bold>\<open>The theories.\<close>
  \<^item> \<open>Prelude\<close>: loops of the state monad, Go maps, and the text functions the code calls
    (\<^verbatim>\<open>strings.CutPrefix\<close>, \<^verbatim>\<open>TrimSpace\<close>, \<^verbatim>\<open>url.PathEscape\<close>, \<^verbatim>\<open>hex\<close>, \<^verbatim>\<open>filepath.Base\<close>).
  \<^item> \<open>Garam_Types\<close>: \<^verbatim>\<open>garam.go\<close>. \<open>Api_Types\<close>: \<^verbatim>\<open>agent_types.go\<close> and the Kubernetes fields in use.
  \<^item> \<open>Json\<close>, \<open>Pem\<close>, \<open>Sha256\<close>: what the code uses of \<^verbatim>\<open>encoding/json\<close> and \<^verbatim>\<open>base64\<close>, \<^verbatim>\<open>encoding/pem\<close>
    and \<^verbatim>\<open>crypto/sha256\<close>, the last on 32-bit words.
  \<^item> \<open>World\<close>: events, the answering world, and the locale \<open>trace_property\<close> with the rules that follow an
    operation's structure; its interpretation \<open>every_event\<close> gives the frame rules \<open>emits_intros\<close>.
  \<^item> \<open>Client\<close>: \<^verbatim>\<open>client.go\<close> and \<^verbatim>\<open>certificate_request.go\<close>'s check. Which values of a definition are
    read and that map order does not matter, that routes read back, that decoded definitions are well
    formed, and which refusal each sentinel error stands for.
  \<^item> \<open>Constructor\<close>: \<^verbatim>\<open>constructor/agent.go\<close>, \<^verbatim>\<open>observation.go\<close>; the locale \<open>constructor_contract\<close> is what
    the poller relies on, interpreted on the package's own \<^verbatim>\<open>Agent\<close>. What is written, in which order.
  \<^item> \<open>Poller\<close>, \<open>Reporter\<close>, \<open>Renewer\<close>, \<open>Enroller\<close>, \<open>Mutual_Tls\<close>, \<open>Credential_Store\<close>: the file of that name
    each. The locales \<open>observer_contract\<close> and \<open>credential_store\<close> are the interfaces \<^verbatim>\<open>Observer\<close> and
    \<^verbatim>\<open>CredentialStore\<close>; the components' lemmas are proved in them once and used through their
    interpretations \<open>observed\<close> and \<open>secret_store\<close>. The store refines an assignment to one cell.
  \<^item> \<open>Workload\<close>: \<^verbatim>\<open>agent_statefulset.go\<close>. The pointer writes of \<^verbatim>\<open>applyAgent\<close> equal one declarative
    description, from which idempotence, the frame, confinement and the restricted standard follow.
  \<^item> \<open>Controller\<close>: \<^verbatim>\<open>agent_controller.go\<close>, \<^verbatim>\<open>agent_status.go\<close>. \<open>Startup\<close>: \<^verbatim>\<open>main.go\<close> after the flags are parsed.
  \<^item> \<open>Deep_Copy\<close>: \<^verbatim>\<open>zz_generated.deepcopy.go\<close> over a heap with one component a type. The locale
    \<open>deep_copier\<close> is the contract of a deep copy, asked of Kubernetes' copies and proved of these; pairs and
    structs of deep copies are deep copies. A copy and its original share no memory, whoever writes.
  \<^item> \<open>Reconcile_Memory\<close>: the reconciler over that heap, which makes the calls of the one over values.
  \<^item> \<open>Registration\<close>: \<^verbatim>\<open>groupversion_info.go\<close> and the two \<^verbatim>\<open>init\<close>s. \<open>Command_Line\<close>: the flags of \<^verbatim>\<open>main.go\<close>
    with Go's \<^verbatim>\<open>flag\<close> and \<^verbatim>\<open>time.ParseDuration\<close>, and \<^verbatim>\<open>main\<close> as the parse and the startup. A configuration
    reads back as it was written, every early exit has its code, and the shipped arguments are evaluated.
  \<^item> \<open>Operator\<close>: the goroutines interleaved call by call as an inductive step relation; who writes what, and
    the properties of the components that survive every schedule.
  \<^item> \<open>Epochs\<close>: where an epoch comes from. The locale \<open>causal\<close> has the rules for traces in which each event
    has its cause before it; through it, every epoch that is recorded or reported was proved by garam.
  \<^item> \<open>Convergence\<close>: where repeated passes of the poller take a cluster. A pass refines one function on what the
    poller sees of it; from any state an earlier process left, two passes settle every agent and no later
    one writes, unless somebody else's Agent stands under an agent's name, and then none ever does.
  \<^item> \<open>Steady_State\<close>: the same for the reconciler. A reconcile of what the last one left writes nothing, with
    whatever the API server filled in.
  \<^item> \<open>Test_Utils\<close>: \<^verbatim>\<open>test/utils\<close>, the commands the end-to-end tests run and the check in front of them.
  \<^item> this theory: the properties that span the components.

  \<^bold>\<open>Loops and fuel.\<close> The three wait loops run a number of passes that is universally quantified: a
  theorem about \<open>n\<close> passes for every \<open>n\<close> is one about every prefix of the endless loop. The enroller's
  loop runs at most \<open>n\<close> attempts in the same sense. The loop over the blocks of a PEM has one unit of fuel a
  byte and one over, which is enough while every block takes bytes off the rest; that it then satisfies
  the loop's own equation is proved.

  \<^bold>\<open>Hypotheses about code outside the repository.\<close> \<open>foreign_errors\<close>: the transport and the libraries
  make none of this package's errors. \<open>owner_reference_laws\<close>: \<^verbatim>\<open>SetControllerReference\<close> writes owner
  references alone, and the same ones again. \<open>condition_laws\<close>: what \<^verbatim>\<open>SetStatusCondition\<close> sets is found.
  \<open>pem_progress\<close>: a decoded block is taken off the rest. \<open>secrets_persist\<close>: nobody deletes a placed Secret.
  \<open>kube_copies\<close>: Kubernetes' own copies are deep. \<open>sets_in_memory\<close>: \<^verbatim>\<open>SetStatusCondition\<close> writes the slice it is
  given or a new one. \<open>loads\<close>: an answer is decoded into new memory. \<open>scheme_laws\<close>: a scheme recognizes what was
  added. \<open>statuses_kept\<close>: nobody else writes an agent's name and epoch onto its status. \<open>api_reads\<close> and
  \<open>api_writes\<close>: the API server answers, keeps what it is told and refuses what is there already.
  \<open>garam_serves\<close>: garam lists, grants and certifies the agents it assigned. \<open>condition_kept\<close>,
  \<open>status_equality\<close>, \<open>owner_reference_reads\<close>, \<open>workload_answered\<close>: setting a condition that stands changes
  nothing, statuses are compared by value, an owner reference is made of names, and a create-or-update answers
  what the mutation gave with the API server's own fields filled in.

  \<^bold>\<open>Not modelled.\<close> X.509, certificate requests and reading PEM and times are parameters: their
  parsers are not what this program adds. So are Kubernetes' manager, scheme and logger, whose flags enter the
  command line as a parameter; what a failed parse prints is left out. Cancellation of a context is the end of a
  run; a request's timeout is an error the world answers. What the test utilities' commands do is the machine's
  answer; the end-to-end tests themselves are not part of the program.
\<close>

subsection \<open>From a definition to a workload\<close>

lemma credentials_key_constructed:
  "credentials_key (constructed_agent a d) = credentialsKey a (def_Agent d)"
  by (simp add: credentials_key_def constructed_agent_def constructed_spec_def credentialsKey_def object_meta_def)

lemma payload_definition_reads:
  assumes "payload_definition p = Inr d"
  shows "def_Agent d = dp_AgentGRN p \<and> Pins (def_Tools d) = pins_of (dp_Values p)"
  using assms by (auto simp: payload_definition_def readValues_eq split: option.splits if_splits)

lemma pins_of_empty:
  assumes "distinct (map fst vs)"
  shows "pins_of vs = [] \<longleftrightarrow> (\<forall>name. name \<noteq> [] \<longrightarrow> map_of vs (toolPinPrefix @ name) = None)"
proof -
  have "pins_of vs = [] \<longleftrightarrow> map_of (pins_of vs) = Map.empty" by simp
  then show ?thesis by (simp only: fun_eq_iff map_of_pins_of [OF assms]) auto
qed


definition demo_payload :: definitionPayload where
  "demo_payload = \<lparr>dp_AgentGRN = ''grn:a'', dp_Values = [(''tools.pins.grep'', ''s''), (''note'', ''n'')], dp_Claim = None\<rparr>"

lemma demo_payload_reads:
  "payload_definition demo_payload = Inr
     \<lparr>def_Agent = ''grn:a'', def_Tools = \<lparr>Pins = [(''grep'', ''s'')]\<rparr>, def_Ignored = [''note''], def_Claim = None\<rparr>"
  by code_simp


subsection \<open>From a placed credential to a workload\<close>

text \<open>C11: A placed credential gets its workload. The Secret a construction creates wakes, among the Agents
  listed in its namespace, the Agent it was built for, and the reconcile of that Agent, reading the Agent
  and finding the Secret, creates or updates the workload: nothing else has to happen in between.\<close>

theorem placed_credential_builds_workload:
  assumes "listAgents env h (ctor_namespace a) = Inr agents" and "x \<in> set agents"
    and "om_Namespace (ag_Meta x) = ctor_namespace a" and "ag_Spec x = constructed_spec a d"
    and "\<And>h. getAgent env h (key_of (ag_Meta x)) = Inr x"
    and "\<And>h. getSecretMeta env h (credentialsKey a (def_Agent d)) = Inr ()"
    and "key_of m = credentialsKey a (def_Agent d)"
  shows "key_of (ag_Meta x) \<in> set (fst (run_state (SetupWithManager env (SecretChanged m)) h))
    \<and> (\<exists>res. CreateOrUpdate (key_of (ag_Meta x)) res \<in> set (appended (Reconcile env r (key_of (ag_Meta x))) h'))"
proof
  let ?k = "key_of (ag_Meta x)"
  have key: "credentials_key x = credentialsKey a (def_Agent d)"
    using assms(3,4) by (simp add: credentials_key_def credentialsKey_def constructed_spec_def)
  have "requests_naming name xs = map (\<lambda>y. key_of (ag_Meta y)) (filter (\<lambda>y. as_CredentialsSecretName (ag_Spec y) = name) xs)"
    for name xs by (induction xs) auto
  then show "?k \<in> set (fst (run_state (SetupWithManager env (SecretChanged m)) h))"
    using assms(1,2,4,7)
    by (simp add: SetupWithManager_def agentsNamingSecret_def run_simps credentialsKey_def constructed_spec_def)
  let ?h1 = "h' @ [GetAgent ?k (Inr x)]"
  obtain w t es where w: "run_state (reconcileWorkload env r x) ?h1 = (w, t)"
    and run: "snd (run_state (Reconcile env r ?k) h') = t @ es"
    by (rule Reconcile_trace [OF assms(5) [of h'], of r])
  have there: "getSecretMeta env ?h1 (credentials_key x) = Inr ()" using assms(6) by (simp only: key)
  from reconcileWorkload_trace [of env r x ?h1] obtain res ls where
    "t = ?h1 @ GetSecretMeta (credentials_key x) (Inr ()) # CreateOrUpdate ?k res # ls"
    unfolding w there by auto
  then show "\<exists>res. CreateOrUpdate ?k res \<in> set (appended (Reconcile env r ?k) h')"
    using run by (auto simp: appended_def)
qed

definition demo_constructed :: Agent where
  "demo_constructed = constructed_agent demo_constructor demo_held"

definition demo_watching_env :: env where
  "demo_watching_env = refusing_env\<lparr>listAgents := (\<lambda>h ns. Inr [demo_constructed]),
     getAgent := (\<lambda>h k. Inr demo_constructed), getSecretMeta := (\<lambda>h k. Inr ())\<rparr>"

theorem placed_credential_builds_workload_witness:
  "\<exists>res. CreateOrUpdate (key_of (ag_Meta demo_constructed)) res
     \<in> set (appended (Reconcile demo_watching_env demo_reconciler (key_of (ag_Meta demo_constructed))) [])"
proof -
  have "ag_Spec demo_constructed = constructed_spec demo_constructor demo_held"
    "om_Namespace (ag_Meta demo_constructed) = ctor_namespace demo_constructor"
    by (simp_all add: demo_constructed_def constructed_agent_def constructed_spec_def object_meta_def)
  with placed_credential_builds_workload [of demo_watching_env "[]" demo_constructor "[demo_constructed]" demo_constructed
      demo_held "object_meta (ctor_namespace demo_constructor) (Name (def_Agent demo_held) @ credentialsSecretSuffix)"
      demo_reconciler "[]"]
  show ?thesis by (simp add: demo_watching_env_def key_of_def object_meta_def credentialsKey_def)
qed

subsection \<open>From a command line to the goroutines\<close>



end
